(* ===== verification/Prelude.thy ===== *)
theory Prelude
  imports Main
begin

text \<open>
  What every component shares. An asynchronous TypeScript function that awaits Redis,
  PostgreSQL or the chain is modelled as a \<^emph>\<open>program\<close>: a function from the external
  state to a result and the next external state, where the result is either a thrown
  error (\<open>Inl\<close>) or a value (\<open>Inr\<close>). One \<open>await\<close> is one \<open>seq\<close>; \<open>try/catch\<close>,
  \<open>finally\<close>, \<open>.catch(() => {})\<close> and a two-element \<open>Promise.all\<close> have a combinator each.
  The theory also holds the JavaScript string, number and date operations the sources
  use, and a locale with the composition rules for relations between the state before
  and the state after a program.
\<close>

section \<open>Programs\<close>

type_synonym ('w, 'e, 'a) prog = "'w \<Rightarrow> ('e + 'a) \<times> 'w"

definition ret :: "'a \<Rightarrow> ('w, 'e, 'a) prog" where
  "ret x = (\<lambda>w. (Inr x, w))"

definition throw :: "'e \<Rightarrow> ('w, 'e, 'a) prog" where
  "throw e = (\<lambda>w. (Inl e, w))"

definition of_sum :: "'e + 'a \<Rightarrow> ('w, 'e, 'a) prog" where
  "of_sum r = (\<lambda>w. (r, w))"

definition seq :: "('w, 'e, 'a) prog \<Rightarrow> ('a \<Rightarrow> ('w, 'e, 'b) prog) \<Rightarrow> ('w, 'e, 'b) prog" where
  "seq m f = (\<lambda>w. case m w of
      (Inl e, w1) \<Rightarrow> (Inl e, w1)
    | (Inr x, w1) \<Rightarrow> f x w1)"

definition try_catch :: "('w, 'e, 'a) prog \<Rightarrow> ('e \<Rightarrow> ('w, 'e, 'a) prog) \<Rightarrow> ('w, 'e, 'a) prog" where
  "try_catch m h = (\<lambda>w. case m w of
      (Inl e, w1) \<Rightarrow> h e w1
    | (Inr x, w1) \<Rightarrow> (Inr x, w1))"

definition ignore_errors :: "('w, 'e, 'a) prog \<Rightarrow> ('w, 'e, unit) prog" where
  "ignore_errors m = (\<lambda>w. (Inr (), snd (m w)))"

definition finally_do :: "('w, 'e, 'a) prog \<Rightarrow> ('w, 'e, 'b) prog \<Rightarrow> ('w, 'e, 'a) prog" where
  "finally_do m fin = (\<lambda>w. case m w of (r, w1) \<Rightarrow>
     (case fin w1 of
        (Inl e, w2) \<Rightarrow> (Inl e, w2)
      | (Inr _, w2) \<Rightarrow> (r, w2)))"

text \<open>
  \<open>Promise.all([m1, m2])\<close>: both calls are issued, whatever becomes of the first, and the
  first rejection is the rejection of the whole.
\<close>

definition both :: "('w, 'e, 'a) prog \<Rightarrow> ('w, 'e, 'b) prog \<Rightarrow> ('w, 'e, 'a \<times> 'b) prog" where
  "both m1 m2 = (\<lambda>w. case m1 w of (r1, w1) \<Rightarrow>
     (case m2 w1 of (r2, w2) \<Rightarrow>
       (case r1 of
          Inl e \<Rightarrow> (Inl e, w2)
        | Inr x \<Rightarrow> (case r2 of Inl e \<Rightarrow> (Inl e, w2) | Inr y \<Rightarrow> (Inr (x, y), w2)))))"

text \<open>A program on one part of the state, run inside the whole state.\<close>

definition zoom :: "('w \<Rightarrow> 't) \<Rightarrow> ('t \<Rightarrow> 'w \<Rightarrow> 'w) \<Rightarrow> ('t, 'e, 'a) prog \<Rightarrow> ('w, 'e, 'a) prog" where
  "zoom rd wr m = (\<lambda>w. case m (rd w) of (r, t) \<Rightarrow> (r, wr t w))"

named_theorems run_simps \<open>what it means for a program to end in a given result\<close>

lemma ret_eq [run_simps]: "ret x w = (r, w') \<longleftrightarrow> r = Inr x \<and> w' = w"
  by (auto simp: ret_def)

lemma throw_eq [run_simps]: "throw e w = (r, w') \<longleftrightarrow> r = Inl e \<and> w' = w"
  by (auto simp: throw_def)

lemma of_sum_eq [run_simps]: "of_sum s w = (r, w') \<longleftrightarrow> s = r \<and> w' = w"
  by (auto simp: of_sum_def)

lemma seq_Inr [run_simps]:
  "seq m f w = (Inr y, w') \<longleftrightarrow> (\<exists>x w1. m w = (Inr x, w1) \<and> f x w1 = (Inr y, w'))"
  by (auto simp: seq_def split: prod.splits sum.splits)

lemma seq_Inl [run_simps]:
  "seq m f w = (Inl e, w') \<longleftrightarrow>
     m w = (Inl e, w') \<or> (\<exists>x w1. m w = (Inr x, w1) \<and> f x w1 = (Inl e, w'))"
  by (auto simp: seq_def split: prod.splits sum.splits)

lemma try_catch_Inr [run_simps]:
  "try_catch m h w = (Inr x, w') \<longleftrightarrow>
     m w = (Inr x, w') \<or> (\<exists>e w1. m w = (Inl e, w1) \<and> h e w1 = (Inr x, w'))"
  by (auto simp: try_catch_def split: prod.splits sum.splits)

lemma try_catch_Inl [run_simps]:
  "try_catch m h w = (Inl e', w') \<longleftrightarrow> (\<exists>e w1. m w = (Inl e, w1) \<and> h e w1 = (Inl e', w'))"
  by (auto simp: try_catch_def split: prod.splits sum.splits)

lemma ignore_errors_eq [run_simps]:
  "ignore_errors m w = (r, w') \<longleftrightarrow> r = Inr () \<and> w' = snd (m w)"
  by (auto simp: ignore_errors_def)

lemma finally_do_Inr [run_simps]:
  "finally_do m fin w = (Inr x, w') \<longleftrightarrow>
     (\<exists>w1 y. m w = (Inr x, w1) \<and> fin w1 = (Inr y, w'))"
  by (auto simp: finally_do_def split: prod.splits sum.splits)

lemma both_Inr [run_simps]:
  "both m1 m2 w = (Inr p, w') \<longleftrightarrow>
     (\<exists>w1. m1 w = (Inr (fst p), w1) \<and> m2 w1 = (Inr (snd p), w'))"
  by (cases p) (auto simp: both_def split: prod.splits sum.splits)

lemma zoom_eq [run_simps]:
  "zoom rd wr m w = (r, w') \<longleftrightarrow> (\<exists>t. m (rd w) = (r, t) \<and> w' = wr t w)"
  by (auto simp: zoom_def split: prod.splits)

lemma snd_zoom [run_simps]: "snd (zoom rd wr m w) = wr (snd (m (rd w))) w"
  by (simp add: zoom_def split: prod.splits)

text \<open>Branches, so that a run is a disjunction over the paths of the code.\<close>

lemma if_run [run_simps]:
  "(if b then m1 else m2) w = (r, w') \<longleftrightarrow> b \<and> m1 w = (r, w') \<or> \<not> b \<and> m2 w = (r, w')"
  by simp

lemma case_option_run [run_simps]:
  "(case v of None \<Rightarrow> m | Some x \<Rightarrow> f x) w = (r, w') \<longleftrightarrow>
     v = None \<and> m w = (r, w') \<or> (\<exists>x. v = Some x \<and> f x w = (r, w'))"
  by (cases v) auto

lemma case_list_run [run_simps]:
  "(case v of [] \<Rightarrow> m | x # xs \<Rightarrow> f x xs) w = (r, w') \<longleftrightarrow>
     v = [] \<and> m w = (r, w') \<or> (\<exists>x xs. v = x # xs \<and> f x xs w = (r, w'))"
  by (cases v) auto

lemma case_sum_run [run_simps]:
  "(case v of Inl e \<Rightarrow> g e | Inr x \<Rightarrow> f x) w = (r, w') \<longleftrightarrow>
     (\<exists>e. v = Inl e \<and> g e w = (r, w')) \<or> (\<exists>x. v = Inr x \<and> f x w = (r, w'))"
  by (cases v) auto

lemma case_prod_run [run_simps]:
  "(case v of (x, y) \<Rightarrow> f x y) w = (r, w') \<longleftrightarrow> (\<exists>x y. v = (x, y) \<and> f x y w = (r, w'))"
  by (cases v) auto

lemma let_run [run_simps]: "(let x = v in f x) w = (r, w') \<longleftrightarrow> f v w = (r, w')"
  by simp

section \<open>Relations between the state before and the state after\<close>

definition steps :: "('w \<Rightarrow> 'w \<Rightarrow> bool) \<Rightarrow> ('w, 'e, 'a) prog \<Rightarrow> bool" where
  "steps R m \<longleftrightarrow> (\<forall>w. R w (snd (m w)))"

lemma stepsI: "(\<And>w r w'. m w = (r, w') \<Longrightarrow> R w w') \<Longrightarrow> steps R m"
  by (auto simp: steps_def) (metis prod.collapse)

lemma stepsD: "steps R m \<Longrightarrow> m w = (r, w') \<Longrightarrow> R w w'"
  by (metis steps_def snd_conv)

text \<open>
  A relation that holds between a state and itself and composes is kept by a whole
  program as soon as each of its calls keeps it. The invariants and the monotonicity
  properties of the services are instances.
\<close>

locale step_relation =
  fixes R :: "'w \<Rightarrow> 'w \<Rightarrow> bool"
  assumes rel_refl: "R w w"
    and rel_trans: "R w1 w2 \<Longrightarrow> R w2 w3 \<Longrightarrow> R w1 w3"
begin

lemma steps_ret [intro]: "steps R (ret x)"
  by (simp add: steps_def ret_def rel_refl)

lemma steps_throw [intro]: "steps R (throw e)"
  by (simp add: steps_def throw_def rel_refl)

lemma steps_of_sum [intro]: "steps R (of_sum r)"
  by (simp add: steps_def of_sum_def rel_refl)

lemma steps_seq [intro]:
  assumes "steps R m" and "\<And>x. steps R (f x)"
  shows "steps R (seq m f)"
proof (rule stepsI)
  fix w r w'
  assume run: "seq m f w = (r, w')"
  obtain s w1 where m: "m w = (s, w1)" by fastforce
  show "R w w'"
    using run m stepsD [OF assms(1) m] stepsD [OF assms(2)]
    by (cases s) (auto simp: seq_def intro: rel_trans)
qed

lemma steps_try_catch [intro]:
  assumes "steps R m" and "\<And>e. steps R (h e)"
  shows "steps R (try_catch m h)"
proof (rule stepsI)
  fix w r w'
  assume run: "try_catch m h w = (r, w')"
  obtain s w1 where m: "m w = (s, w1)" by fastforce
  show "R w w'"
    using run m stepsD [OF assms(1) m] stepsD [OF assms(2)]
    by (cases s) (auto simp: try_catch_def intro: rel_trans)
qed

lemma steps_ignore_errors [intro]: "steps R m \<Longrightarrow> steps R (ignore_errors m)"
  by (simp add: steps_def ignore_errors_def)

lemma steps_finally_do [intro]:
  assumes "steps R m" and "steps R fin"
  shows "steps R (finally_do m fin)"
proof (rule stepsI)
  fix w r w'
  assume run: "finally_do m fin w = (r, w')"
  obtain s w1 where m: "m w = (s, w1)" by fastforce
  obtain t w2 where fin: "fin w1 = (t, w2)" by fastforce
  have "w' = w2" using run m fin by (cases t) (auto simp: finally_do_def)
  then show "R w w'"
    using stepsD [OF assms(1) m] stepsD [OF assms(2) fin] by (auto intro: rel_trans)
qed

lemma steps_both [intro]:
  assumes "steps R m1" and "steps R m2"
  shows "steps R (both m1 m2)"
proof (rule stepsI)
  fix w r w'
  assume run: "both m1 m2 w = (r, w')"
  obtain s w1 where m1: "m1 w = (s, w1)" by fastforce
  obtain t w2 where m2: "m2 w1 = (t, w2)" by fastforce
  have "w' = w2" using run m1 m2 by (cases s; cases t) (auto simp: both_def)
  then show "R w w'"
    using stepsD [OF assms(1) m1] stepsD [OF assms(2) m2] by (auto intro: rel_trans)
qed

lemma steps_if [intro]: "steps R m1 \<Longrightarrow> steps R m2 \<Longrightarrow> steps R (if b then m1 else m2)"
  by simp

lemma steps_case_option [intro]:
  "steps R m \<Longrightarrow> (\<And>x. steps R (f x)) \<Longrightarrow> steps R (case o' of None \<Rightarrow> m | Some x \<Rightarrow> f x)"
  by (cases o') auto

lemma steps_case_sum [intro]:
  "(\<And>e. steps R (g e)) \<Longrightarrow> (\<And>x. steps R (f x)) \<Longrightarrow> steps R (case s of Inl e \<Rightarrow> g e | Inr x \<Rightarrow> f x)"
  by (cases s) auto

lemma steps_case_prod [intro]:
  "(\<And>x y. steps R (f x y)) \<Longrightarrow> steps R (case p of (x, y) \<Rightarrow> f x y)"
  by (cases p) auto

lemmas steps_intros =
  steps_ret steps_throw steps_of_sum steps_seq steps_try_catch steps_ignore_errors
  steps_finally_do steps_both steps_if steps_case_option steps_case_sum steps_case_prod

end

section \<open>JavaScript strings\<close>

lemma Suc_0_le_length [simp]: "Suc 0 \<le> length s \<longleftrightarrow> s \<noteq> []"
  by (cases s) simp_all

definition char_lower :: "char \<Rightarrow> char" where
  "char_lower c = (let n = of_char c :: nat in if 65 \<le> n \<and> n \<le> 90 then char_of (n + 32) else c)"

definition char_upper :: "char \<Rightarrow> char" where
  "char_upper c = (let n = of_char c :: nat in if 97 \<le> n \<and> n \<le> 122 then char_of (n - 32) else c)"

definition toLowerCase :: "string \<Rightarrow> string" where
  "toLowerCase = map char_lower"

definition toUpperCase :: "string \<Rightarrow> string" where
  "toUpperCase = map char_upper"

definition is_digit :: "char \<Rightarrow> bool" where
  "is_digit c = (let n = of_char c :: nat in 48 \<le> n \<and> n \<le> 57)"

definition is_hex :: "char \<Rightarrow> bool" where
  "is_hex c = (let n = of_char c :: nat in
     48 \<le> n \<and> n \<le> 57 \<or> 65 \<le> n \<and> n \<le> 70 \<or> 97 \<le> n \<and> n \<le> 102)"

definition startsWith :: "string \<Rightarrow> string \<Rightarrow> bool" where
  "startsWith s p = (take (length p) s = p)"

definition endsWith :: "string \<Rightarrow> string \<Rightarrow> bool" where
  "endsWith s p = (length p \<le> length s \<and> drop (length s - length p) s = p)"

fun str_includes :: "string \<Rightarrow> string \<Rightarrow> bool" where
  "str_includes [] p = (p = [])"
| "str_includes (c # cs) p = (startsWith (c # cs) p \<or> str_includes cs p)"

text \<open>A text between single quotes, as in the template strings of messages.\<close>

definition quoted :: "string \<Rightarrow> string" where
  "quoted s = [CHR 0x27] @ s @ [CHR 0x27]"

text \<open>The regular expression \<open>/^0x[0-9a-fA-F]{n}$/\<close>.\<close>

definition hex0x :: "nat \<Rightarrow> string \<Rightarrow> bool" where
  "hex0x n s = (take 2 s = ''0x'' \<and> length s = n + 2 \<and> list_all is_hex (drop 2 s))"

text \<open>The regular expression \<open>/^\d+$/\<close> and \<open>BigInt\<close> of a string it accepts.\<close>

definition decimal :: "string \<Rightarrow> bool" where
  "decimal s = (s \<noteq> [] \<and> list_all is_digit s)"

definition digit_val :: "char \<Rightarrow> int" where
  "digit_val c = int (of_char c) - 48"

definition bigint_of :: "string \<Rightarrow> int" where
  "bigint_of s = foldl (\<lambda>acc c. acc * 10 + digit_val c) 0 s"

text \<open>\<open>toString()\<close> of a \<open>bigint\<close>, and of a \<open>number\<close> that is an integer below \<open>10^21\<close>.\<close>

fun nat_digits :: "nat \<Rightarrow> string" where
  "nat_digits n = (if n < 10 then [char_of (48 + n)]
                   else nat_digits (n div 10) @ [char_of (48 + n mod 10)])"

declare nat_digits.simps [simp del]

definition int_str :: "int \<Rightarrow> string" where
  "int_str i = (if i < 0 then ''-'' @ nat_digits (nat (- i)) else nat_digits (nat i))"

lemma toLowerCase_idem [simp]: "toLowerCase (toLowerCase s) = toLowerCase s"
  by (auto simp: toLowerCase_def char_lower_def Let_def)

text \<open>Division of \<open>bigint\<close>s truncates towards zero.\<close>

definition bigint_div :: "int \<Rightarrow> int \<Rightarrow> int" where
  "bigint_div a b = sgn a * sgn b * (\<bar>a\<bar> div \<bar>b\<bar>)"

lemma bigint_div_nonneg [simp]: "0 \<le> a \<Longrightarrow> 0 < b \<Longrightarrow> bigint_div a b = a div b"
  by (cases "a = 0") (simp_all add: bigint_div_def)

lemma toUpperCase_idem [simp]: "toUpperCase (toUpperCase s) = toUpperCase s"
  by (auto simp: toUpperCase_def char_upper_def Let_def)

lemma toLowerCase_length [simp]: "length (toLowerCase s) = length s"
  by (simp add: toLowerCase_def)

lemma startsWith_append [simp]: "startsWith (p @ s) p"
  by (simp add: startsWith_def)

lemma startsWith_iff: "startsWith s p \<longleftrightarrow> (\<exists>t. s = p @ t)"
  by (metis append_eq_conv_conj append_take_drop_id startsWith_def)

lemma digit_char:
  assumes "n < 10"
  shows "is_digit (char_of (48 + n))" and "digit_val (char_of (48 + n)) = int n"
proof -
  have "of_char (char_of (48 + n) :: char) = (48 + n)"
    using assms by (simp add: of_char_of)
  then show "is_digit (char_of (48 + n))" and "digit_val (char_of (48 + n)) = int n"
    using assms by (simp_all add: is_digit_def digit_val_def)
qed

lemma bigint_of_snoc: "bigint_of (s @ [c]) = bigint_of s * 10 + digit_val c"
  by (simp add: bigint_of_def)

lemma nat_digits_decimal: "decimal (nat_digits n)"
proof (induction n rule: nat_digits.induct)
  case (1 n)
  show ?case
  proof (cases "n < 10")
    case True
    then show ?thesis by (simp add: nat_digits.simps [of n] decimal_def digit_char)
  next
    case False
    then show ?thesis
      using "1.IH" by (simp add: nat_digits.simps [of n] decimal_def digit_char)
  qed
qed

lemma bigint_of_nat_digits [simp]: "bigint_of (nat_digits n) = int n"
proof (induction n rule: nat_digits.induct)
  case (1 n)
  show ?case
  proof (cases "n < 10")
    case True
    then show ?thesis
      by (simp add: nat_digits.simps [of n] bigint_of_def digit_char)
  next
    case False
    then show ?thesis
      using "1.IH" by (simp add: nat_digits.simps [of n] bigint_of_snoc digit_char) presburger
  qed
qed

lemma bigint_of_int_str [simp]: "0 \<le> i \<Longrightarrow> bigint_of (int_str i) = i"
  by (simp add: int_str_def)

lemma bigint_of_nonneg_aux:
  "list_all is_digit s \<Longrightarrow> 0 \<le> a \<Longrightarrow> 0 \<le> foldl (\<lambda>acc c. acc * 10 + digit_val c) a s"
  by (induction s arbitrary: a) (auto simp: is_digit_def digit_val_def Let_def)

lemma bigint_of_nonneg: "decimal s \<Longrightarrow> 0 \<le> bigint_of s"
  by (simp add: decimal_def bigint_of_def bigint_of_nonneg_aux)

section \<open>JavaScript dates\<close>

text \<open>
  \<open>Date.prototype.toISOString\<close> of an instant in milliseconds since 1970: a \<open>RangeError\<close>
  (\<open>None\<close>) beyond \<open>8.64e15\<close>, and otherwise the proleptic Gregorian date, as ECMAScript
  specifies it.
\<close>

definition valid_time :: "int \<Rightarrow> bool" where
  "valid_time ms = (\<bar>ms\<bar> \<le> 8640000000000000)"

definition civil_from_days :: "int \<Rightarrow> int \<times> int \<times> int" where
  "civil_from_days z0 =
     (let z = z0 + 719468;
          era = z div 146097;
          doe = z mod 146097;
          yoe = (doe - doe div 1460 + doe div 36524 - doe div 146096) div 365;
          doy = doe - (365 * yoe + yoe div 4 - yoe div 100);
          mp = (5 * doy + 2) div 153;
          d = doy - (153 * mp + 2) div 5 + 1;
          m = (if mp < 10 then mp + 3 else mp - 9);
          y = yoe + era * 400 + (if m \<le> 2 then 1 else 0)
      in (y, m, d))"

definition pad :: "nat \<Rightarrow> int \<Rightarrow> string" where
  "pad k i = (let s = int_str i in replicate (k - length s) (CHR ''0'') @ s)"

definition iso_year :: "int \<Rightarrow> string" where
  "iso_year y = (if 0 \<le> y \<and> y \<le> 9999 then pad 4 y
                 else if y < 0 then ''-'' @ pad 6 (- y) else ''+'' @ pad 6 y)"

definition toISOString :: "int \<Rightarrow> string option" where
  "toISOString ms =
     (if valid_time ms then
        (case civil_from_days (ms div 86400000) of (y, m, d) \<Rightarrow>
           let t = ms mod 86400000 in
           Some (iso_year y @ ''-'' @ pad 2 m @ ''-'' @ pad 2 d @ ''T'' @
                 pad 2 (t div 3600000) @ '':'' @ pad 2 (t div 60000 mod 60) @ '':'' @
                 pad 2 (t div 1000 mod 60) @ ''.'' @ pad 3 (t mod 1000) @ ''Z''))
      else None)"

lemma toISOString_Some_iff: "(\<exists>s. toISOString ms = Some s) \<longleftrightarrow> valid_time ms"
  by (auto simp: toISOString_def Let_def split: prod.splits)

section \<open>JSON values and HTTP replies\<close>

datatype json =
    JNull
  | JBool bool
  | JNum int
  | JStr string
  | JArr "json list"
  | JObj "(string \<times> json) list"

text \<open>
  \<open>JSON.stringify\<close> drops a property that is \<open>undefined\<close>; \<open>x ?? null\<close> keeps it as \<open>null\<close>.
\<close>

definition opt_str :: "string \<Rightarrow> string option \<Rightarrow> (string \<times> json) list" where
  "opt_str k v = (case v of None \<Rightarrow> [] | Some s \<Rightarrow> [(k, JStr s)])"

definition null_or_str :: "string option \<Rightarrow> json" where
  "null_or_str v = (case v of None \<Rightarrow> JNull | Some s \<Rightarrow> JStr s)"

fun json_get :: "json \<Rightarrow> string \<Rightarrow> json option" where
  "json_get (JObj kvs) k = map_of kvs k"
| "json_get _ k = None"

text \<open>
  What a handler answers with: the argument of \<open>reply.status\<close> (\<open>None\<close> when the code passes
  \<open>undefined\<close>) and the body sent.
\<close>

record reply =
  reply_status :: "nat option"
  reply_body :: json

definition mk_reply :: "nat \<Rightarrow> json \<Rightarrow> reply" where
  "mk_reply st b = \<lparr>reply_status = Some st, reply_body = b\<rparr>"

text \<open>\<open>parseInt(s, 10)\<close>; \<open>None\<close> is \<open>NaN\<close>.\<close>

definition is_space :: "char \<Rightarrow> bool" where
  "is_space c = (let n = of_char c :: nat in n = 32 \<or> n = 160 \<or> 9 \<le> n \<and> n \<le> 13)"

definition js_trim :: "string \<Rightarrow> string" where
  "js_trim s = rev (dropWhile is_space (rev (dropWhile is_space s)))"

definition js_parseInt :: "string \<Rightarrow> int option" where
  "js_parseInt s0 =
     (let s = dropWhile is_space s0;
          neg = (take 1 s = ''-'');
          t = (if take 1 s = ''-'' \<or> take 1 s = ''+'' then drop 1 s else s);
          ds = takeWhile is_digit t
      in if ds = [] then None else Some (if neg then - bigint_of ds else bigint_of ds))"

end
