(* ===== verification/Errors.thy ===== *)
theory Errors
  imports Prelude
begin

text \<open>
  The stable error model: \<open>src/http/errors.ts\<close> (codes, HTTP statuses, reasons,
  \<open>createError\<close>, \<open>toErrorResponse\<close>), the global handler \<open>src/http/error-handler.ts\<close>
  and the hooks of \<open>src/http/plugins/input-validation.ts\<close>. Codes are strings because the
  sources also throw codes that the \<open>ErrorCode\<close> union does not list; looking such a code
  up in a JavaScript record yields \<open>undefined\<close>, which is \<open>None\<close> here.
\<close>

section \<open>Codes, statuses and reasons\<close>

definition ERROR_CODES :: "string list" where
  "ERROR_CODES =
    [''unsupported_network'', ''unsupported_asset'', ''expired_payment'', ''invalid_signature'',
     ''invalid_nonce'', ''duplicate_payment'', ''invalid_amount'', ''invalid_seller'',
     ''settlement_pending'', ''duplicate_settlement'', ''settlement_failed'',
     ''verification_required'', ''validation_error'', ''not_found'', ''rate_limited'',
     ''internal_error'']"

definition HTTP_STATUS_MAP :: "string \<Rightarrow> nat option" where
  "HTTP_STATUS_MAP = map_of
    [(''unsupported_network'', 422), (''unsupported_asset'', 422), (''expired_payment'', 422),
     (''invalid_signature'', 422), (''invalid_nonce'', 422), (''duplicate_payment'', 409),
     (''invalid_amount'', 422), (''invalid_seller'', 422), (''settlement_pending'', 202),
     (''duplicate_settlement'', 200), (''settlement_failed'', 422),
     (''verification_required'', 422), (''validation_error'', 400), (''not_found'', 404),
     (''rate_limited'', 429), (''internal_error'', 500)]"

definition REASONS :: "string \<Rightarrow> string option" where
  "REASONS = map_of
    [(''unsupported_network'', ''Network not supported''),
     (''unsupported_asset'', ''Asset not supported''),
     (''expired_payment'', ''Payment proof has expired''),
     (''invalid_signature'', ''Signature verification failed''),
     (''invalid_nonce'', ''Nonce already used or invalid''),
     (''duplicate_payment'', ''Payment already processed''),
     (''invalid_amount'', ''Amount does not match invoice''),
     (''invalid_seller'', ''Seller address mismatch''),
     (''settlement_pending'', ''Settlement already in progress''),
     (''duplicate_settlement'', ''Settlement already completed''),
     (''settlement_failed'', ''On-chain transaction failed''),
     (''verification_required'', ''Payment must be verified first''),
     (''validation_error'', ''Request validation failed''),
     (''not_found'', ''Resource not found''),
     (''rate_limited'', ''Too many requests''),
     (''internal_error'', ''Internal server error'')]"

record facilitator_error =
  fe_code :: string
  fe_httpStatus :: "nat option"
  fe_reason :: "string option"
  fe_message :: string
  fe_correlationId :: "string option"

definition createError :: "string \<Rightarrow> string option \<Rightarrow> string option \<Rightarrow> facilitator_error" where
  "createError code message correlationId =
     \<lparr>fe_code = code,
      fe_httpStatus = HTTP_STATUS_MAP code,
      fe_reason = REASONS code,
      fe_message = (case message of Some m \<Rightarrow> m
                    | None \<Rightarrow> (case REASONS code of Some r \<Rightarrow> r | None \<Rightarrow> '''')),
      fe_correlationId = correlationId\<rparr>"

definition toErrorResponse :: "facilitator_error \<Rightarrow> json" where
  "toErrorResponse err = JObj [(''error'', JObj (
     (''code'', JStr (fe_code err)) #
     opt_str ''reason'' (fe_reason err) @
     (''message'', JStr (fe_message err)) #
     opt_str ''correlationId'' (fe_correlationId err)))]"

text \<open>
  Everything a handler can throw: a \<open>FacilitatorError\<close>, a Fastify validation error, a plain
  \<open>Error\<close> with its name and message, or an \<open>Error\<close> that carries a \<open>code\<close>.
\<close>

datatype exn =
    Facilitator facilitator_error
  | ValidationError string
  | JsError string string
  | CodedError string string

fun exn_message :: "exn \<Rightarrow> string" where
  "exn_message (Facilitator e) = fe_message e"
| "exn_message (ValidationError m) = m"
| "exn_message (JsError n m) = m"
| "exn_message (CodedError c m) = m"

fun exn_name :: "exn \<Rightarrow> string" where
  "exn_name (Facilitator e) = ''FacilitatorError''"
| "exn_name (ValidationError m) = ''Error''"
| "exn_name (JsError n m) = n"
| "exn_name (CodedError c m) = ''Error''"

definition plainError :: "string \<Rightarrow> exn" where
  "plainError m = JsError ''Error'' m"

section \<open>The global error handler\<close>

datatype log_level = LogError | LogWarn

text \<open>
  \<open>errorHandler\<close>: the level it logs at, the \<open>errorsTotal\<close> labels it counts, and its reply.
\<close>

definition errorHandler ::
  "exn \<Rightarrow> string \<Rightarrow> string option \<Rightarrow> log_level \<times> (string \<times> string) option \<times> reply" where
  "errorHandler err requestId routerPath =
     (let endpoint = (case routerPath of Some p \<Rightarrow> p | None \<Rightarrow> ''unknown'') in
      case err of
        Facilitator fe \<Rightarrow>
          ((case fe_httpStatus fe of Some st \<Rightarrow> if st \<ge> 500 then LogError else LogWarn
            | None \<Rightarrow> LogWarn),
           Some (endpoint, fe_code fe),
           \<lparr>reply_status = fe_httpStatus fe, reply_body = toErrorResponse fe\<rparr>)
      | ValidationError m \<Rightarrow>
          (LogWarn, None,
           mk_reply 400 (JObj [(''error'', JObj
             [(''code'', JStr ''validation_error''),
              (''reason'', JStr ''Request validation failed''),
              (''message'', JStr m),
              (''correlationId'', JStr requestId)])]))
      | _ \<Rightarrow>
          (LogError, Some (endpoint, ''internal_error''),
           mk_reply 500 (JObj [(''error'', JObj
             [(''code'', JStr ''internal_error''),
              (''reason'', JStr ''Internal server error''),
              (''message'', JStr ''An unexpected error occurred''),
              (''correlationId'', JStr requestId)])])))"

section \<open>The input-validation plugin\<close>

definition MAX_BODY_BYTES :: int where
  "MAX_BODY_BYTES = 64 * 1024"

record http_request =
  rq_method :: string
  rq_headers :: "string \<Rightarrow> string option"

definition err_body :: "string \<Rightarrow> string \<Rightarrow> string \<Rightarrow> json" where
  "err_body code reason message = JObj [(''error'', JObj
     [(''code'', JStr code), (''reason'', JStr reason), (''message'', JStr message)])]"

text \<open>A hook that returns \<open>None\<close> lets the request through.\<close>

definition body_limit_hook :: "http_request \<Rightarrow> reply option" where
  "body_limit_hook req =
     (case rq_headers req ''content-length'' of
        None \<Rightarrow> None
      | Some cl \<Rightarrow>
          (case js_parseInt cl of
             None \<Rightarrow> None
           | Some n \<Rightarrow>
               if n > MAX_BODY_BYTES
               then Some (mk_reply 413 (err_body ''payload_too_large''
                      ''Request body exceeds 64KB limit'' ''Reduce the request body size.''))
               else None))"

definition content_type_hook :: "http_request \<Rightarrow> reply option" where
  "content_type_hook req =
     (if rq_method req \<noteq> ''POST'' then None
      else let ct = (case rq_headers req ''content-type'' of None \<Rightarrow> '''' | Some c \<Rightarrow> c) in
        if \<not> str_includes ct ''application/json''
        then Some (mk_reply 415 (err_body ''unsupported_media_type''
               ''Content-Type must be application/json''
               ''Set Content-Type: application/json on all POST requests.''))
        else None)"

text \<open>The header is replaced when it is missing or empty; \<open>uuid\<close> is \<open>crypto.randomUUID()\<close>.\<close>

definition request_id_hook :: "string \<Rightarrow> http_request \<Rightarrow> http_request" where
  "request_id_hook uuid req =
     (case rq_headers req ''x-request-id'' of
        Some (c # cs) \<Rightarrow> req
      | _ \<Rightarrow> req\<lparr>rq_headers := (rq_headers req)(''x-request-id'' \<mapsto> uuid)\<rparr>)"

text \<open>\<open>message.replace(/^[^:]+: /, '')\<close>.\<close>

definition strip_prefix :: "string \<Rightarrow> string" where
  "strip_prefix m =
     (let pre = takeWhile (\<lambda>c. c \<noteq> CHR '':'') m; rest = drop (length pre) m in
      if pre \<noteq> [] \<and> startsWith rest '': '' then drop 2 rest else m)"

record raised_error =
  re_statusCode :: "nat option"
  re_validation :: bool
  re_code :: "string option"
  re_reason :: "string option"
  re_message :: string

definition sanitize_error :: "raised_error \<Rightarrow> string option \<Rightarrow> reply" where
  "sanitize_error err requestId =
     (let statusCode = (case re_statusCode err of Some s \<Rightarrow> s | None \<Rightarrow> 500);
          rid = opt_str ''requestId'' requestId in
      if statusCode = 400 \<or> re_validation err
      then mk_reply 400 (JObj [(''error'', JObj (
             [(''code'', JStr ''validation_error''),
              (''reason'', JStr ''Invalid request payload''),
              (''message'', JStr (strip_prefix (re_message err)))] @ rid))])
      else case re_code err of
        Some (c # cs) \<Rightarrow>
          mk_reply statusCode (JObj [(''error'', JObj (
             [(''code'', JStr (c # cs)),
              (''reason'', JStr (case re_reason err of Some r \<Rightarrow> r | None \<Rightarrow> re_message err)),
              (''message'', JStr (re_message err))] @ rid))])
      | _ \<Rightarrow>
          mk_reply 500 (JObj [(''error'', JObj (
             [(''code'', JStr ''internal_error''),
              (''reason'', JStr ''An unexpected error occurred''),
              (''message'', JStr ''Please retry. If the issue persists, contact support.'')]
             @ rid))]))"

section \<open>Lemmas\<close>

lemma status_dom: "HTTP_STATUS_MAP c \<noteq> None \<longleftrightarrow> c \<in> set ERROR_CODES"
  by (auto simp: HTTP_STATUS_MAP_def ERROR_CODES_def split: if_splits)

lemma reasons_dom: "REASONS c \<noteq> None \<longleftrightarrow> c \<in> set ERROR_CODES"
  by (auto simp: REASONS_def ERROR_CODES_def split: if_splits)

lemma status_range: "HTTP_STATUS_MAP c = Some st \<Longrightarrow> 200 \<le> st \<and> st \<le> 500"
  by (auto simp: HTTP_STATUS_MAP_def split: if_splits)

lemma createError_code [simp]: "fe_code (createError c m i) = c"
  by (simp add: createError_def)

lemma createError_message_Some [simp]: "fe_message (createError c (Some m) i) = m"
  by (simp add: createError_def)

text \<open>The global handler answers every listed error code with a status of its own between
  200 and 500, has no status for a code outside the list (the sources throw such codes), and
  answers any other exception with status 500 and a body in which nothing of the exception
  appears: two unknown exceptions of the same request get the same reply.\<close>

theorem error_handler_opaque:
  "(reply_status (snd (snd (errorHandler (Facilitator (createError c mo cid)) rid path))) \<noteq> None
      \<longleftrightarrow> c \<in> set ERROR_CODES) \<and>
   errorHandler (JsError n m) rid path = errorHandler (CodedError c' m') rid path \<and>
   reply_status (snd (snd (errorHandler (JsError n m) rid path))) = Some 500"
  using status_dom [of c] by (simp add: errorHandler_def Let_def createError_def mk_reply_def)

text \<open>The error handler of the input-validation plugin reads \<open>statusCode\<close>, which a
  \<open>FacilitatorError\<close> does not have (it has \<open>httpStatus\<close>): every \<open>FacilitatorError\<close> with a
  code would be answered with status 500, whatever its \<open>httpStatus\<close>, its code and message
  intact.\<close>

theorem sanitize_error_facilitator:
  "sanitize_error \<lparr>re_statusCode = None, re_validation = False, re_code = Some (ch # cs),
      re_reason = fe_reason fe, re_message = fe_message fe\<rparr> rid =
   mk_reply 500 (JObj [(''error'', JObj (
      [(''code'', JStr (ch # cs)),
       (''reason'', JStr (case fe_reason fe of Some r \<Rightarrow> r | None \<Rightarrow> fe_message fe)),
       (''message'', JStr (fe_message fe))] @ opt_str ''requestId'' rid))])"
  by (cases "fe_reason fe") (simp_all add: sanitize_error_def)

end
