(* ===== verification/Externals.thy ===== *)
theory Externals
  imports Errors
begin

text \<open>
  The two stores every service talks to. Redis (through ioredis) and PostgreSQL (through
  the generated Prisma client) are not under src/, so their operations are parameters: a
  record of operations per client, and a locale with the documented behaviour the code
  relies on. A command that rejects is an \<open>Inl\<close>; the laws promise little about it. The
  locales are interpreted on the key-value mock of \<open>tests/unit/anti-replay.test.ts\<close> and
  on tables with the unique constraints of \<open>prisma/schema.prisma\<close>.
\<close>

section \<open>Redis\<close>

text \<open>The keyspace: the values the code stores are \<open>'1'\<close> and counters.\<close>

type_synonym keyspace = "string \<Rightarrow> int option"

record redis_api =
  redis_set_nx :: "string \<Rightarrow> int \<Rightarrow> (keyspace, exn, bool) prog"
  redis_del :: "string \<Rightarrow> (keyspace, exn, unit) prog"
  redis_get :: "string \<Rightarrow> (keyspace, exn, int option) prog"
  redis_exists :: "string \<Rightarrow> (keyspace, exn, bool) prog"
  redis_incr :: "string \<Rightarrow> (keyspace, exn, int) prog"
  redis_expire :: "string \<Rightarrow> int \<Rightarrow> (keyspace, exn, unit) prog"

text \<open>
  \<open>SET k '1' EX ttl NX\<close> answers \<open>OK\<close> (\<open>True\<close>) and stores the key when it is absent, and
  answers \<open>null\<close> (\<open>False\<close>) and changes nothing when it is present. A command that fails
  may or may not have been applied, but touches no other key. The laws speak of one
  command at a time: a key that expires between two commands is a change of the keyspace
  between them.
\<close>

locale redis_store =
  fixes R :: redis_api
  assumes set_nx_ok: "redis_set_nx R k ttl m = (Inr b, m') \<Longrightarrow>
      b = (m k = None) \<and> m' = (if m k = None then m(k \<mapsto> 1) else m)"
    and set_nx_err: "redis_set_nx R k ttl m = (Inl e, m') \<Longrightarrow> k' \<noteq> k \<Longrightarrow> m' k' = m k'"
    and del_ok: "redis_del R k m = (Inr u, m') \<Longrightarrow> m' = m(k := None)"
    and del_err: "redis_del R k m = (Inl e, m') \<Longrightarrow> k' \<noteq> k \<Longrightarrow> m' k' = m k'"
    and get_ok: "redis_get R k m = (Inr v, m') \<Longrightarrow> v = m k"
    and get_state: "snd (redis_get R k m) = m"
    and exists_ok: "redis_exists R k m = (Inr b, m') \<Longrightarrow> b = (m k \<noteq> None)"
    and exists_state: "snd (redis_exists R k m) = m"
    and incr_ok: "redis_incr R k m = (Inr n, m') \<Longrightarrow>
      n = (case m k of None \<Rightarrow> 1 | Some c \<Rightarrow> c + 1) \<and> m' = m(k \<mapsto> n)"
    and incr_err: "redis_incr R k m = (Inl e, m') \<Longrightarrow> k' \<noteq> k \<Longrightarrow> m' k' = m k'"
    and expire_state: "snd (redis_expire R k ttl m) = m"
begin

lemma set_nx_frame: "redis_set_nx R k ttl m = (r, m') \<Longrightarrow> k' \<noteq> k \<Longrightarrow> m' k' = m k'"
  by (cases r) (auto dest: set_nx_ok set_nx_err split: if_splits)

lemma del_frame: "redis_del R k m = (r, m') \<Longrightarrow> k' \<noteq> k \<Longrightarrow> m' k' = m k'"
  by (cases r) (auto dest: del_ok del_err)

lemma set_nx_held: "redis_set_nx R k ttl m = (Inr b, m') \<Longrightarrow> m' k \<noteq> None"
  by (auto dest!: set_nx_ok)

end

text \<open>The mock the repository's unit tests run against.\<close>

definition mock_redis :: redis_api where
  "mock_redis =
     \<lparr>redis_set_nx = (\<lambda>k ttl m. if m k \<noteq> None then (Inr False, m) else (Inr True, m(k \<mapsto> 1))),
      redis_del = (\<lambda>k m. (Inr (), m(k := None))),
      redis_get = (\<lambda>k m. (Inr (m k), m)),
      redis_exists = (\<lambda>k m. (Inr (m k \<noteq> None), m)),
      redis_incr = (\<lambda>k m. let v = (case m k of None \<Rightarrow> 1 | Some c \<Rightarrow> c + 1)
                          in (Inr v, m(k \<mapsto> v))),
      redis_expire = (\<lambda>k ttl m. (Inr (), m))\<rparr>"

interpretation mock: redis_store mock_redis
  by unfold_locales (auto simp: mock_redis_def Let_def split: if_splits)

lemma mock_redis_store: "redis_store mock_redis"
  by (rule mock.redis_store_axioms)

text \<open>
  The object \<open>redis\<close> that \<open>redis.ts\<close> exports is not a client: \<open>ping\<close> is its only method. A call of a
  method that an object does not have throws a \<open>TypeError\<close> at once, so a \<open>.catch\<close> written behind the
  call does not see it.
\<close>

definition redis_methods :: "string list" where
  "redis_methods = [''ping'']"

definition object_call :: "string list \<Rightarrow> string \<Rightarrow> string \<Rightarrow> ('w, exn, 'a) prog \<Rightarrow> ('w, exn, 'a) prog" where
  "object_call methods object method run =
     (if method \<in> set methods then run
      else throw (JsError ''TypeError'' (object @ ''.'' @ method @ '' is not a function'')))"

lemma object_call_has [simp]: "m \<in> set ms \<Longrightarrow> object_call ms ob m run = run"
  by (simp add: object_call_def)

lemma redis_lacks:
  "object_call redis_methods ''redis'' ''del'' run = throw (JsError ''TypeError'' ''redis.del is not a function'')"
  "object_call redis_methods ''redis'' ''incr'' run' = throw (JsError ''TypeError'' ''redis.incr is not a function'')"
  "object_call redis_methods ''redis'' ''expire'' run'' = throw (JsError ''TypeError'' ''redis.expire is not a function'')"
  by (simp_all add: object_call_def redis_methods_def)

text \<open>Redis answers every command: the hypothesis under which the rollback is complete.\<close>

definition redis_answers :: "redis_api \<Rightarrow> bool" where
  "redis_answers R \<longleftrightarrow>
     (\<forall>k ttl m. \<exists>b m'. redis_set_nx R k ttl m = (Inr b, m')) \<and>
     (\<forall>k m. \<exists>m'. redis_del R k m = (Inr (), m'))"

lemma mock_answers: "redis_answers mock_redis"
  by (auto simp: redis_answers_def mock_redis_def)

section \<open>Prisma delegates\<close>

text \<open>
  The operations of \<open>prisma.<model>\<close> on the rows of its table. A \<open>where\<close> clause is a
  predicate and a \<open>data\<close> clause of an update is a function on rows; a row to create comes
  with the defaults of the schema filled in.
\<close>

record 'row delegate =
  db_find :: "('row \<Rightarrow> bool) \<Rightarrow> ('row list, exn, 'row option) prog"
  db_findMany :: "('row \<Rightarrow> bool) \<Rightarrow> ('row list, exn, 'row list) prog"
  db_create :: "'row \<Rightarrow> ('row list, exn, 'row) prog"
  db_update :: "('row \<Rightarrow> bool) \<Rightarrow> ('row \<Rightarrow> 'row) \<Rightarrow> ('row list, exn, 'row) prog"
  db_upsert :: "('row \<Rightarrow> bool) \<Rightarrow> 'row \<Rightarrow> ('row \<Rightarrow> 'row) \<Rightarrow> ('row list, exn, 'row) prog"
  db_updateMany :: "('row \<Rightarrow> bool) \<Rightarrow> ('row \<Rightarrow> 'row) \<Rightarrow> ('row list, exn, nat) prog"
  db_deleteMany :: "('row \<Rightarrow> bool) \<Rightarrow> ('row list, exn, nat) prog"

text \<open>
  \<open>clash r q\<close> says that two rows may not both be in the table (\<open>@id\<close>, \<open>@unique\<close>). A query
  reads only; a statement that fails changes nothing; an insertion that succeeds clashes
  with no row of the table; \<open>update\<close> changes one row that satisfies its \<open>where\<close> clause.
\<close>

locale prisma_table =
  fixes T :: "'row delegate"
    and clash :: "'row \<Rightarrow> 'row \<Rightarrow> bool"
  assumes find_ok: "db_find T p rs = (Inr found, rs') \<Longrightarrow>
      (case found of None \<Rightarrow> (\<forall>x\<in>set rs. \<not> p x) | Some x \<Rightarrow> x \<in> set rs \<and> p x)"
    and find_state: "snd (db_find T p rs) = rs"
    and findMany_ok: "db_findMany T p rs = (Inr xs, rs') \<Longrightarrow> xs = filter p rs"
    and findMany_state: "snd (db_findMany T p rs) = rs"
    and create_ok: "db_create T r rs = (Inr x, rs') \<Longrightarrow>
      x = r \<and> rs' = rs @ [r] \<and> (\<forall>q\<in>set rs. \<not> clash r q)"
    and create_err: "db_create T r rs = (Inl e, rs') \<Longrightarrow> rs' = rs"
    and update_ok: "db_update T p f rs = (Inr x, rs') \<Longrightarrow>
      (\<exists>us v vs. rs = us @ v # vs \<and> p v \<and> x = f v \<and> rs' = us @ f v # vs)"
    and update_err: "db_update T p f rs = (Inl e, rs') \<Longrightarrow> rs' = rs"
    and upsert_ok: "db_upsert T p r f rs = (Inr x, rs') \<Longrightarrow>
      (if \<exists>v\<in>set rs. p v
       then \<exists>us v vs. rs = us @ v # vs \<and> p v \<and> x = f v \<and> rs' = us @ f v # vs
       else x = r \<and> rs' = rs @ [r] \<and> (\<forall>q\<in>set rs. \<not> clash r q))"
    and upsert_err: "db_upsert T p r f rs = (Inl e, rs') \<Longrightarrow> rs' = rs"
    and updateMany_ok: "db_updateMany T p f rs = (Inr n, rs') \<Longrightarrow>
      n = length (filter p rs) \<and> rs' = map (\<lambda>r. if p r then f r else r) rs"
    and updateMany_err: "db_updateMany T p f rs = (Inl e, rs') \<Longrightarrow> rs' = rs"
    and deleteMany_ok: "db_deleteMany T p rs = (Inr n, rs') \<Longrightarrow>
      n = length (filter p rs) \<and> rs' = filter (\<lambda>r. \<not> p r) rs"
    and deleteMany_err: "db_deleteMany T p rs = (Inl e, rs') \<Longrightarrow> rs' = rs"
begin

lemma find_same: "db_find T p rs = (r, rs') \<Longrightarrow> rs' = rs"
  using find_state [of p rs] by simp

lemma findMany_same: "db_findMany T p rs = (r, rs') \<Longrightarrow> rs' = rs"
  using findMany_state [of p rs] by simp

lemma find_None: "db_find T p rs = (Inr None, rs') \<Longrightarrow> (\<forall>x\<in>set rs. \<not> p x) \<and> rs' = rs"
  using find_ok [of p rs None rs'] find_same [of p rs] by simp

lemma find_Some: "db_find T p rs = (Inr (Some x), rs') \<Longrightarrow> x \<in> set rs \<and> p x \<and> rs' = rs"
  using find_ok [of p rs "Some x" rs'] find_same [of p rs] by simp

lemma findMany_run: "db_findMany T p rs = (Inr xs, rs') \<Longrightarrow> xs = filter p rs \<and> rs' = rs"
  using findMany_ok [of p rs xs rs'] findMany_same [of p rs] by simp

lemma create_cases:
  assumes "db_create T r rs = (s, rs')"
  obtains (Created) "s = Inr r" "rs' = rs @ [r]" "\<forall>q\<in>set rs. \<not> clash r q"
        | (Refused) e where "s = Inl e" "rs' = rs"
  using assms by (cases s) (auto dest: create_ok create_err)

lemma update_cases:
  assumes "db_update T p f rs = (s, rs')"
  obtains (Updated) us v vs where "s = Inr (f v)" "rs = us @ v # vs" "p v" "rs' = us @ f v # vs"
        | (Failed) e where "s = Inl e" "rs' = rs"
  using assms by (cases s) (auto dest!: update_ok update_err)

lemma upsert_keep_cases:
  assumes "db_upsert T p r id rs = (s, rs')"
  obtains (Present) v where "s = Inr v" "v \<in> set rs" "p v" "rs' = rs"
        | (Inserted) "s = Inr r" "rs' = rs @ [r]" "\<forall>q\<in>set rs. \<not> p q" "\<forall>q\<in>set rs. \<not> clash r q"
        | (Refused) e where "s = Inl e" "rs' = rs"
  using assms by (cases s) (auto dest!: upsert_ok upsert_err split: if_splits)

end

text \<open>
  A table that enforces \<open>clash\<close> (Prisma error P2002) and refuses to update a row that is
  not there (P2025).
\<close>

fun update_first :: "('r \<Rightarrow> bool) \<Rightarrow> ('r \<Rightarrow> 'r) \<Rightarrow> 'r list \<Rightarrow> ('r \<times> 'r list) option" where
  "update_first p f [] = None"
| "update_first p f (x # xs) =
     (if p x then Some (f x, f x # xs)
      else map_option (\<lambda>(y, ys). (y, x # ys)) (update_first p f xs))"

definition table_of :: "('row \<Rightarrow> 'row \<Rightarrow> bool) \<Rightarrow> 'row delegate" where
  "table_of clash =
     \<lparr>db_find = (\<lambda>p rs. (Inr (List.find p rs), rs)),
      db_findMany = (\<lambda>p rs. (Inr (filter p rs), rs)),
      db_create = (\<lambda>r rs. if list_ex (clash r) rs then (Inl (CodedError ''P2002'' ''''), rs)
                           else (Inr r, rs @ [r])),
      db_update = (\<lambda>p f rs. case update_first p f rs of
                       None \<Rightarrow> (Inl (CodedError ''P2025'' ''''), rs)
                     | Some (x, rs') \<Rightarrow> (Inr x, rs')),
      db_upsert = (\<lambda>p r f rs. case update_first p f rs of
                       Some (x, rs') \<Rightarrow> (Inr x, rs')
                     | None \<Rightarrow> if list_ex (clash r) rs then (Inl (CodedError ''P2002'' ''''), rs)
                               else (Inr r, rs @ [r])),
      db_updateMany = (\<lambda>p f rs. (Inr (length (filter p rs)), map (\<lambda>r. if p r then f r else r) rs)),
      db_deleteMany = (\<lambda>p rs. (Inr (length (filter p rs)), filter (\<lambda>r. \<not> p r) rs))\<rparr>"

lemma update_first_Some:
  "update_first p f rs = Some (x, rs') \<Longrightarrow>
     \<exists>us v vs. rs = us @ v # vs \<and> p v \<and> x = f v \<and> rs' = us @ f v # vs"
proof (induction rs arbitrary: x rs')
  case Nil
  then show ?case by simp
next
  case (Cons a rs)
  show ?case
  proof (cases "p a")
    case True
    with Cons.prems show ?thesis by (auto intro!: exI [of _ "[]"])
  next
    case False
    with Cons.prems obtain ys where ys: "update_first p f rs = Some (x, ys)" "rs' = a # ys"
      by (auto split: option.splits)
    from Cons.IH [OF ys(1)] obtain us v vs where
      "rs = us @ v # vs" "p v" "x = f v" "ys = us @ f v # vs" by blast
    with ys(2) show ?thesis by (auto intro!: exI [of _ "a # us"])
  qed
qed

lemma update_first_None: "update_first p f rs = None \<longleftrightarrow> (\<forall>x\<in>set rs. \<not> p x)"
  by (induction rs) auto

lemma find_first_Some: "List.find p rs = Some x \<Longrightarrow> x \<in> set rs \<and> p x"
  by (induction rs) (auto split: if_splits)

interpretation pg: prisma_table "table_of clash" clash for clash :: "'row \<Rightarrow> 'row \<Rightarrow> bool"
proof unfold_locales
  fix p r f x and rs rs' :: "'row list"
  assume "db_upsert (table_of clash) p r f rs = (Inr x, rs')"
  then show "if \<exists>v\<in>set rs. p v
       then \<exists>us v vs. rs = us @ v # vs \<and> p v \<and> x = f v \<and> rs' = us @ f v # vs
       else x = r \<and> rs' = rs @ [r] \<and> (\<forall>q\<in>set rs. \<not> clash r q)"
    by (cases "update_first p f rs")
       (auto simp: table_of_def update_first_None list_ex_iff split: if_splits dest: update_first_Some)
qed (auto simp: table_of_def find_None_iff list_ex_iff
        split: option.splits if_splits dest: update_first_Some find_first_Some)

lemma table_of_prisma: "prisma_table (table_of clash) clash"
  by (rule pg.prisma_table_axioms)

section \<open>Interactive transactions\<close>

text \<open>
  \<open>prisma.$transaction(body)\<close> runs the body and commits; when the body throws or the
  commit fails the database is as before.
\<close>

type_synonym ('d, 'a) transact = "('d, exn, 'a) prog \<Rightarrow> ('d, exn, 'a) prog"

locale transactional =
  fixes tx :: "('d, 'a) transact"
  assumes tx_ok: "tx body d = (Inr u, d') \<Longrightarrow> body d = (Inr u, d')"
    and tx_err: "tx body d = (Inl e, d') \<Longrightarrow> d' = d"

definition pg_transaction :: "('d, 'a) transact" where
  "pg_transaction body = (\<lambda>d. case body d of
      (Inr u, d') \<Rightarrow> (Inr u, d')
    | (Inl e, d') \<Rightarrow> (Inl e, d))"

interpretation pgtx: transactional pg_transaction
  by unfold_locales (auto simp: pg_transaction_def split: prod.splits sum.splits)

lemma pg_transactional: "transactional pg_transaction"
  by (rule pgtx.transactional_axioms)

end
