(* ===== verification/Domain.thy ===== *)
theory Domain
  imports Externals
begin

text \<open>
  The rows of \<open>prisma/schema.prisma\<close> as records, their unique constraints, and the state
  the second-version services share: the Redis keyspace and one list of rows per table. A
  \<open>DateTime\<close> is an instant in milliseconds; the \<open>updatedAt\<close> columns are left out, no modelled
  code reads them.
\<close>

section \<open>Rows\<close>

datatype device_type = server | robot | iot | agent

record seller_row =
  se_id :: string
  se_name :: string
  se_apiKeyHash :: string
  se_walletAddress :: string
  se_referralCode :: "string option"
  se_deviceType :: device_type
  se_webhookUrl :: "string option"
  se_active :: bool
  se_createdAt :: int

record network_row =
  nw_id :: string
  nw_chainId :: int
  nw_name :: string
  nw_rpcUrl :: string
  nw_fallbackRpcUrl :: "string option"
  nw_nativeCurrency :: string
  nw_blockExplorer :: string
  nw_active :: bool
  nw_addedBy :: string
  nw_createdAt :: int

record payment_request =
  pr_id :: string
  pr_sellerId :: "string option"
  pr_buyerAddress :: string
  pr_networkId :: string
  pr_asset :: string
  pr_amount :: string
  pr_invoiceId :: string
  pr_scheme :: string
  pr_expiresAt :: int
  pr_createdAt :: int

datatype verification_status = VPending | VAccepted | VRejected

record payment_verification =
  pv_id :: string
  pv_requestId :: string
  pv_status :: verification_status
  pv_errorCode :: "string option"
  pv_reason :: "string option"
  pv_signatureHash :: "string option"
  pv_nonce :: "string option"
  pv_payloadHash :: "string option"
  pv_createdAt :: int

datatype settlement_status = SPending | SProcessing | SConfirmed | SFailed

record payment_settlement =
  ps_id :: string
  ps_requestId :: string
  ps_status :: settlement_status
  ps_settlementId :: "string option"
  ps_txHash :: "string option"
  ps_feeAmount :: "string option"
  ps_referralCode :: "string option"
  ps_developerShare :: "string option"
  ps_confirmedAt :: "int option"
  ps_createdAt :: int

record payment_receipt =
  rc_id :: string
  rc_requestId :: string
  rc_protocolVersion :: string
  rc_responsePayload :: json
  rc_createdAt :: int

record webhook_subscription =
  ws_id :: string
  ws_sellerId :: string
  ws_url :: string
  ws_events :: "string list"
  ws_secret :: string
  ws_active :: bool
  ws_createdAt :: int

record webhook_delivery =
  wd_id :: string
  wd_subscriptionId :: string
  wd_event :: string
  wd_payload :: json
  wd_attempt :: int
  wd_status :: string
  wd_httpStatus :: "int option"
  wd_responseBody :: "string option"
  wd_deliveredAt :: "int option"
  wd_createdAt :: int

section \<open>Unique constraints\<close>

text \<open>A column that is \<open>NULL\<close> clashes with nothing.\<close>

definition same_value :: "'a option \<Rightarrow> 'a option \<Rightarrow> bool" where
  "same_value x y = (x \<noteq> None \<and> x = y)"

lemma same_value_simps [simp]: "same_value (Some x) y \<longleftrightarrow> y = Some x" "\<not> same_value None y"
  by (auto simp: same_value_def)

definition seller_clash :: "seller_row \<Rightarrow> seller_row \<Rightarrow> bool" where
  "seller_clash r q \<longleftrightarrow> se_id r = se_id q \<or> se_apiKeyHash r = se_apiKeyHash q \<or>
     se_walletAddress r = se_walletAddress q"

definition network_clash :: "network_row \<Rightarrow> network_row \<Rightarrow> bool" where
  "network_clash r q \<longleftrightarrow> nw_id r = nw_id q \<or> nw_chainId r = nw_chainId q \<or> nw_name r = nw_name q"

definition subscription_clash :: "webhook_subscription \<Rightarrow> webhook_subscription \<Rightarrow> bool" where
  "subscription_clash r q \<longleftrightarrow> ws_id r = ws_id q"

definition request_clash :: "payment_request \<Rightarrow> payment_request \<Rightarrow> bool" where
  "request_clash r q \<longleftrightarrow> pr_id r = pr_id q"

definition verification_clash :: "payment_verification \<Rightarrow> payment_verification \<Rightarrow> bool" where
  "verification_clash r q \<longleftrightarrow> pv_id r = pv_id q \<or>
     same_value (pv_signatureHash r) (pv_signatureHash q) \<or> same_value (pv_nonce r) (pv_nonce q)"

definition settlement_clash :: "payment_settlement \<Rightarrow> payment_settlement \<Rightarrow> bool" where
  "settlement_clash r q \<longleftrightarrow> ps_id r = ps_id q \<or>
     same_value (ps_settlementId r) (ps_settlementId q) \<or> same_value (ps_txHash r) (ps_txHash q)"

definition receipt_clash :: "payment_receipt \<Rightarrow> payment_receipt \<Rightarrow> bool" where
  "receipt_clash r q \<longleftrightarrow> rc_id r = rc_id q \<or> rc_requestId r = rc_requestId q"

section \<open>Submissions to the chain\<close>

text \<open>The arguments of one \<open>writeContract\<close> call of \<open>transferWithAuthorization\<close>.\<close>

record transfer_call =
  tc_asset :: string
  tc_from :: string
  tc_to :: "string option"
  tc_value :: int
  tc_validAfter :: int
  tc_validBefore :: int
  tc_nonce :: "string option"
  tc_v :: "int option"
  tc_r :: string
  tc_s :: string

text \<open>\<open>to\<close> and \<open>nonce\<close> may be \<open>undefined\<close> or \<open>null\<close>: the sources cast them.\<close>

type_synonym chain_log = "(string \<times> transfer_call) list"

section \<open>The state of the services\<close>

text \<open>
  \<open>submitted\<close> is the history of the \<open>writeContract\<close> calls with the RPC endpoint of each; the
  answers of the endpoints are functions of it.
\<close>

record world =
  keys :: keyspace
  sellers :: "seller_row list"
  networks :: "network_row list"
  requests :: "payment_request list"
  verifications :: "payment_verification list"
  settlements :: "payment_settlement list"
  receipts :: "payment_receipt list"
  subscriptions :: "webhook_subscription list"
  deliveries :: "webhook_delivery list"
  submitted :: chain_log

definition on_keys :: "(keyspace, exn, 'a) prog \<Rightarrow> (world, exn, 'a) prog" where
  "on_keys = zoom keys (\<lambda>x w. w\<lparr>keys := x\<rparr>)"

definition on_sellers :: "(seller_row list, exn, 'a) prog \<Rightarrow> (world, exn, 'a) prog" where
  "on_sellers = zoom sellers (\<lambda>x w. w\<lparr>sellers := x\<rparr>)"

definition on_networks :: "(network_row list, exn, 'a) prog \<Rightarrow> (world, exn, 'a) prog" where
  "on_networks = zoom networks (\<lambda>x w. w\<lparr>networks := x\<rparr>)"

definition on_requests :: "(payment_request list, exn, 'a) prog \<Rightarrow> (world, exn, 'a) prog" where
  "on_requests = zoom requests (\<lambda>x w. w\<lparr>requests := x\<rparr>)"

definition on_verifications :: "(payment_verification list, exn, 'a) prog \<Rightarrow> (world, exn, 'a) prog" where
  "on_verifications = zoom verifications (\<lambda>x w. w\<lparr>verifications := x\<rparr>)"

definition on_settlements :: "(payment_settlement list, exn, 'a) prog \<Rightarrow> (world, exn, 'a) prog" where
  "on_settlements = zoom settlements (\<lambda>x w. w\<lparr>settlements := x\<rparr>)"

definition on_receipts :: "(payment_receipt list, exn, 'a) prog \<Rightarrow> (world, exn, 'a) prog" where
  "on_receipts = zoom receipts (\<lambda>x w. w\<lparr>receipts := x\<rparr>)"

definition on_subscriptions :: "(webhook_subscription list, exn, 'a) prog \<Rightarrow> (world, exn, 'a) prog" where
  "on_subscriptions = zoom subscriptions (\<lambda>x w. w\<lparr>subscriptions := x\<rparr>)"

definition on_deliveries :: "(webhook_delivery list, exn, 'a) prog \<Rightarrow> (world, exn, 'a) prog" where
  "on_deliveries = zoom deliveries (\<lambda>x w. w\<lparr>deliveries := x\<rparr>)"

definition on_chain :: "(chain_log, exn, 'a) prog \<Rightarrow> (world, exn, 'a) prog" where
  "on_chain = zoom submitted (\<lambda>x w. w\<lparr>submitted := x\<rparr>)"

lemmas zoom_defs = on_chain_def on_keys_def on_sellers_def on_networks_def on_requests_def on_verifications_def
  on_settlements_def on_receipts_def on_subscriptions_def on_deliveries_def

declare on_keys_def [run_simps] on_sellers_def [run_simps] on_networks_def [run_simps]
  on_requests_def [run_simps] on_verifications_def [run_simps] on_settlements_def [run_simps]
  on_receipts_def [run_simps] on_chain_def [run_simps] on_subscriptions_def [run_simps] on_deliveries_def [run_simps]

definition empty_world :: world where
  "empty_world = \<lparr>keys = Map.empty, sellers = [], networks = [], requests = [], verifications = [],
     settlements = [], receipts = [], subscriptions = [], deliveries = [], submitted = []\<rparr>"

text \<open>
  \<open>include\<close> of a relation: the row its foreign key points to. The constraint guarantees that
  there is one.
\<close>

definition include_row :: "(world \<Rightarrow> 'r list) \<Rightarrow> ('r \<Rightarrow> bool) \<Rightarrow> (world, exn, 'r) prog" where
  "include_row rows p = (\<lambda>w. case List.find p (rows w) of
      Some r \<Rightarrow> (Inr r, w)
    | None \<Rightarrow> (Inl (CodedError ''P2025'' ''''), w))"

definition include_opt :: "(world \<Rightarrow> 'r list) \<Rightarrow> ('r \<Rightarrow> bool) \<Rightarrow> (world, exn, 'r option) prog" where
  "include_opt rows p = (\<lambda>w. (Inr (List.find p (rows w)), w))"

lemma include_row_Inr [run_simps]:
  "include_row rows p w = (Inr r, w') \<longleftrightarrow> List.find p (rows w) = Some r \<and> w' = w"
  by (auto simp: include_row_def split: option.splits)

lemma include_row_same: "include_row rows p w = (r, w') \<Longrightarrow> w' = w"
  by (auto simp: include_row_def split: option.splits)

lemma include_opt_eq [run_simps]:
  "include_opt rows p w = (r, w') \<longleftrightarrow> r = Inr (List.find p (rows w)) \<and> w' = w"
  by (auto simp: include_opt_def)

text \<open>\<open>new Date(ms).toISOString()\<close> throws on a time out of range.\<close>

definition RangeError :: exn where
  "RangeError = JsError ''RangeError'' ''Invalid time value''"

definition iso :: "int \<Rightarrow> ('w, exn, string) prog" where
  "iso ms = (case toISOString ms of Some s \<Rightarrow> ret s | None \<Rightarrow> throw RangeError)"

lemma iso_Inr [run_simps]: "iso ms w = (Inr s, w') \<longleftrightarrow> toISOString ms = Some s \<and> w' = w"
  by (auto simp: iso_def run_simps split: option.split)

lemma iso_Inl [run_simps]: "iso ms w = (Inl e, w') \<longleftrightarrow> toISOString ms = None \<and> e = RangeError \<and> w' = w"
  by (auto simp: iso_def run_simps split: option.split)

text \<open>A network used in examples.\<close>

definition base_network :: network_row where
  "base_network = \<lparr>nw_id = ''net1'', nw_chainId = 8453, nw_name = ''base-mainnet'', nw_rpcUrl = '''',
     nw_fallbackRpcUrl = None, nw_nativeCurrency = ''ETH'', nw_blockExplorer = '''', nw_active = True,
     nw_addedBy = ''system'', nw_createdAt = 0\<rparr>"

end
