(* ===== verification/AntiReplay.thy ===== *)
theory AntiReplay
  imports Domain
begin

text \<open>
  The two anti-replay modules: \<open>src/protocol/anti-replay.ts\<close> (atomic claims with
  \<open>SET NX\<close>, the PostgreSQL fallback) and \<open>src/infrastructure/anti-replay.ts\<close> (the same
  keys, lower-cased). Programs over the keyspace, with the Redis client as a parameter; and
  the interleaved execution of the claim protocol by several requests at once.
\<close>

section \<open>\<open>src/protocol/anti-replay.ts\<close>\<close>

definition NONCE_TTL_SECONDS :: int where
  "NONCE_TTL_SECONDS = 48 * 60 * 60"

text \<open>\<open>hashSignature\<close>: SHA-256 is the parameter \<open>sha256\<close>, in hexadecimal.\<close>

definition hashSignature :: "(string \<Rightarrow> string) \<Rightarrow> string \<Rightarrow> string" where
  "hashSignature sha256 signature = sha256 signature"

datatype replay_reason = nonce_used | signature_used

fun reason_str :: "replay_reason \<Rightarrow> string" where
  "reason_str nonce_used = ''nonce_used''"
| "reason_str signature_used = ''signature_used''"

text \<open>\<open>ReplayCheckResult\<close>: \<open>None\<close> is \<open>isDuplicate: false\<close>.\<close>

type_synonym replay_check = "replay_reason option"

definition nonce_key :: "string \<Rightarrow> string" where
  "nonce_key nonce = ''nonce:'' @ nonce"

definition sig_key :: "string \<Rightarrow> string" where
  "sig_key h = ''sig:'' @ h"

definition checkReplayRedis :: "redis_api \<Rightarrow> string \<Rightarrow> string \<Rightarrow> (keyspace, exn, replay_check) prog" where
  "checkReplayRedis R nonce signatureHash =
     seq (both (redis_exists R (nonce_key nonce)) (redis_exists R (sig_key signatureHash)))
       (\<lambda>(nonceExists, sigExists).
          if nonceExists then ret (Some nonce_used)
          else if sigExists then ret (Some signature_used)
          else ret None)"

definition claimNonceRedis :: "redis_api \<Rightarrow> string \<Rightarrow> string \<Rightarrow> (keyspace, exn, replay_check) prog" where
  "claimNonceRedis R nonce signatureHash =
     seq (both (redis_set_nx R (nonce_key nonce) NONCE_TTL_SECONDS)
               (redis_set_nx R (sig_key signatureHash) NONCE_TTL_SECONDS))
       (\<lambda>(nonceClaimed, sigClaimed).
          if \<not> nonceClaimed then ret (Some nonce_used)
          else if \<not> sigClaimed then
            seq (redis_del R (nonce_key nonce)) (\<lambda>_. ret (Some signature_used))
          else ret None)"

definition releaseNonceRedis :: "redis_api \<Rightarrow> string \<Rightarrow> string \<Rightarrow> (keyspace, exn, unit) prog" where
  "releaseNonceRedis R nonce signatureHash =
     seq (both (redis_del R (nonce_key nonce)) (redis_del R (sig_key signatureHash))) (\<lambda>_. ret ())"

definition checkReplayPostgres ::
  "payment_verification delegate \<Rightarrow> string \<Rightarrow> string \<Rightarrow> (payment_verification list, exn, replay_check) prog" where
  "checkReplayPostgres T nonce signatureHash =
     seq (db_find T (\<lambda>v. pv_nonce v = Some nonce \<or> pv_signatureHash v = Some signatureHash))
       (\<lambda>existing. case existing of
          None \<Rightarrow> ret None
        | Some v \<Rightarrow> if pv_nonce v = Some nonce then ret (Some nonce_used) else ret (Some signature_used))"

definition markReplayUsed :: "redis_api \<Rightarrow> string \<Rightarrow> string \<Rightarrow> (keyspace, exn, unit) prog" where
  "markReplayUsed R nonce signatureHash =
     seq (both (redis_set_nx R (nonce_key nonce) NONCE_TTL_SECONDS)
               (redis_set_nx R (sig_key signatureHash) NONCE_TTL_SECONDS)) (\<lambda>_. ret ())"

section \<open>\<open>src/infrastructure/anti-replay.ts\<close>\<close>

definition INFRA_TTL_SECONDS :: int where
  "INFRA_TTL_SECONDS = 60 * 60 * 24 * 7"

definition claimNonce :: "redis_api \<Rightarrow> string \<Rightarrow> (keyspace, exn, bool) prog" where
  "claimNonce R nonce = redis_set_nx R (nonce_key (toLowerCase nonce)) INFRA_TTL_SECONDS"

definition claimSignatureHash :: "redis_api \<Rightarrow> string \<Rightarrow> (keyspace, exn, bool) prog" where
  "claimSignatureHash R h = redis_set_nx R (sig_key (toLowerCase h)) INFRA_TTL_SECONDS"

definition isNonceSeen :: "redis_api \<Rightarrow> string \<Rightarrow> (keyspace, exn, bool) prog" where
  "isNonceSeen R nonce = seq (redis_get R (nonce_key (toLowerCase nonce))) (\<lambda>v. ret (v \<noteq> None))"

definition releaseNonce :: "redis_api \<Rightarrow> string \<Rightarrow> (keyspace, exn, unit) prog" where
  "releaseNonce R nonce = redis_del R (nonce_key (toLowerCase nonce))"

definition releaseSignatureHash :: "redis_api \<Rightarrow> string \<Rightarrow> (keyspace, exn, unit) prog" where
  "releaseSignatureHash R h = redis_del R (sig_key (toLowerCase h))"

section \<open>Lemmas\<close>

lemma keys_distinct [simp]: "nonce_key n \<noteq> sig_key h" "sig_key h \<noteq> nonce_key n"
  by (simp_all add: nonce_key_def sig_key_def)

lemma nonce_key_inj [simp]: "nonce_key n = nonce_key n' \<longleftrightarrow> n = n'"
  by (simp add: nonce_key_def)

lemma sig_key_inj [simp]: "sig_key h = sig_key h' \<longleftrightarrow> h = h'"
  by (simp add: sig_key_def)

context redis_store
begin

lemma claim_fresh:
  assumes "claimNonceRedis R n h m = (Inr None, m')"
  shows "m (nonce_key n) = None" and "m (sig_key h) = None"
    and "m' = m(nonce_key n \<mapsto> 1, sig_key h \<mapsto> 1)"
  using assms unfolding claimNonceRedis_def
  by (auto simp: run_simps dest!: set_nx_ok split: if_splits)

lemma claim_nonce_used:
  assumes "claimNonceRedis R n h m = (Inr (Some nonce_used), m')"
  shows "m (nonce_key n) \<noteq> None"
    and "m' = (if m (sig_key h) = None then m(sig_key h \<mapsto> 1) else m)"
  using assms unfolding claimNonceRedis_def
  by (auto simp: run_simps dest!: set_nx_ok split: if_splits)

lemma claim_signature_used:
  assumes "claimNonceRedis R n h m = (Inr (Some signature_used), m')"
  shows "m (nonce_key n) = None" and "m (sig_key h) \<noteq> None" and "m' = m"
  using assms unfolding claimNonceRedis_def
  by (auto simp: run_simps dest!: set_nx_ok del_ok split: if_splits)

lemma release_ok:
  "releaseNonceRedis R n h m = (Inr u, m') \<Longrightarrow> m' = m(nonce_key n := None, sig_key h := None)"
  unfolding releaseNonceRedis_def by (auto simp: run_simps dest!: del_ok)

lemma release_undoes_claim:
  assumes "claimNonceRedis R n h m = (Inr None, m1)" and "releaseNonceRedis R n h m1 = (Inr u, m2)"
  shows "m2 = m"
  using claim_fresh [OF assms(1)] release_ok [OF assms(2)] by auto

lemma exists_run: "redis_exists R k m = (Inr b, m') \<Longrightarrow> b = (m k \<noteq> None) \<and> m' = m"
  using exists_ok [of k m b m'] exists_state [of k m] by simp

lemma checkReplayRedis_spec:
  assumes "checkReplayRedis R n h m = (Inr r, m')"
  shows "m' = m" and "r = (if m (nonce_key n) \<noteq> None then Some nonce_used
                          else if m (sig_key h) \<noteq> None then Some signature_used else None)"
  using assms unfolding checkReplayRedis_def
  by (auto simp: run_simps dest!: exists_run split: if_splits)

lemma claimNonce_once:
  assumes "claimNonce R n m = (Inr b, m1)" and "toLowerCase n' = toLowerCase n"
    and "claimNonce R n' m1 = (Inr c, m2)"
  shows "\<not> c"
  using assms unfolding claimNonce_def by (auto dest!: set_nx_ok split: if_splits)

lemma isNonceSeen_spec:
  assumes "isNonceSeen R n m = (Inr b, m')"
  shows "b \<longleftrightarrow> m (nonce_key (toLowerCase n)) \<noteq> None"
  using assms unfolding isNonceSeen_def by (auto simp: run_simps dest!: get_ok)

end

lemma checkReplayPostgres_None:
  assumes "prisma_table T clash" and "checkReplayPostgres T n h rs = (Inr None, rs')"
  shows "rs' = rs" and "\<forall>v\<in>set rs. pv_nonce v \<noteq> Some n \<and> pv_signatureHash v \<noteq> Some h"
  using assms(2) unfolding checkReplayPostgres_def
  by (auto simp: run_simps dest!: prisma_table.find_None [OF assms(1)])

lemma checkReplayPostgres_same:
  assumes "prisma_table T clash" and "checkReplayPostgres T n h rs = (r, rs')"
  shows "rs' = rs"
  using assms(2) prisma_table.find_same [OF assms(1)] unfolding checkReplayPostgres_def
  by (cases r) (auto simp: run_simps)

end
