(* ===== verification/ClaimRace.thy ===== *)
theory ClaimRace
  imports AntiReplay
begin

text \<open>
  Several requests run the claim protocol of \<open>claimNonceRedis\<close> and \<open>releaseNonceRedis\<close> at
  once. Node interleaves them at every \<open>await\<close>, so the unit of interleaving is one Redis
  command. Request \<open>i\<close> presents the nonce \<open>N i\<close> and the signature hash \<open>H i\<close>; it may die
  between two commands. Claims do not expire during the run: the window is 48 hours.
\<close>

datatype claim_pc =
    Start
  | NonceDone bool
  | SigDone bool bool
  | Lost replay_reason
  | Holding
  | Finished
  | Releasing
  | Released
  | Dead

record race =
  race_keys :: keyspace
  race_pc :: "nat \<Rightarrow> claim_pc"

definition move :: "race \<Rightarrow> keyspace \<Rightarrow> nat \<Rightarrow> claim_pc \<Rightarrow> race" where
  "move s k i pc = \<lparr>race_keys = k, race_pc = (race_pc s)(i := pc)\<rparr>"

text \<open>
  The two \<open>SET NX\<close> commands of the \<open>Promise.all\<close> leave on one connection, in order. A
  request that holds its claims either persists an accepted verification and keeps them, or
  fails and deletes both keys.
\<close>

lemma move_simps [simp]:
  "race_keys (move s k i pc) = k" "race_pc (move s k i pc) i = pc"
  "move (move s k i pc) k' i pc' = move s k' i pc'"
  by (simp_all add: move_def)

inductive race_step ::
  "redis_api \<Rightarrow> (nat \<Rightarrow> string) \<Rightarrow> (nat \<Rightarrow> string) \<Rightarrow> race \<Rightarrow> race \<Rightarrow> bool"
  for R :: redis_api and N :: "nat \<Rightarrow> string" and H :: "nat \<Rightarrow> string" where
  set_nonce: "race_pc s i = Start \<Longrightarrow>
      redis_set_nx R (nonce_key (N i)) NONCE_TTL_SECONDS (race_keys s) = (Inr b, k) \<Longrightarrow>
      race_step R N H s (move s k i (NonceDone b))"
| set_sig: "race_pc s i = NonceDone b \<Longrightarrow>
      redis_set_nx R (sig_key (H i)) NONCE_TTL_SECONDS (race_keys s) = (Inr c, k) \<Longrightarrow>
      race_step R N H s (move s k i (SigDone b c))"
| nonce_lost: "race_pc s i = SigDone False c \<Longrightarrow>
      race_step R N H s (move s (race_keys s) i (Lost nonce_used))"
| sig_lost: "race_pc s i = SigDone True False \<Longrightarrow>
      redis_del R (nonce_key (N i)) (race_keys s) = (Inr (), k) \<Longrightarrow>
      race_step R N H s (move s k i (Lost signature_used))"
| claimed: "race_pc s i = SigDone True True \<Longrightarrow>
      race_step R N H s (move s (race_keys s) i Holding)"
| persisted: "race_pc s i = Holding \<Longrightarrow>
      race_step R N H s (move s (race_keys s) i Finished)"
| release_nonce: "race_pc s i = Holding \<Longrightarrow>
      redis_del R (nonce_key (N i)) (race_keys s) = (Inr (), k) \<Longrightarrow>
      race_step R N H s (move s k i Releasing)"
| release_sig: "race_pc s i = Releasing \<Longrightarrow>
      redis_del R (sig_key (H i)) (race_keys s) = (Inr (), k) \<Longrightarrow>
      race_step R N H s (move s k i Released)"
| die: "race_step R N H s (move s (race_keys s) i Dead)"

inductive_cases race_stepE: "race_step R N H s s'"

definition owns_nonce :: "claim_pc \<Rightarrow> bool" where
  "owns_nonce pc = (case pc of NonceDone b \<Rightarrow> b | SigDone b _ \<Rightarrow> b | Holding \<Rightarrow> True | Finished \<Rightarrow> True
     | _ \<Rightarrow> False)"

definition owns_sig :: "claim_pc \<Rightarrow> bool" where
  "owns_sig pc = (case pc of SigDone _ c \<Rightarrow> c | Holding \<Rightarrow> True | Finished \<Rightarrow> True | Releasing \<Rightarrow> True
     | _ \<Rightarrow> False)"

definition past_claim :: "claim_pc \<Rightarrow> bool" where
  "past_claim pc = (pc = Holding \<or> pc = Finished)"

text \<open>Every owned key is present, and no key has two owners.\<close>

definition race_inv :: "(nat \<Rightarrow> string) \<Rightarrow> (nat \<Rightarrow> string) \<Rightarrow> race \<Rightarrow> bool" where
  "race_inv N H s \<longleftrightarrow>
     (\<forall>i. owns_nonce (race_pc s i) \<longrightarrow> race_keys s (nonce_key (N i)) \<noteq> None) \<and>
     (\<forall>i. owns_sig (race_pc s i) \<longrightarrow> race_keys s (sig_key (H i)) \<noteq> None) \<and>
     (\<forall>i j. owns_nonce (race_pc s i) \<longrightarrow> owns_nonce (race_pc s j) \<longrightarrow> N i = N j \<longrightarrow> i = j) \<and>
     (\<forall>i j. owns_sig (race_pc s i) \<longrightarrow> owns_sig (race_pc s j) \<longrightarrow> H i = H j \<longrightarrow> i = j)"

lemmas owner_defs = owns_nonce_def owns_sig_def past_claim_def

definition race_start :: "race \<Rightarrow> bool" where
  "race_start s \<longleftrightarrow> (\<forall>i. race_pc s i = Start)"

lemma race_inv_start: "race_start s \<Longrightarrow> race_inv N H s"
  by (simp add: race_start_def race_inv_def owner_defs)

text \<open>
  An invariant step in three shapes: the keyspace is unchanged and the mover owns no more
  than before; the mover takes a key that was free; the mover gives up a key it owned.
\<close>

lemma race_inv_keep:
  assumes "race_inv N H s"
    and "owns_nonce pc \<Longrightarrow> owns_nonce (race_pc s i)" and "owns_sig pc \<Longrightarrow> owns_sig (race_pc s i)"
  shows "race_inv N H (move s (race_keys s) i pc)"
  using assms unfolding race_inv_def move_def by auto

lemma race_inv_set_nonce:
  assumes "race_inv N H s" and "owns_sig pc \<Longrightarrow> owns_sig (race_pc s i)"
    and "owns_nonce pc \<longleftrightarrow> race_keys s (nonce_key (N i)) = None"
  shows "race_inv N H (move s (if race_keys s (nonce_key (N i)) = None
            then (race_keys s)(nonce_key (N i) \<mapsto> 1) else race_keys s) i pc)"
  using assms unfolding race_inv_def move_def by (auto split: if_splits)

lemma race_inv_set_sig:
  assumes "race_inv N H s" and "owns_nonce pc \<Longrightarrow> owns_nonce (race_pc s i)"
    and "owns_sig pc \<longleftrightarrow> race_keys s (sig_key (H i)) = None"
  shows "race_inv N H (move s (if race_keys s (sig_key (H i)) = None
            then (race_keys s)(sig_key (H i) \<mapsto> 1) else race_keys s) i pc)"
  using assms unfolding race_inv_def move_def by (auto split: if_splits)

lemma race_inv_del_nonce:
  assumes "race_inv N H s" and "owns_nonce (race_pc s i)" and "\<not> owns_nonce pc"
    and "owns_sig pc \<Longrightarrow> owns_sig (race_pc s i)"
  shows "race_inv N H (move s ((race_keys s)(nonce_key (N i) := None)) i pc)"
  using assms unfolding race_inv_def move_def by (auto split: if_splits)

lemma race_inv_del_sig:
  assumes "race_inv N H s" and "owns_sig (race_pc s i)" and "\<not> owns_sig pc"
    and "owns_nonce pc \<Longrightarrow> owns_nonce (race_pc s i)"
  shows "race_inv N H (move s ((race_keys s)(sig_key (H i) := None)) i pc)"
  using assms unfolding race_inv_def move_def by (auto split: if_splits)

context redis_store
begin

lemma race_inv_step:
  assumes "race_step R N H s s'" and "race_inv N H s"
  shows "race_inv N H s'"
  using assms
proof (cases rule: race_step.cases)
  case (set_nonce i b k)
  then show ?thesis
    using set_nx_ok [OF set_nonce(3)] race_inv_set_nonce [OF assms(2), of "NonceDone b" i] by (auto simp: owner_defs)
next
  case (set_sig i b c k)
  then show ?thesis
    using set_nx_ok [OF set_sig(3)] race_inv_set_sig [OF assms(2), of "SigDone b c" i] by (auto simp: owner_defs)
next
  case (sig_lost i k)
  then show ?thesis
    using del_ok race_inv_del_nonce [OF assms(2), of i "Lost signature_used"] by (simp add: owner_defs)
next
  case (release_nonce i k)
  then show ?thesis
    using del_ok race_inv_del_nonce [OF assms(2), of i Releasing] by (simp add: owner_defs)
next
  case (release_sig i k)
  then show ?thesis
    using del_ok race_inv_del_sig [OF assms(2), of i Released] by (simp add: owner_defs)
qed (auto intro!: race_inv_keep [OF assms(2)] simp: owner_defs)

lemma race_inv_reach:
  assumes "(race_step R N H)\<^sup>*\<^sup>* s s'" and "race_inv N H s"
  shows "race_inv N H s'"
  using assms by (induction rule: rtranclp_induct) (auto intro: race_inv_step)

lemma race_mutex:
  assumes "race_start s" and "(race_step R N H)\<^sup>*\<^sup>* s s'"
    and "past_claim (race_pc s' i)" and "past_claim (race_pc s' j)" and "N i = N j \<or> H i = H j"
  shows "i = j"
proof -
  have "race_inv N H s'" using race_inv_reach [OF assms(2) race_inv_start [OF assms(1)]] .
  then show ?thesis using assms(3-5) by (auto simp: race_inv_def owner_defs)
qed

text \<open>A call of \<open>claimNonceRedis\<close> that nobody interrupts is a run of the step relation.\<close>

lemma claim_refines_race:
  assumes pc: "race_pc s i = Start"
    and run: "claimNonceRedis R (N i) (H i) (race_keys s) = (Inr r, k)"
  shows "(race_step R N H)\<^sup>*\<^sup>* s (move s k i (case r of None \<Rightarrow> Holding | Some x \<Rightarrow> Lost x))"
proof -
  from run obtain b c k1 k2 where
    n: "redis_set_nx R (nonce_key (N i)) NONCE_TTL_SECONDS (race_keys s) = (Inr b, k1)"
    and h: "redis_set_nx R (sig_key (H i)) NONCE_TTL_SECONDS k1 = (Inr c, k2)"
    and rest: "\<not> b \<and> r = Some nonce_used \<and> k = k2 \<or>
      b \<and> \<not> c \<and> r = Some signature_used \<and> redis_del R (nonce_key (N i)) k2 = (Inr (), k) \<or>
      b \<and> c \<and> r = None \<and> k = k2"
    unfolding claimNonceRedis_def by (auto simp: run_simps)
  let ?s1 = "move s k1 i (NonceDone b)" and ?s2 = "move s k2 i (SigDone b c)"
  have 1: "race_step R N H s ?s1" by (rule set_nonce [of s i R N b k1 H, OF pc n])
  have 2: "race_step R N H ?s1 ?s2"
    using set_sig [of ?s1 i b R H c k2 N] h by simp
  have 3: "race_step R N H ?s2 (move s k i (case r of None \<Rightarrow> Holding | Some x \<Rightarrow> Lost x))"
    using rest nonce_lost [of ?s2 i c R N H] sig_lost [of ?s2 i R N k H] claimed [of ?s2 i R N H]
    by auto
  show ?thesis
    using 1 2 3 by (meson converse_rtranclp_into_rtranclp rtranclp.rtrancl_refl)
qed

end

text \<open>C18. Of the requests that present the same nonce, or the same signature, at most one is
  ever past the claim, however their Redis commands interleave and whichever of them die
  on the way.\<close>

theorem claim_mutex:
  assumes "redis_store R" and "race_start s" and "(race_step R N H)\<^sup>*\<^sup>* s s'"
    and "past_claim (race_pc s' i)" and "past_claim (race_pc s' j)" and "N i = N j \<or> H i = H j"
  shows "i = j"
  by (rule redis_store.race_mutex [OF assms])

definition race_empty :: race where
  "race_empty = \<lparr>race_keys = Map.empty, race_pc = (\<lambda>_. Start)\<rparr>"

lemma claim_mutex_run:
  "(race_step mock_redis (\<lambda>_. ''n'') (\<lambda>_. ''h''))\<^sup>*\<^sup>* race_empty
     (move race_empty [nonce_key ''n'' \<mapsto> 1, sig_key ''h'' \<mapsto> 1] 3 Holding)"
proof -
  have "claimNonceRedis mock_redis ''n'' ''h'' (race_keys race_empty) =
      (Inr None, [nonce_key ''n'' \<mapsto> 1, sig_key ''h'' \<mapsto> 1])"
    by (simp add: claimNonceRedis_def mock_redis_def race_empty_def seq_def both_def ret_def)
  from mock.claim_refines_race [of race_empty 3 "\<lambda>_. ''n''" "\<lambda>_. ''h''", simplified, OF _ this]
  show ?thesis by (simp add: race_empty_def)
qed

theorem claim_mutex_witness:
  "{i. past_claim (race_pc (move race_empty [nonce_key ''n'' \<mapsto> 1, sig_key ''h'' \<mapsto> 1] 3 Holding) i)} = {3}"
proof -
  have start: "race_start race_empty" by (simp add: race_start_def race_empty_def)
  have "past_claim (race_pc (move race_empty [nonce_key ''n'' \<mapsto> 1, sig_key ''h'' \<mapsto> 1] 3 Holding) 3)"
    by (simp add: move_def past_claim_def)
  with claim_mutex [OF mock_redis_store start claim_mutex_run _ this] show ?thesis by auto
qed

end
