(* ===== verification/X402Parser.thy ===== *)
theory X402Parser
  imports Errors
begin

text \<open>
  \<open>src/protocol/x402-parser.ts\<close> and \<open>src/protocol/x402-schemas.ts\<close>: the Zod schemas of
  the requests and their parsers. A Zod schema is a function from a value (\<open>None\<close> is
  \<open>undefined\<close>) to the list of its issues or the data. An issue is its path; the text of
  an issue is not modelled. Numbers are integers: every number schema of the two files
  refuses the others with \<open>int()\<close>.
\<close>

section \<open>Zod combinators\<close>

type_synonym issues = "string list list"

definition zstring :: "(string \<Rightarrow> bool) \<Rightarrow> json option \<Rightarrow> issues + string" where
  "zstring ok v = (case v of Some (JStr s) \<Rightarrow> (if ok s then Inr s else Inl [[]]) | _ \<Rightarrow> Inl [[]])"

definition znumber :: "(int \<Rightarrow> bool) \<Rightarrow> json option \<Rightarrow> issues + int" where
  "znumber ok v = (case v of Some (JNum n) \<Rightarrow> (if ok n then Inr n else Inl [[]]) | _ \<Rightarrow> Inl [[]])"

definition zoptional :: "(json option \<Rightarrow> issues + 'a) \<Rightarrow> json option \<Rightarrow> issues + 'a option" where
  "zoptional sch v = (case v of None \<Rightarrow> Inr None
     | Some x \<Rightarrow> (case sch (Some x) of Inl i \<Rightarrow> Inl i | Inr y \<Rightarrow> Inr (Some y)))"

definition zfield :: "(string \<times> json) list \<Rightarrow> string \<Rightarrow> (json option \<Rightarrow> issues + 'a) \<Rightarrow> issues + 'a" where
  "zfield kvs k sch = (case sch (map_of kvs k) of Inl i \<Rightarrow> Inl (map ((#) k) i) | Inr x \<Rightarrow> Inr x)"

text \<open>All the keys of an object schema are checked; the issues come in the order of the keys.\<close>

definition zand :: "issues + ('a \<Rightarrow> 'b) \<Rightarrow> issues + 'a \<Rightarrow> issues + 'b" where
  "zand f x = (case f of
      Inl i \<Rightarrow> (case x of Inl j \<Rightarrow> Inl (i @ j) | Inr _ \<Rightarrow> Inl i)
    | Inr g \<Rightarrow> (case x of Inl j \<Rightarrow> Inl j | Inr a \<Rightarrow> Inr (g a)))"

definition zobject :: "((string \<times> json) list \<Rightarrow> issues + 'a) \<Rightarrow> json option \<Rightarrow> issues + 'a" where
  "zobject f v = (case v of Some (JObj kvs) \<Rightarrow> f kvs | _ \<Rightarrow> Inl [[]])"

lemma zstring_Inr [simp]: "zstring ok v = Inr s \<longleftrightarrow> v = Some (JStr s) \<and> ok s"
  by (auto simp: zstring_def split: option.splits json.splits)

lemma znumber_Inr [simp]: "znumber ok v = Inr n \<longleftrightarrow> v = Some (JNum n) \<and> ok n"
  by (auto simp: znumber_def split: option.splits json.splits)

lemma zoptional_Inr [simp]:
  "zoptional sch v = Inr r \<longleftrightarrow>
     (case r of None \<Rightarrow> v = None | Some y \<Rightarrow> \<exists>x. v = Some x \<and> sch (Some x) = Inr y)"
  by (auto simp: zoptional_def split: option.splits sum.splits)

lemma zfield_Inr [simp]: "zfield kvs k sch = Inr x \<longleftrightarrow> sch (map_of kvs k) = Inr x"
  by (auto simp: zfield_def split: sum.splits)

lemma zand_Inr [simp]: "zand f x = Inr b \<longleftrightarrow> (\<exists>g a. f = Inr g \<and> x = Inr a \<and> b = g a)"
  by (auto simp: zand_def split: sum.splits)

lemma zobject_Inr [simp]: "zobject f v = Inr x \<longleftrightarrow> (\<exists>kvs. v = Some (JObj kvs) \<and> f kvs = Inr x)"
  by (auto simp: zobject_def split: option.splits json.splits)

section \<open>The x402 version 1 request\<close>

record authorization =
  au_from :: string
  au_to :: string
  au_value :: string
  au_validAfter :: int
  au_validBefore :: int
  au_nonce :: string

record verify_payload =
  vp_signature :: string
  vp_authorization :: authorization

record verify_request =
  vr_version :: string
  vr_scheme :: string
  vr_network :: string
  vr_asset :: string
  vr_invoiceId :: string
  vr_requiredAmount :: string
  vr_recipient :: string
  vr_payload :: verify_payload

definition AuthorizationSchema :: "json option \<Rightarrow> issues + authorization" where
  "AuthorizationSchema = zobject (\<lambda>kvs.
     zand (zand (zand (zand (zand (zand (Inr authorization.make)
       (zfield kvs ''from'' (zstring (hex0x 40))))
       (zfield kvs ''to'' (zstring (hex0x 40))))
       (zfield kvs ''value'' (zstring decimal)))
       (zfield kvs ''validAfter'' (znumber (\<lambda>n. 0 \<le> n))))
       (zfield kvs ''validBefore'' (znumber (\<lambda>n. 0 < n))))
       (zfield kvs ''nonce'' (zstring (hex0x 64))))"

definition VerifyPayloadSchema :: "json option \<Rightarrow> issues + verify_payload" where
  "VerifyPayloadSchema = zobject (\<lambda>kvs.
     zand (zand (Inr verify_payload.make)
       (zfield kvs ''signature'' (zstring (hex0x 130))))
       (zfield kvs ''authorization'' AuthorizationSchema))"

definition VerifyRequestSchema :: "json option \<Rightarrow> issues + verify_request" where
  "VerifyRequestSchema = zobject (\<lambda>kvs.
     zand (zand (zand (zand (zand (zand (zand (zand (Inr verify_request.make)
       (zfield kvs ''version'' (zstring (\<lambda>s. s = ''1''))))
       (zfield kvs ''scheme'' (zstring (\<lambda>s. s = ''exact''))))
       (zfield kvs ''network'' (zstring (\<lambda>s. 1 \<le> length s))))
       (zfield kvs ''asset'' (zstring (\<lambda>s. 1 \<le> length s))))
       (zfield kvs ''invoiceId'' (zstring (\<lambda>s. 1 \<le> length s \<and> length s \<le> 255))))
       (zfield kvs ''requiredAmount'' (zstring decimal)))
       (zfield kvs ''recipient'' (zstring (hex0x 40))))
       (zfield kvs ''payload'' VerifyPayloadSchema))"

text \<open>\<open>path.join('.')\<close>.\<close>

fun join_dots :: "string list \<Rightarrow> string" where
  "join_dots [] = ''''"
| "join_dots [s] = s"
| "join_dots (s # t # ts) = s @ ''.'' @ join_dots (t # ts)"

definition parseVerifyRequest :: "json \<Rightarrow> string list + verify_request" where
  "parseVerifyRequest raw =
     (case VerifyRequestSchema (Some raw) of
        Inl issues \<Rightarrow> Inl (map join_dots issues)
      | Inr data \<Rightarrow> Inr data)"

section \<open>The schemas of the first protocol version\<close>

text \<open>
  \<open>verifyPayloadSchema\<close> of \<open>x402-schemas.ts\<close>: the address transformation lower-cases.
  \<open>z.string().datetime()\<close> is the parameter \<open>isDatetime\<close>.
\<close>

record v1_payload =
  v1_chainId :: int
  v1_asset :: string
  v1_amount :: string
  v1_seller :: string
  v1_buyer :: string
  v1_invoiceId :: string
  v1_expiresAt :: string
  v1_nonce :: string
  v1_signature :: string

definition zmap :: "('a \<Rightarrow> 'b) \<Rightarrow> issues + 'a \<Rightarrow> issues + 'b" where
  "zmap f r = (case r of Inl i \<Rightarrow> Inl i | Inr x \<Rightarrow> Inr (f x))"

lemma zmap_Inr [simp]: "zmap f r = Inr y \<longleftrightarrow> (\<exists>x. r = Inr x \<and> y = f x)"
  by (auto simp: zmap_def split: sum.splits)

definition ethereumAddress :: "json option \<Rightarrow> issues + string" where
  "ethereumAddress v = zmap toLowerCase (zstring (hex0x 40) v)"

definition hexSignature :: "string \<Rightarrow> bool" where
  "hexSignature s = (take 2 s = ''0x'' \<and> drop 2 s \<noteq> [] \<and> list_all is_hex (drop 2 s))"

definition verifyPayloadSchema :: "(string \<Rightarrow> bool) \<Rightarrow> json option \<Rightarrow> issues + v1_payload" where
  "verifyPayloadSchema isDatetime = zobject (\<lambda>kvs.
     zand (zand (zand (zand (zand (zand (zand (zand (zand (zand (zand (Inr
       (\<lambda>_ chain asset amount seller buyer invoice expires nonce sig _.
          v1_payload.make chain asset amount seller buyer invoice expires nonce sig))
       (zfield kvs ''version'' (zstring (\<lambda>s. s = ''x402/v1''))))
       (zfield kvs ''network'' (zobject (\<lambda>o'. zfield o' ''chainId'' (znumber (\<lambda>n. 0 < n))))))
       (zfield kvs ''asset'' (zobject (\<lambda>o'. zfield o' ''address'' ethereumAddress))))
       (zfield kvs ''amount'' (zstring decimal)))
       (zfield kvs ''seller'' ethereumAddress))
       (zfield kvs ''buyer'' ethereumAddress))
       (zfield kvs ''invoiceId'' (zstring (\<lambda>s. 1 \<le> length s \<and> length s \<le> 255))))
       (zfield kvs ''expiresAt'' (zstring isDatetime)))
       (zfield kvs ''nonce'' (zstring (\<lambda>s. 1 \<le> length s \<and> length s \<le> 255))))
       (zfield kvs ''signature'' (zstring hexSignature)))
       (zfield kvs ''scheme'' (zstring (\<lambda>s. s = ''erc20-transfer''))))"

record settle_payload =
  sp_requestId :: string
  sp_referralCode :: "string option"

definition settlePayloadSchema :: "json option \<Rightarrow> issues + settle_payload" where
  "settlePayloadSchema = zobject (\<lambda>kvs.
     zand (zand (Inr settle_payload.make)
       (zfield kvs ''requestId'' (zstring (\<lambda>s. 1 \<le> length s))))
       (zfield kvs ''referralCode'' (zoptional (zstring (\<lambda>s. length s \<le> 64)))))"

section \<open>What the parser guarantees\<close>

definition wf_authorization :: "authorization \<Rightarrow> bool" where
  "wf_authorization a \<longleftrightarrow>
     hex0x 40 (au_from a) \<and> hex0x 40 (au_to a) \<and> decimal (au_value a) \<and>
     0 \<le> au_validAfter a \<and> 0 < au_validBefore a \<and> hex0x 64 (au_nonce a)"

definition wf_request :: "verify_request \<Rightarrow> bool" where
  "wf_request r \<longleftrightarrow>
     vr_version r = ''1'' \<and> vr_scheme r = ''exact'' \<and> vr_network r \<noteq> [] \<and> vr_asset r \<noteq> [] \<and>
     vr_invoiceId r \<noteq> [] \<and> length (vr_invoiceId r) \<le> 255 \<and> decimal (vr_requiredAmount r) \<and>
     hex0x 40 (vr_recipient r) \<and> hex0x 130 (vp_signature (vr_payload r)) \<and>
     wf_authorization (vp_authorization (vr_payload r))"

definition encode_authorization :: "authorization \<Rightarrow> json" where
  "encode_authorization a = JObj
     [(''from'', JStr (au_from a)), (''to'', JStr (au_to a)), (''value'', JStr (au_value a)),
      (''validAfter'', JNum (au_validAfter a)), (''validBefore'', JNum (au_validBefore a)),
      (''nonce'', JStr (au_nonce a))]"

definition encode_request :: "verify_request \<Rightarrow> json" where
  "encode_request r = JObj
     [(''version'', JStr (vr_version r)), (''scheme'', JStr (vr_scheme r)),
      (''network'', JStr (vr_network r)), (''asset'', JStr (vr_asset r)),
      (''invoiceId'', JStr (vr_invoiceId r)), (''requiredAmount'', JStr (vr_requiredAmount r)),
      (''recipient'', JStr (vr_recipient r)),
      (''payload'', JObj [(''signature'', JStr (vp_signature (vr_payload r))),
        (''authorization'', encode_authorization (vp_authorization (vr_payload r)))])]"

lemma AuthorizationSchema_wf:
  "AuthorizationSchema v = Inr a \<Longrightarrow> wf_authorization a"
  by (auto simp: AuthorizationSchema_def wf_authorization_def authorization.defs)

lemma VerifyRequestSchema_wf:
  "VerifyRequestSchema v = Inr r \<Longrightarrow> wf_request r"
  by (auto simp: VerifyRequestSchema_def VerifyPayloadSchema_def wf_request_def
        verify_request.defs verify_payload.defs intro: AuthorizationSchema_wf)

lemma AuthorizationSchema_encode:
  "AuthorizationSchema (Some (encode_authorization a)) = Inr a \<longleftrightarrow> wf_authorization a"
  by (cases a) (auto simp: AuthorizationSchema_def encode_authorization_def wf_authorization_def
        authorization.defs)

lemma VerifyRequestSchema_encode:
  "VerifyRequestSchema (Some (encode_request r)) = Inr r \<longleftrightarrow> wf_request r"
  by (cases r; cases "vr_payload r")
     (auto simp: VerifyRequestSchema_def VerifyPayloadSchema_def encode_request_def wf_request_def
        verify_request.defs verify_payload.defs AuthorizationSchema_encode)

lemma parse_encode_roundtrip_aux: "wf_request r \<Longrightarrow> parseVerifyRequest (encode_request r) = Inr r"
  by (auto simp: parseVerifyRequest_def VerifyRequestSchema_encode [symmetric] split: sum.splits)

text \<open>The parser accepts well-formed requests only: what \<open>parseVerifyRequest\<close> returns
  has 20-byte addresses, a 32-byte nonce, a 65-byte signature, decimal amounts and the
  supported version and scheme.\<close>

theorem parse_sound:
  assumes "parseVerifyRequest raw = Inr r"
  shows "wf_request r"
  using assms by (auto simp: parseVerifyRequest_def split: sum.splits intro: VerifyRequestSchema_wf)

text \<open>Parsing the JSON form of a request gives the request back exactly when the
  request is well formed; nothing well formed is refused.\<close>

theorem parse_encode_roundtrip:
  "parseVerifyRequest (encode_request r) = Inr r \<longleftrightarrow> wf_request r"
  by (auto simp: parseVerifyRequest_def VerifyRequestSchema_encode [symmetric] split: sum.splits)

definition sample_request :: verify_request where
  "sample_request =
     \<lparr>vr_version = ''1'', vr_scheme = ''exact'', vr_network = ''base-mainnet'', vr_asset = ''usdc'',
      vr_invoiceId = ''inv-1'', vr_requiredAmount = ''1000'',
      vr_recipient = ''0x'' @ replicate 40 (CHR ''b''),
      vr_payload = \<lparr>vp_signature = ''0x'' @ replicate 130 (CHR ''c''),
        vp_authorization = \<lparr>au_from = ''0x'' @ replicate 40 (CHR ''a''),
          au_to = ''0x'' @ replicate 40 (CHR ''B''), au_value = ''1500'',
          au_validAfter = 0, au_validBefore = 2000, au_nonce = ''0x'' @ replicate 64 (CHR ''d'')\<rparr>\<rparr>\<rparr>"

lemma sample_request_wf: "wf_request sample_request"
  by code_simp

lemma parse_sample: "parseVerifyRequest (encode_request sample_request) = Inr sample_request"
  using sample_request_wf
  by (auto simp: parseVerifyRequest_def VerifyRequestSchema_encode [symmetric] split: sum.splits)

theorem parse_sound_witness:
  "parseVerifyRequest (encode_request sample_request) = Inr sample_request \<and> wf_request sample_request"
  using parse_sound [OF parse_sample] parse_sample by simp

end
