(* ===== verification/NetworkRegistry.thy ===== *)
theory NetworkRegistry
  imports X402Parser "HOL-Library.AList"
begin

text \<open>
  \<open>src/infrastructure/network-registry.ts\<close>: the in-memory registry of the supported
  networks, and \<open>src/crypto/signature-verifier.ts\<close>, which builds the EIP-712 typed data.
  A JavaScript \<open>Map\<close> is an association list in insertion order: setting a key that is
  present keeps its position, as \<open>AList.update\<close> does. \<open>process.env\<close> is the argument
  \<open>env\<close>.
\<close>

section \<open>Configuration\<close>

record asset_config =
  as_symbol :: string
  as_address :: string
  as_decimals :: int
  as_name :: string
  as_eip712Version :: "string option"

record network_config =
  nc_chainId :: int
  nc_name :: string
  nc_rpcUrl :: string
  nc_fallbackRpcUrl :: "string option"
  nc_assets :: "asset_config list"
  nc_enabled :: bool

definition USDC :: "string \<Rightarrow> asset_config" where
  "USDC addr = \<lparr>as_symbol = ''USDC'', as_address = addr, as_decimals = 6, as_name = ''USD Coin'',
     as_eip712Version = Some ''2''\<rparr>"

definition EURC :: "string \<Rightarrow> asset_config" where
  "EURC addr = \<lparr>as_symbol = ''EURC'', as_address = addr, as_decimals = 6, as_name = ''Euro Coin'',
     as_eip712Version = Some ''2''\<rparr>"

definition env_or :: "(string \<Rightarrow> string option) \<Rightarrow> string \<Rightarrow> string \<Rightarrow> string" where
  "env_or env k d = (case env k of Some v \<Rightarrow> v | None \<Rightarrow> d)"

definition DEFAULT_NETWORKS :: "(string \<Rightarrow> string option) \<Rightarrow> network_config list" where
  "DEFAULT_NETWORKS env =
     [\<lparr>nc_chainId = 8453, nc_name = ''base-mainnet'',
       nc_rpcUrl = env_or env ''RPC_URL_BASE'' ''https://mainnet.base.org'',
       nc_fallbackRpcUrl = env ''RPC_URL_BASE_FALLBACK'',
       nc_assets = [USDC ''0x833589fCD6eDb6E08f4c7C32D4f71b54bdA02913'',
                    EURC ''0x60a3E35Cc302bFA44Cb288Bc5a4F316Fdb1adb42''],
       nc_enabled = True\<rparr>,
      \<lparr>nc_chainId = 10, nc_name = ''optimism-mainnet'',
       nc_rpcUrl = env_or env ''RPC_URL_OPTIMISM'' ''https://mainnet.optimism.io'',
       nc_fallbackRpcUrl = env ''RPC_URL_OPTIMISM_FALLBACK'',
       nc_assets = [USDC ''0x0b2C639c533813f4Aa9D7837CAf62653d097Ff85'',
                    EURC ''0x82a4928dC8a761FBE08B0Bfc7e41F6E2f7E5B8d1''],
       nc_enabled = (env ''ENABLE_OPTIMISM'' = Some ''true'')\<rparr>,
      \<lparr>nc_chainId = 42161, nc_name = ''arbitrum-one'',
       nc_rpcUrl = env_or env ''RPC_URL_ARBITRUM'' ''https://arb1.arbitrum.io/rpc'',
       nc_fallbackRpcUrl = env ''RPC_URL_ARBITRUM_FALLBACK'',
       nc_assets = [USDC ''0xaf88d065e77c8cC2239327C5EDb3A432268e5831''],
       nc_enabled = (env ''ENABLE_ARBITRUM'' = Some ''true'')\<rparr>]"

section \<open>The registry\<close>

type_synonym registry = "(int \<times> network_config) list"

definition load_step :: "network_config \<Rightarrow> registry \<Rightarrow> registry" where
  "load_step net m = (if nc_enabled net then AList.update (nc_chainId net) net m else m)"

definition registry_load :: "network_config list \<Rightarrow> registry" where
  "registry_load configs = fold load_step configs []"

definition registry_reload :: "(string \<Rightarrow> string option) \<Rightarrow> network_config list option \<Rightarrow> registry" where
  "registry_reload env configs =
     registry_load (case configs of Some c \<Rightarrow> c | None \<Rightarrow> DEFAULT_NETWORKS env)"

definition getNetwork :: "registry \<Rightarrow> int \<Rightarrow> network_config option" where
  "getNetwork m chainId = map_of m chainId"

definition getNetworkByName :: "registry \<Rightarrow> string \<Rightarrow> network_config option" where
  "getNetworkByName m name = List.find (\<lambda>n. nc_name n = name) (map snd m)"

definition getAsset :: "registry \<Rightarrow> int \<Rightarrow> string \<Rightarrow> asset_config option" where
  "getAsset m chainId symbol =
     (case map_of m chainId of
        None \<Rightarrow> None
      | Some n \<Rightarrow> List.find (\<lambda>a. toUpperCase (as_symbol a) = toUpperCase symbol) (nc_assets n))"

definition getAllNetworks :: "registry \<Rightarrow> network_config list" where
  "getAllNetworks m = map snd m"

definition isSupported :: "registry \<Rightarrow> int \<Rightarrow> string \<Rightarrow> bool" where
  "isSupported m chainId symbol = (getAsset m chainId symbol \<noteq> None)"

text \<open>\<open>feeBps\<close> is \<open>Number(process.env.PLATFORM_FEE_BPS ?? 50)\<close>.\<close>

definition toSupportedPayload :: "int \<Rightarrow> registry \<Rightarrow> json" where
  "toSupportedPayload feeBps m = JObj
     [(''x402Versions'', JArr [JStr ''1'']),
      (''networks'', JArr (map (\<lambda>n. JObj
         [(''name'', JStr (nc_name n)), (''chainId'', JNum (nc_chainId n)),
          (''assets'', JArr (map (\<lambda>a. JStr (as_symbol a)) (nc_assets n)))]) (getAllNetworks m))),
      (''schemes'', JArr [JStr ''exact'']),
      (''extensions'', JArr []),
      (''settlementOptions'', JObj
         [(''feeModel'', JStr ''basis_points''), (''feeBps'', JNum feeBps),
          (''referralCodeSupported'', JBool True)])]"

section \<open>Typed data\<close>

record eip712_domain =
  dm_name :: string
  dm_version :: string
  dm_chainId :: int
  dm_verifyingContract :: string

record transfer_message =
  tm_from :: string
  tm_to :: string
  tm_value :: int
  tm_validAfter :: int
  tm_validBefore :: int
  tm_nonce :: string

text \<open>
  viem's \<open>recoverTypedDataAddress\<close>, for the type \<open>TransferWithAuthorization\<close>, is the
  parameter \<open>recover\<close>; it throws on a signature it cannot decode.
\<close>

type_synonym recover_fn = "eip712_domain \<Rightarrow> transfer_message \<Rightarrow> string \<Rightarrow> exn + string"

definition verifyErc3009Signature ::
  "recover_fn \<Rightarrow> authorization \<Rightarrow> string \<Rightarrow> string \<Rightarrow> int \<Rightarrow> string \<Rightarrow> exn + string" where
  "verifyErc3009Signature recover auth signature contractAddress chainId eip712Version =
     recover
       \<lparr>dm_name = ''USD Coin'', dm_version = eip712Version, dm_chainId = chainId,
        dm_verifyingContract = contractAddress\<rparr>
       \<lparr>tm_from = au_from auth, tm_to = au_to auth, tm_value = bigint_of (au_value auth),
        tm_validAfter = au_validAfter auth, tm_validBefore = au_validBefore auth,
        tm_nonce = au_nonce auth\<rparr>
       signature"

definition computeSignatureHash :: "string \<Rightarrow> string" where
  "computeSignatureHash signature = toLowerCase signature"

section \<open>Lemmas\<close>

lemma load_step_map:
  "map_of (load_step net m) i = (if nc_enabled net \<and> i = nc_chainId net then Some net else map_of m i)"
  by (simp add: load_step_def update_conv)

lemma load_fold_map:
  "map_of (fold load_step cfgs m) i =
     (case List.find (\<lambda>n. nc_enabled n \<and> nc_chainId n = i) (rev cfgs) of
        Some n \<Rightarrow> Some n | None \<Rightarrow> map_of m i)"
proof (induction cfgs rule: rev_induct)
  case Nil
  then show ?case by simp
next
  case (snoc c cs)
  then show ?case by (auto simp: load_step_map)
qed

lemma load_distinct: "distinct (map fst (registry_load cfgs))"
proof -
  have "distinct (map fst m) \<Longrightarrow> distinct (map fst (fold load_step cfgs m))" for m
    by (induction cfgs arbitrary: m) (auto simp: load_step_def distinct_update)
  then show ?thesis by (simp add: registry_load_def)
qed

lemma getNetwork_load:
  "getNetwork (registry_load cfgs) i = List.find (\<lambda>n. nc_enabled n \<and> nc_chainId n = i) (rev cfgs)"
  by (simp add: getNetwork_def registry_load_def load_fold_map split: option.split)

lemma find_iff_ex: "List.find P xs \<noteq> None \<longleftrightarrow> (\<exists>x\<in>set xs. P x)"
  by (auto simp: find_None_iff)

lemma find_SomeD: "List.find P xs = Some x \<Longrightarrow> x \<in> set xs \<and> P x"
  by (induction xs) (auto split: if_splits)

lemma load_entry:
  assumes "(i, n) \<in> set (registry_load cfgs)"
  shows "n \<in> set cfgs" and "nc_enabled n" and "nc_chainId n = i"
proof -
  have "map_of (registry_load cfgs) i = Some n"
    using assms load_distinct by (metis map_of_is_SomeI)
  then have "List.find (\<lambda>n. nc_enabled n \<and> nc_chainId n = i) (rev cfgs) = Some n"
    using getNetwork_load by (simp add: getNetwork_def)
  then show "n \<in> set cfgs" and "nc_enabled n" and "nc_chainId n = i"
    by (auto dest: find_SomeD)
qed

lemma getNetworkByName_SomeD:
  "getNetworkByName m name = Some n \<Longrightarrow> n \<in> set (getAllNetworks m) \<and> nc_name n = name"
  by (auto simp: getNetworkByName_def getAllNetworks_def dest: find_SomeD)

text \<open>Loading a configuration keeps, for each chain id, exactly the last enabled entry;
  every network the registry lists or finds by name is an enabled entry of the
  configuration.\<close>

theorem registry_load_spec:
  "getNetwork (registry_load cfgs) i =
     List.find (\<lambda>n. nc_enabled n \<and> nc_chainId n = i) (rev cfgs) \<and>
   set (getAllNetworks (registry_load cfgs)) \<subseteq> {n \<in> set cfgs. nc_enabled n} \<and>
   (getNetworkByName (registry_load cfgs) name \<noteq> None \<longleftrightarrow>
      (\<exists>n. n \<in> set (getAllNetworks (registry_load cfgs)) \<and> nc_name n = name))"
  by (auto simp: getNetwork_load getAllNetworks_def getNetworkByName_def find_None_iff
        dest: load_entry)

text \<open>With the default configuration Base is always supported, Optimism and Arbitrum
  exactly when their environment variable is \<open>true\<close>, and EURC on Base and Optimism only;
  asset symbols are compared without regard to case.\<close>

theorem default_support:
  "isSupported (registry_reload env None) c sy \<longleftrightarrow>
     toUpperCase sy = ''USDC'' \<and>
       (c = 8453 \<or> c = 10 \<and> env ''ENABLE_OPTIMISM'' = Some ''true'' \<or>
        c = 42161 \<and> env ''ENABLE_ARBITRUM'' = Some ''true'') \<or>
     toUpperCase sy = ''EURC'' \<and>
       (c = 8453 \<or> c = 10 \<and> env ''ENABLE_OPTIMISM'' = Some ''true'')"
proof -
  have up: "toUpperCase ''USDC'' = ''USDC''" "toUpperCase ''EURC'' = ''EURC''"
    by code_simp+
  show ?thesis
    unfolding isSupported_def getAsset_def registry_reload_def option.case
      getNetwork_load [unfolded getNetwork_def] DEFAULT_NETWORKS_def USDC_def EURC_def
    by (auto simp: up)
qed

text \<open>A network used in examples.\<close>

definition base_config :: network_config where
  "base_config = hd (DEFAULT_NETWORKS Map.empty)"

definition usdc_on_base :: asset_config where
  "usdc_on_base = hd (nc_assets base_config)"

end
