(* ===== verification/Verify.thy ===== *)
theory Verify
  imports ClaimRace NetworkRegistry
begin

text \<open>
  \<open>src/application/verify.service.ts\<close>: the whole \<open>/verify\<close> pipeline. The parser it imports
  (\<open>parseX402Payload\<close>) and the signature check (\<open>verifyTransferAuthorization\<close>) are exported
  by no file of src/, so they are parameters, with the Redis client, the three Prisma
  delegates, SHA-256 and the registry. The two readings of the clock and the \<open>ulid()\<close> are
  arguments.
\<close>

section \<open>The service\<close>

record sig_result =
  sr_valid :: bool
  sr_error :: "string option"

record verify_env =
  ve_redis :: redis_api
  ve_network :: "network_row delegate"
  ve_request :: "payment_request delegate"
  ve_verification :: "payment_verification delegate"
  ve_parse :: "json \<Rightarrow> string + verify_request"
  ve_verifySig :: "authorization \<Rightarrow> string \<Rightarrow> asset_config \<Rightarrow> network_config \<Rightarrow> exn + sig_result"
  ve_sha256 :: "string \<Rightarrow> string"
  ve_registry :: registry

record accepted_payment =
  ac_requestId :: string
  ac_verificationId :: string
  ac_paymentRequestId :: string
  ac_network :: string
  ac_asset :: string
  ac_amount :: string
  ac_from :: string
  ac_to :: string
  ac_invoiceId :: string
  ac_expiresAt :: string
  ac_verifiedAt :: string

record rejected_payment =
  rj_requestId :: string
  rj_code :: string
  rj_message :: string
  rj_httpStatus :: nat
  rj_rejectedAt :: string

datatype verify_response = Accepted accepted_payment | Rejected rejected_payment

definition reject :: "int \<Rightarrow> string \<Rightarrow> string \<Rightarrow> string \<Rightarrow> nat \<Rightarrow> ('w, exn, verify_response) prog" where
  "reject clock requestId code message httpStatus =
     seq (iso clock) (\<lambda>t. ret (Rejected
       \<lparr>rj_requestId = requestId, rj_code = code, rj_message = message,
        rj_httpStatus = httpStatus, rj_rejectedAt = t\<rparr>))"

text \<open>\<open>createdAt\<close> is the column default \<open>now()\<close>.\<close>

definition persistVerification ::
  "verify_env \<Rightarrow> string \<Rightarrow> verify_request \<Rightarrow> network_config \<Rightarrow> verification_status \<Rightarrow> string option \<Rightarrow>
   string option \<Rightarrow> string \<Rightarrow> string \<Rightarrow> string \<Rightarrow> int \<Rightarrow> (world, exn, string \<times> string) prog" where
  "persistVerification E requestId body network status errorCode reason signatureHash nonce uid clock =
     (let auth = vp_authorization (vr_payload body) in
      seq (on_networks (db_find (ve_network E) (\<lambda>n. nw_chainId n = nc_chainId network)))
        (\<lambda>networkRecord. case networkRecord of
           None \<Rightarrow> throw (plainError (''Network record not found in DB for chainId '' @
                int_str (nc_chainId network) @ '' ('' @ nc_name network @ ''). '' @
                ''Ensure the seed script has been run or the network was provisioned correctly.''))
         | Some nr \<Rightarrow>
             seq (on_requests (db_upsert (ve_request E) (\<lambda>r. pr_id r = requestId)
                   \<lparr>pr_id = requestId, pr_sellerId = None, pr_buyerAddress = au_from auth,
                    pr_networkId = nw_id nr, pr_asset = vr_asset body, pr_amount = au_value auth,
                    pr_invoiceId = vr_invoiceId body, pr_scheme = vr_scheme body,
                    pr_expiresAt = au_validBefore auth * 1000, pr_createdAt = clock\<rparr> id))
               (\<lambda>paymentRequest.
                  seq (on_verifications (db_create (ve_verification E)
                        \<lparr>pv_id = uid, pv_requestId = pr_id paymentRequest, pv_status = status,
                         pv_errorCode = errorCode, pv_reason = reason,
                         pv_signatureHash = Some signatureHash, pv_nonce = Some nonce,
                         pv_payloadHash = Some signatureHash, pv_createdAt = clock\<rparr>))
                    (\<lambda>_. ret (pr_id paymentRequest, uid)))))"

text \<open>Steps 8 to 10: the claims are held and PostgreSQL knows neither nonce nor signature.\<close>

definition verify_signed ::
  "verify_env \<Rightarrow> string \<Rightarrow> verify_request \<Rightarrow> network_config \<Rightarrow> asset_config \<Rightarrow> int \<Rightarrow> string \<Rightarrow>
   (world, exn, verify_response) prog" where
  "verify_signed E requestId body network asset clock uid =
     (let auth = vp_authorization (vr_payload body);
          signature = vp_signature (vr_payload body);
          signatureHash = hashSignature (ve_sha256 E) signature;
          nonce = au_nonce auth;
          release = on_keys (releaseNonceRedis (ve_redis E) nonce signatureHash) in
      seq (of_sum (ve_verifySig E auth signature asset network))
        (\<lambda>sigResult.
           if \<not> sr_valid sigResult then
             seq release (\<lambda>_.
             seq (persistVerification E requestId body network VRejected (Some ''invalid_signature'')
                    (sr_error sigResult) signatureHash nonce uid clock) (\<lambda>_.
             reject clock requestId ''invalid_signature''
               (case sr_error sigResult of Some e \<Rightarrow> e | None \<Rightarrow> ''Signature verification failed'') 402))
           else
             seq (try_catch
                    (seq (persistVerification E requestId body network VAccepted None None
                            signatureHash nonce uid clock) (\<lambda>ids. ret (Some ids)))
                    (\<lambda>persistErr. seq release (\<lambda>_. ret None)))
               (\<lambda>ids. case ids of
                  None \<Rightarrow> reject clock requestId ''internal_error''
                            ''Failed to persist verification. Please retry.'' 500
                | Some (paymentRequestId, verificationId) \<Rightarrow>
                    seq (iso (au_validBefore auth * 1000)) (\<lambda>expires.
                    seq (iso clock) (\<lambda>verified.
                    ret (Accepted
                      \<lparr>ac_requestId = requestId, ac_verificationId = verificationId,
                       ac_paymentRequestId = paymentRequestId, ac_network = vr_network body,
                       ac_asset = vr_asset body, ac_amount = au_value auth, ac_from = au_from auth,
                       ac_to = au_to auth, ac_invoiceId = vr_invoiceId body, ac_expiresAt = expires,
                       ac_verifiedAt = verified\<rparr>))))))"

text \<open>Steps 6 and 7: the atomic claim and the PostgreSQL fallback.\<close>

definition verify_claim ::
  "verify_env \<Rightarrow> string \<Rightarrow> verify_request \<Rightarrow> network_config \<Rightarrow> asset_config \<Rightarrow> int \<Rightarrow> string \<Rightarrow>
   (world, exn, verify_response) prog" where
  "verify_claim E requestId body network asset clock uid =
     (let signatureHash = hashSignature (ve_sha256 E) (vp_signature (vr_payload body));
          nonce = au_nonce (vp_authorization (vr_payload body)) in
      seq (on_keys (claimNonceRedis (ve_redis E) nonce signatureHash)) (\<lambda>claim.
        case claim of
          Some why \<Rightarrow> reject clock requestId ''duplicate_payment''
                        (''Payment already used ('' @ reason_str why @ '')'') 409
        | None \<Rightarrow>
            seq (on_verifications (checkReplayPostgres (ve_verification E) nonce signatureHash))
              (\<lambda>pgReplay. case pgReplay of
                 Some why \<Rightarrow>
                   seq (on_keys (releaseNonceRedis (ve_redis E) nonce signatureHash)) (\<lambda>_.
                   reject clock requestId ''duplicate_payment''
                     (''Payment already used ('' @ reason_str why @ '')'') 409)
               | None \<Rightarrow> verify_signed E requestId body network asset clock uid)))"

text \<open>\<open>now\<close> is the reading of the clock for the validity window, \<open>clock\<close> a later one.\<close>

definition runVerify ::
  "verify_env \<Rightarrow> json \<Rightarrow> string \<Rightarrow> int \<Rightarrow> int \<Rightarrow> string \<Rightarrow> (world, exn, verify_response) prog" where
  "runVerify E raw requestId now clock uid =
     (case ve_parse E raw of
        Inl msg \<Rightarrow> reject clock requestId ''invalid_payload'' msg 400
      | Inr body \<Rightarrow>
     (case getNetworkByName (ve_registry E) (vr_network body) of
        None \<Rightarrow> reject clock requestId ''unsupported_network''
                  (''Network '' @ quoted (vr_network body) @ '' is not supported'') 402
      | Some network \<Rightarrow>
     (case List.find (\<lambda>a. as_symbol a = toUpperCase (vr_asset body)) (nc_assets network) of
        None \<Rightarrow> reject clock requestId ''unsupported_asset''
                  (''Asset '' @ quoted (vr_asset body) @ '' is not supported on '' @ vr_network body) 402
      | Some asset \<Rightarrow>
          (let auth = vp_authorization (vr_payload body); nowSec = now div 1000 in
           if au_validBefore auth \<le> nowSec then
             seq (iso (au_validBefore auth * 1000)) (\<lambda>t.
             reject clock requestId ''expired_payment'' (''Payment expired at '' @ t) 402)
           else if au_validAfter auth > nowSec then
             reject clock requestId ''invalid_payload''
               (''Payment not valid yet (validAfter: '' @ int_str (au_validAfter auth) @ '')'') 402
           else if toLowerCase (au_to auth) \<noteq> toLowerCase (vr_recipient body) then
             reject clock requestId ''invalid_payload''
               (''Recipient mismatch: expected '' @ vr_recipient body @ '', got '' @ au_to auth) 402
           else if bigint_of (au_value auth) < bigint_of (vr_requiredAmount body) then
             reject clock requestId ''invalid_payload''
               (''Insufficient amount: got '' @ au_value auth @ '', required '' @
                vr_requiredAmount body) 402
           else verify_claim E requestId body network asset clock uid))))"

section \<open>Lemmas\<close>

lemma reject_run:
  "reject clock rid code msg st w = (r, w') \<longleftrightarrow>
     w' = w \<and> (case toISOString clock of
        None \<Rightarrow> r = Inl RangeError
      | Some t \<Rightarrow> r = Inr (Rejected \<lparr>rj_requestId = rid, rj_code = code, rj_message = msg,
                    rj_httpStatus = st, rj_rejectedAt = t\<rparr>))"
  by (cases r) (auto simp: reject_def run_simps split: option.splits)

lemma reject_not_accepted [simp]: "reject clock rid code msg st w \<noteq> (Inr (Accepted a), w')"
  by (simp add: reject_run split: option.splits)

definition verification_row ::
  "string \<Rightarrow> string \<Rightarrow> verification_status \<Rightarrow> string option \<Rightarrow> string option \<Rightarrow> string \<Rightarrow> string \<Rightarrow> int \<Rightarrow>
   payment_verification" where
  "verification_row uid requestId status errorCode reason signatureHash nonce clock =
     \<lparr>pv_id = uid, pv_requestId = requestId, pv_status = status,
      pv_errorCode = errorCode, pv_reason = reason, pv_signatureHash = Some signatureHash,
      pv_nonce = Some nonce, pv_payloadHash = Some signatureHash, pv_createdAt = clock\<rparr>"

definition body_nonce :: "verify_request \<Rightarrow> string" where
  "body_nonce body = au_nonce (vp_authorization (vr_payload body))"

definition body_hash :: "verify_env \<Rightarrow> verify_request \<Rightarrow> string" where
  "body_hash E body = hashSignature (ve_sha256 E) (vp_signature (vr_payload body))"

locale verify_service =
  redis_store "ve_redis E" + N: prisma_table "ve_network E" network_clash +
  Q: prisma_table "ve_request E" request_clash +
  V: prisma_table "ve_verification E" verification_clash for E :: verify_env
begin

lemma persist_ok:
  assumes "persistVerification E rid body nw st ec rs h n uid clock w = (Inr ids, w')"
  shows "keys w' = keys w \<and> ids = (rid, uid) \<and>
    verifications w' = verifications w @ [verification_row uid rid st ec rs h n clock] \<and>
    (\<forall>v\<in>set (verifications w). pv_nonce v \<noteq> Some n \<and> pv_signatureHash v \<noteq> Some h)"
  using assms unfolding persistVerification_def verification_row_def Let_def
  by (auto simp: run_simps verification_clash_def
      elim!: Q.upsert_keep_cases V.create_cases dest!: N.find_Some)

lemma persist_err:
  assumes "persistVerification E rid body nw st ec rs h n uid clock w = (Inl e, w')"
  shows "keys w' = keys w \<and> verifications w' = verifications w"
  using assms unfolding persistVerification_def Let_def
  by (auto simp: run_simps elim!: Q.upsert_keep_cases V.create_cases dest: N.find_same)

lemma signed_accepted:
  assumes "verify_signed E rid body nw asset clock uid w = (Inr (Accepted a), w')"
  shows "\<exists>res. ve_verifySig E (vp_authorization (vr_payload body)) (vp_signature (vr_payload body)) asset nw
           = Inr res \<and> sr_valid res"
    and "keys w' = keys w"
    and "verifications w' = verifications w @
           [verification_row uid rid VAccepted None None (body_hash E body) (body_nonce body) clock]"
    and "ac_verificationId a = uid" and "ac_requestId a = rid"
    and "ac_amount a = au_value (vp_authorization (vr_payload body))"
    and "ac_from a = au_from (vp_authorization (vr_payload body))"
    and "ac_to a = au_to (vp_authorization (vr_payload body))"
  using assms unfolding verify_signed_def Let_def body_hash_def body_nonce_def
  by (auto simp: run_simps dest!: persist_ok)

lemma signed_rejected_keys:
  assumes "verify_signed E rid body nw asset clock uid w = (Inr (Rejected j), w')"
  shows "keys w' = (keys w)(nonce_key (body_nonce body) := None, sig_key (body_hash E body) := None)"
  using assms unfolding verify_signed_def Let_def body_hash_def body_nonce_def
  by (auto simp: run_simps reject_run dest!: persist_ok persist_err release_ok)

lemma claim_accepted:
  assumes "verify_claim E rid body nw asset clock uid w = (Inr (Accepted a), w')"
  shows "keys w (nonce_key (body_nonce body)) = None" and "keys w (sig_key (body_hash E body)) = None"
    and "keys w' = (keys w)(nonce_key (body_nonce body) \<mapsto> 1, sig_key (body_hash E body) \<mapsto> 1)"
    and "\<forall>v\<in>set (verifications w). pv_nonce v \<noteq> Some (body_nonce body) \<and>
           pv_signatureHash v \<noteq> Some (body_hash E body)"
    and "\<exists>w1. verifications w1 = verifications w \<and>
           verify_signed E rid body nw asset clock uid w1 = (Inr (Accepted a), w')"
proof -
  from assms obtain k1 w1 vs where
    c: "claimNonceRedis (ve_redis E) (body_nonce body) (body_hash E body) (keys w) = (Inr None, k1)" and
    p: "checkReplayPostgres (ve_verification E) (body_nonce body) (body_hash E body)
          (verifications w) = (Inr None, vs)" and
    s: "verify_signed E rid body nw asset clock uid (w\<lparr>keys := k1, verifications := vs\<rparr>)
          = (Inr (Accepted a), w')"
    unfolding verify_claim_def Let_def body_hash_def [symmetric] body_nonce_def [symmetric]
    by (auto simp: run_simps)
  note vs = checkReplayPostgres_None [OF V.prisma_table_axioms p]
  show "keys w (nonce_key (body_nonce body)) = None" "keys w (sig_key (body_hash E body)) = None"
    using claim_fresh [OF c] by simp_all
  show "keys w' = (keys w)(nonce_key (body_nonce body) \<mapsto> 1, sig_key (body_hash E body) \<mapsto> 1)"
    using claim_fresh [OF c] signed_accepted(2) [OF s] by simp
  show "\<forall>v\<in>set (verifications w). pv_nonce v \<noteq> Some (body_nonce body) \<and>
           pv_signatureHash v \<noteq> Some (body_hash E body)"
    using vs(2) .
  show "\<exists>w1. verifications w1 = verifications w \<and>
           verify_signed E rid body nw asset clock uid w1 = (Inr (Accepted a), w')"
    using s vs(1) by (auto intro!: exI [of _ "w\<lparr>keys := k1\<rparr>"])
qed

lemma claim_rejected_keys:
  assumes "verify_claim E rid body nw asset clock uid w = (Inr (Rejected j), w')"
  shows "keys w' = keys w \<or>
    rj_code j = ''duplicate_payment'' \<and> keys w (nonce_key (body_nonce body)) \<noteq> None \<and>
    keys w (sig_key (body_hash E body)) = None \<and>
    keys w' = (keys w)(sig_key (body_hash E body) \<mapsto> 1)"
proof -
  let ?n = "body_nonce body" and ?h = "body_hash E body"
  from assms obtain claim k1 where c: "claimNonceRedis (ve_redis E) ?n ?h (keys w) = (Inr claim, k1)"
    unfolding verify_claim_def Let_def body_hash_def [symmetric] body_nonce_def [symmetric]
    by (auto simp: run_simps)
  show ?thesis
  proof (cases claim)
    case None
    note fresh = claim_fresh [OF c [unfolded None]]
    have "keys w' = k1(nonce_key ?n := None, sig_key ?h := None)"
      using assms c None unfolding verify_claim_def Let_def body_hash_def [symmetric] body_nonce_def [symmetric]
      by (auto simp: run_simps reject_run dest!: release_ok signed_rejected_keys)
    also have "\<dots> = keys w" using fresh by auto
    finally show ?thesis ..
  next
    case (Some why)
    have "keys w' = k1 \<and> rj_code j = ''duplicate_payment''"
      using assms c Some unfolding verify_claim_def Let_def body_hash_def [symmetric] body_nonce_def [symmetric]
      by (auto simp: run_simps reject_run split: option.splits)
    moreover have "?thesis" if "why = nonce_used" "keys w' = k1" "rj_code j = ''duplicate_payment''"
      using that claim_nonce_used [OF c [unfolded Some that(1)]] by (auto split: if_splits)
    moreover have "?thesis" if "why = signature_used" "keys w' = k1"
      using that claim_signature_used [OF c [unfolded Some that(1)]] by simp
    ultimately show ?thesis by (cases why) auto
  qed
qed

lemma claim_nonce_held:
  assumes "verify_claim E rid body nw asset clock uid w = (Inr resp, w')"
    and "keys w (nonce_key (body_nonce body)) \<noteq> None"
  shows "keys w' (sig_key (body_hash E body)) \<noteq> None"
proof -
  let ?n = "body_nonce body" and ?h = "body_hash E body"
  from assms(1) obtain claim k1 where c: "claimNonceRedis (ve_redis E) ?n ?h (keys w) = (Inr claim, k1)"
    unfolding verify_claim_def Let_def body_hash_def [symmetric] body_nonce_def [symmetric]
    by (auto simp: run_simps)
  have claim: "claim = Some nonce_used"
    using claim_fresh(1) [of ?n ?h "keys w" k1] claim_signature_used(1) [of ?n ?h "keys w" k1] c assms(2)
    by (metis not_None_eq replay_reason.exhaust)
  then have "keys w' = k1"
    using assms(1) c
    unfolding verify_claim_def Let_def body_hash_def [symmetric] body_nonce_def [symmetric]
    by (auto simp: run_simps reject_run split: option.splits)
  then show ?thesis using claim_nonce_used(2) [OF c [unfolded claim]] by (auto split: if_splits)
qed

lemma signed_invalid:
  assumes "verify_signed E rid body nw asset clock uid w = (Inr (Rejected j), w')"
    and "rj_code j = ''invalid_signature''"
  shows "\<exists>v\<in>set (verifications w'). pv_nonce v = Some (body_nonce body)"
  using assms unfolding verify_signed_def Let_def body_nonce_def
  by (auto simp: run_simps reject_run verification_row_def dest!: persist_ok split: option.splits)

lemma claim_invalid_signature:
  assumes "verify_claim E rid body nw asset clock uid w = (Inr (Rejected j), w')"
    and "rj_code j = ''invalid_signature''"
  shows "\<exists>v\<in>set (verifications w'). pv_nonce v = Some (body_nonce body)"
  using assms unfolding verify_claim_def Let_def
  by (auto simp: run_simps reject_run split: option.splits intro: signed_invalid)

end

text \<open>The conditions of steps 2 to 5.\<close>

definition admissible ::
  "verify_env \<Rightarrow> verify_request \<Rightarrow> int \<Rightarrow> network_config \<Rightarrow> asset_config \<Rightarrow> bool" where
  "admissible E body now nw asset \<longleftrightarrow>
     getNetworkByName (ve_registry E) (vr_network body) = Some nw \<and>
     List.find (\<lambda>a. as_symbol a = toUpperCase (vr_asset body)) (nc_assets nw) = Some asset \<and>
     au_validAfter (vp_authorization (vr_payload body)) \<le> now div 1000 \<and>
     now div 1000 < au_validBefore (vp_authorization (vr_payload body)) \<and>
     toLowerCase (au_to (vp_authorization (vr_payload body))) = toLowerCase (vr_recipient body) \<and>
     bigint_of (vr_requiredAmount body) \<le> bigint_of (au_value (vp_authorization (vr_payload body)))"

text \<open>A request that is not admissible is rejected without any effect.\<close>

lemma run_split:
  assumes "runVerify E raw rid now clock uid w = (Inr resp, w')"
  obtains (Early) j where "resp = Rejected j" "w' = w" "rj_code j \<noteq> ''invalid_signature''"
        | (Claim) body nw asset where "ve_parse E raw = Inr body" "admissible E body now nw asset"
            "verify_claim E rid body nw asset clock uid w = (Inr resp, w')"
  using assms unfolding runVerify_def admissible_def
  by (auto simp: run_simps reject_run not_less not_le Let_def
      split: option.splits sum.splits if_splits)

lemma run_admissible:
  assumes "ve_parse E raw = Inr body" and "admissible E body now nw asset"
  shows "runVerify E raw rid now clock uid = verify_claim E rid body nw asset clock uid"
  using assms unfolding runVerify_def admissible_def by (simp add: Let_def not_le not_less)

lemma row_blocks:
  assumes "verify_service E" and "ve_parse E raw = Inr body" and "v \<in> set (verifications w)"
    and "pv_nonce v = Some (body_nonce body) \<or> pv_signatureHash v = Some (body_hash E body)"
  shows "runVerify E raw rid now clock uid w \<noteq> (Inr (Accepted a), w')"
proof
  assume run: "runVerify E raw rid now clock uid w = (Inr (Accepted a), w')"
  then show False
  proof (cases rule: run_split)
    case (Claim body' nw asset)
    with assms show ?thesis using verify_service.claim_accepted(4) [OF assms(1) Claim(3)] by auto
  qed simp
qed

lemma key_blocks:
  assumes "verify_service E" and "ve_parse E raw = Inr body"
    and "keys w (nonce_key (body_nonce body)) \<noteq> None \<or> keys w (sig_key (body_hash E body)) \<noteq> None"
  shows "runVerify E raw rid now clock uid w \<noteq> (Inr (Accepted a), w')"
proof
  assume run: "runVerify E raw rid now clock uid w = (Inr (Accepted a), w')"
  then show False
  proof (cases rule: run_split)
    case (Claim body' nw asset)
    with assms show ?thesis using verify_service.claim_accepted(1,2) [OF assms(1) Claim(3)] by auto
  qed simp
qed

section \<open>An instance\<close>

text \<open>
  The repository's Redis mock, tables with the schema's constraints, the parser of
  \<open>x402-parser.ts\<close> and a signature check that accepts one signature.
\<close>

definition sample_env :: verify_env where
  "sample_env =
     \<lparr>ve_redis = mock_redis, ve_network = table_of network_clash, ve_request = table_of request_clash,
      ve_verification = table_of verification_clash,
      ve_parse = (\<lambda>raw. case parseVerifyRequest raw of Inl i \<Rightarrow> Inl ''invalid'' | Inr r \<Rightarrow> Inr r),
      ve_verifySig = (\<lambda>auth sg asset nw. Inr \<lparr>sr_valid =
          (toLowerCase sg = ''0x'' @ replicate 130 (CHR ''c'')), sr_error = None\<rparr>),
      ve_sha256 = id, ve_registry = registry_load (DEFAULT_NETWORKS Map.empty)\<rparr>"

lemma sample_env_service: "verify_service sample_env"
  by (simp add: verify_service_def sample_env_def mock_redis_store table_of_prisma)

interpretation sample: verify_service sample_env
  by (rule sample_env_service)

definition sample_world :: world where
  "sample_world = empty_world\<lparr>networks := [base_network]\<rparr>"

fun accepted :: "(exn + verify_response) \<times> world \<Rightarrow> bool" where
  "accepted (Inr (Accepted a), w) = True"
| "accepted _ = False"

lemma accepted_iff: "accepted r \<longleftrightarrow> (\<exists>a w'. r = (Inr (Accepted a), w'))"
  by (cases r rule: accepted.cases) auto

fun rejected_code :: "(exn + verify_response) \<times> world \<Rightarrow> string option" where
  "rejected_code (Inr (Rejected j), w) = Some (rj_code j)"
| "rejected_code _ = None"

lemma rejected_code_iff: "rejected_code r = Some c \<longleftrightarrow> (\<exists>j w'. r = (Inr (Rejected j), w') \<and> rj_code j = c)"
  by (cases r rule: rejected_code.cases) auto

definition sample_raw :: json where
  "sample_raw = encode_request sample_request"

definition bad_signature_request :: verify_request where
  "bad_signature_request = sample_request\<lparr>vr_payload :=
     (vr_payload sample_request)\<lparr>vp_signature := ''0x'' @ replicate 130 (CHR ''9'')\<rparr>\<rparr>"

lemma sample_admissible: "admissible sample_env sample_request 1000000 base_config usdc_on_base"
  by code_simp

lemma sample_parsed: "ve_parse sample_env sample_raw = Inr sample_request"
  by (simp add: sample_env_def sample_raw_def parse_sample)

lemma sample_times:
  "toISOString 1000500 = Some ''1970-01-01T00:16:40.500Z''"
  "toISOString 2000000 = Some ''1970-01-01T00:33:20.000Z''"
  by code_simp+

lemmas sample_run_simps = verify_claim_def verify_signed_def persistVerification_def claimNonceRedis_def
  releaseNonceRedis_def checkReplayPostgres_def reject_def iso_def sample_times zoom_defs zoom_def seq_def both_def
  ret_def throw_def of_sum_def try_catch_def mock_redis_def table_of_def empty_world_def Let_def

lemma lower_sample: "toLowerCase (''0x'' @ replicate k (CHR ''c'')) = ''0x'' @ replicate k (CHR ''c'')"
  "toLowerCase (''0x'' @ replicate k (CHR ''C'')) = ''0x'' @ replicate k (CHR ''c'')"
  "toLowerCase (''0x'' @ replicate k (CHR ''9'')) = ''0x'' @ replicate k (CHR ''9'')"
proof -
  have "char_lower (CHR ''0'') = CHR ''0''" "char_lower (CHR ''x'') = CHR ''x''"
    "char_lower (CHR ''c'') = CHR ''c''" "char_lower (CHR ''C'') = CHR ''c''"
    "char_lower (CHR ''9'') = CHR ''9''"
    by code_simp+
  then show "toLowerCase (''0x'' @ replicate k (CHR ''c'')) = ''0x'' @ replicate k (CHR ''c'')"
    "toLowerCase (''0x'' @ replicate k (CHR ''C'')) = ''0x'' @ replicate k (CHR ''c'')"
    "toLowerCase (''0x'' @ replicate k (CHR ''9'')) = ''0x'' @ replicate k (CHR ''9'')"
    by (simp_all add: toLowerCase_def)
qed

lemmas sample_defs = sample_env_def sample_world_def sample_request_def base_network_def
  base_config_def DEFAULT_NETWORKS_def lower_sample [simplified]

lemma sample_accepted: "accepted (runVerify sample_env sample_raw ''r1'' 1000000 1000500 ''u1'' sample_world)"
  unfolding run_admissible [OF sample_parsed sample_admissible]
  by (simp add: sample_run_simps sample_defs)

lemma bad_signature_admissible:
  "admissible sample_env bad_signature_request 1000000 base_config usdc_on_base"
  by code_simp

definition bad_raw :: json where
  "bad_raw = encode_request bad_signature_request"

lemma bad_parsed: "ve_parse sample_env bad_raw = Inr bad_signature_request"
proof -
  have "wf_request bad_signature_request" by code_simp
  then show ?thesis
    by (simp add: sample_env_def bad_raw_def parse_encode_roundtrip_aux)
qed

lemma bad_rejected:
  "rejected_code (runVerify sample_env bad_raw ''r1'' 1000000 1000500 ''u1'' sample_world)
     = Some ''invalid_signature''"
  unfolding run_admissible [OF bad_parsed bad_signature_admissible]
  by (simp add: sample_run_simps sample_defs bad_signature_request_def)

section \<open>Properties\<close>

text \<open>C1. A payment is accepted only if its body parses, its network and asset are in the
  registry, the clock is inside the validity window, it goes to the recipient, it pays at
  least the required amount, and the signature check passed; then nonce and signature were
  unclaimed in Redis and unknown to PostgreSQL, are claimed afterwards, and exactly one
  accepted verification row carries them.\<close>

theorem verify_accept_sound:
  assumes "verify_service E"
    and "runVerify E raw rid now clock uid w = (Inr (Accepted a), w')"
  shows "\<exists>body nw asset res. ve_parse E raw = Inr body \<and> admissible E body now nw asset \<and>
     ve_verifySig E (vp_authorization (vr_payload body)) (vp_signature (vr_payload body)) asset nw
       = Inr res \<and> sr_valid res \<and>
     keys w (nonce_key (body_nonce body)) = None \<and> keys w (sig_key (body_hash E body)) = None \<and>
     keys w' = (keys w)(nonce_key (body_nonce body) \<mapsto> 1, sig_key (body_hash E body) \<mapsto> 1) \<and>
     (\<forall>v\<in>set (verifications w). pv_nonce v \<noteq> Some (body_nonce body) \<and>
        pv_signatureHash v \<noteq> Some (body_hash E body)) \<and>
     verifications w' = verifications w @
       [verification_row uid rid VAccepted None None (body_hash E body) (body_nonce body) clock] \<and>
     ac_amount a = au_value (vp_authorization (vr_payload body)) \<and>
     ac_to a = au_to (vp_authorization (vr_payload body))"
  using assms(2)
proof (cases rule: run_split)
  case (Claim body nw asset)
  note acc = verify_service.claim_accepted [OF assms(1) Claim(3)]
  from acc(5) obtain w1 where "verifications w1 = verifications w" and
    s: "verify_signed E rid body nw asset clock uid w1 = (Inr (Accepted a), w')" by blast
  with Claim acc(1-4) verify_service.signed_accepted [OF assms(1) s] show ?thesis by auto
qed simp

theorem verify_accept_sound_witness:
  "\<exists>a w' body. runVerify sample_env sample_raw ''r1'' 1000000 1000500 ''u1'' sample_world = (Inr (Accepted a), w') \<and>
     ve_parse sample_env sample_raw = Inr body \<and> keys w' (nonce_key (body_nonce body)) = Some 1"
proof -
  obtain a w' where run:
    "runVerify sample_env sample_raw ''r1'' 1000000 1000500 ''u1'' sample_world = (Inr (Accepted a), w')"
    using sample_accepted by (auto simp: accepted_iff)
  show ?thesis
    using verify_accept_sound [OF sample_env_service run] run by (auto simp del: fun_upd_apply) (auto)
qed

text \<open>C2. No replay: once a payment is accepted, a request with the same nonce or the same
  signature is never accepted again as long as the verification rows stay in PostgreSQL,
  whatever becomes of Redis, the clock, the registry and the rest of the request.\<close>

theorem verify_no_replay:
  assumes "verify_service E" and "verify_service E'" and "ve_sha256 E' = ve_sha256 E"
    and "runVerify E raw rid now clock uid w = (Inr (Accepted a), w1)" and "ve_parse E raw = Inr body"
    and "set (verifications w1) \<subseteq> set (verifications w2)"
    and "ve_parse E' raw' = Inr body'"
    and "body_nonce body' = body_nonce body \<or>
         vp_signature (vr_payload body') = vp_signature (vr_payload body)"
  shows "runVerify E' raw' rid' now' clock' uid' w2 \<noteq> (Inr (Accepted a'), w3)"
proof -
  from assms(4) have "verification_row uid rid VAccepted None None (body_hash E body) (body_nonce body) clock
      \<in> set (verifications w1)"
  proof (cases rule: run_split)
    case (Claim body0 nw asset)
    then obtain w' where "verify_signed E rid body nw asset clock uid w' = (Inr (Accepted a), w1)"
      using verify_service.claim_accepted(5) [OF assms(1)] assms(5) by fastforce
    from verify_service.signed_accepted(3) [OF assms(1) this] show ?thesis by simp
  qed simp
  then have row: "verification_row uid rid VAccepted None None (body_hash E body) (body_nonce body) clock
      \<in> set (verifications w2)" using assms(6) by blast
  have "body_nonce body' = body_nonce body \<or> body_hash E' body' = body_hash E body"
    using assms(3,8) by (auto simp: body_hash_def)
  then show ?thesis
    by (intro row_blocks [OF assms(2,7) row]) (auto simp: verification_row_def)
qed

theorem verify_no_replay_witness:
  "\<exists>a w1. runVerify sample_env sample_raw ''r1'' 1000000 1000500 ''u1'' sample_world = (Inr (Accepted a), w1) \<and>
     \<not> accepted (runVerify sample_env sample_raw ''r2'' 1000000 1000600 ''u2'' (w1\<lparr>keys := Map.empty\<rparr>))"
proof -
  obtain a w1 where run:
    "runVerify sample_env sample_raw ''r1'' 1000000 1000500 ''u1'' sample_world = (Inr (Accepted a), w1)"
    using sample_accepted by (auto simp: accepted_iff)
  show ?thesis
    using verify_no_replay [OF sample_env_service sample_env_service refl run sample_parsed _ sample_parsed,
        of "w1\<lparr>keys := Map.empty\<rparr>"] run
    by (auto simp: accepted_iff)
qed

text \<open>A rejection leaves the Redis claims as they were, so that a legitimate retry is not
  blocked, with one exception: when the nonce was already claimed and the signature was not,
  the rejected request leaves the signature claimed (\<open>claimNonceRedis\<close> returns before it
  deletes the second key it has just set).\<close>

theorem verify_reject_releases:
  assumes "verify_service E"
    and "runVerify E raw rid now clock uid w = (Inr (Rejected j), w')"
  shows "keys w' = keys w \<or>
    (\<exists>body. ve_parse E raw = Inr body \<and> rj_code j = ''duplicate_payment'' \<and>
       keys w (nonce_key (body_nonce body)) \<noteq> None \<and> keys w (sig_key (body_hash E body)) = None \<and>
       keys w' = (keys w)(sig_key (body_hash E body) \<mapsto> 1))"
  using assms(2)
proof (cases rule: run_split)
  case (Claim body nw asset)
  with verify_service.claim_rejected_keys [OF assms(1) Claim(3)] show ?thesis by auto
qed simp

theorem verify_reject_releases_witness:
  "\<exists>j w'. runVerify sample_env bad_raw ''r1'' 1000000 1000500 ''u1'' sample_world = (Inr (Rejected j), w') \<and>
     keys w' = keys sample_world"
proof -
  obtain j w' where run:
    "runVerify sample_env bad_raw ''r1'' 1000000 1000500 ''u1'' sample_world = (Inr (Rejected j), w')"
    using bad_rejected by (auto simp: rejected_code_iff)
  have "keys sample_world (nonce_key n) = None" for n by (simp add: sample_world_def empty_world_def)
  then show ?thesis using verify_reject_releases [OF sample_env_service run] run by auto
qed

text \<open>The exception matters: an admissible request that reuses a claimed nonce, rejected
  as a duplicate, makes its signature unusable. While the claim lasts, no request with that
  signature is accepted, although no payment was ever made with it.\<close>

theorem verify_claim_leak:
  assumes "verify_service E" and "ve_parse E raw = Inr body" and "admissible E body now nw asset"
    and "keys w (nonce_key (body_nonce body)) \<noteq> None"
    and "runVerify E raw rid now clock uid w = (Inr resp, w1)"
    and "keys w2 (sig_key (body_hash E body)) = keys w1 (sig_key (body_hash E body))"
    and "ve_parse E raw' = Inr body'"
    and "vp_signature (vr_payload body') = vp_signature (vr_payload body)"
  shows "runVerify E raw' rid' now' clock' uid' w2 \<noteq> (Inr (Accepted a), w3)"
proof -
  have "verify_claim E rid body nw asset clock uid w = (Inr resp, w1)"
    using assms(5) run_admissible [OF assms(2,3)] by simp
  from verify_service.claim_nonce_held [OF assms(1) this assms(4)]
  have "keys w1 (sig_key (body_hash E body)) \<noteq> None" .
  then show ?thesis
    using assms(6,8) by (intro key_blocks [OF assms(1,7)]) (auto simp: body_hash_def)
qed

theorem verify_claim_leak_witness:
  "\<exists>w1. (\<exists>resp. runVerify sample_env bad_raw ''r1'' 1000000 1000500 ''u1''
       (sample_world\<lparr>keys := [nonce_key (body_nonce sample_request) \<mapsto> 1]\<rparr>) = (Inr resp, w1)) \<and>
     \<not> accepted (runVerify sample_env bad_raw ''r2'' 1000000 1000600 ''u2'' w1)"
proof -
  let ?w = "sample_world\<lparr>keys := [nonce_key (body_nonce sample_request) \<mapsto> 1]\<rparr>"
  have nonce: "body_nonce bad_signature_request = body_nonce sample_request"
    by (simp add: body_nonce_def bad_signature_request_def)
  have "rejected_code (runVerify sample_env bad_raw ''r1'' 1000000 1000500 ''u1'' ?w)
      = Some ''duplicate_payment''"
    unfolding run_admissible [OF bad_parsed bad_signature_admissible]
    by (simp add: sample_run_simps sample_defs bad_signature_request_def body_nonce_def)
  then obtain resp w1 where
    run: "runVerify sample_env bad_raw ''r1'' 1000000 1000500 ''u1'' ?w = (Inr resp, w1)"
    by (auto simp: rejected_code_iff)
  show ?thesis
    using verify_claim_leak [OF sample_env_service bad_parsed bad_signature_admissible _ run refl bad_parsed refl]
      nonce run by (auto simp: accepted_iff)
qed

text \<open>A wrong signature burns the nonce: the rejected verification row keeps the nonce, so
  after one request with an invalid signature every later request with that nonce is refused,
  the legitimate payer's included, although the Redis claim was released for a retry.\<close>

theorem invalid_signature_burns_nonce:
  assumes "verify_service E"
    and "runVerify E raw rid now clock uid w = (Inr (Rejected j), w1)" and "rj_code j = ''invalid_signature''"
    and "ve_parse E raw = Inr body"
    and "set (verifications w1) \<subseteq> set (verifications w2)"
    and "ve_parse E raw' = Inr body'" and "body_nonce body' = body_nonce body"
  shows "runVerify E raw' rid' now' clock' uid' w2 \<noteq> (Inr (Accepted a), w3)"
  using assms(2)
proof (cases rule: run_split)
  case (Early j')
  then show ?thesis using assms(3) by simp
next
  case (Claim body0 nw asset)
  then obtain v where "v \<in> set (verifications w1)" "pv_nonce v = Some (body_nonce body)"
    using verify_service.claim_invalid_signature [OF assms(1)] assms(3,4) by fastforce
  then show ?thesis
    using assms(5,7) by (intro row_blocks [OF assms(1,6)]) auto
qed

theorem invalid_signature_burns_nonce_witness:
  "\<exists>j w1. runVerify sample_env bad_raw ''r1'' 1000000 1000500 ''u1'' sample_world = (Inr (Rejected j), w1) \<and>
     \<not> accepted (runVerify sample_env sample_raw ''r2'' 1000000 1000600 ''u2'' w1)"
proof -
  obtain j w1 where run:
    "runVerify sample_env bad_raw ''r1'' 1000000 1000500 ''u1'' sample_world = (Inr (Rejected j), w1)"
    and code: "rj_code j = ''invalid_signature''"
    using bad_rejected by (auto simp: rejected_code_iff)
  have "body_nonce sample_request = body_nonce bad_signature_request"
    by (simp add: body_nonce_def bad_signature_request_def)
  from invalid_signature_burns_nonce [OF sample_env_service run code bad_parsed subset_refl sample_parsed this]
  show ?thesis using run by (auto simp: accepted_iff)
qed

text \<open>
  Nonces and signatures are hexadecimal, so two spellings that differ in case are the same
  bytes to the chain. The protocol module, unlike \<open>src/infrastructure/anti-replay.ts\<close>,
  claims the spelling.
\<close>

definition upper_request :: verify_request where
  "upper_request = sample_request\<lparr>vr_payload :=
     \<lparr>vp_signature = ''0x'' @ replicate 130 (CHR ''C''),
      vp_authorization = (vp_authorization (vr_payload sample_request))
        \<lparr>au_nonce := ''0x'' @ replicate 64 (CHR ''D'')\<rparr>\<rparr>\<rparr>"

definition upper_raw :: json where
  "upper_raw = encode_request upper_request"

lemma upper_parsed: "ve_parse sample_env upper_raw = Inr upper_request"
proof -
  have "wf_request upper_request" by code_simp
  then show ?thesis by (simp add: sample_env_def upper_raw_def parse_encode_roundtrip_aux)
qed

lemma upper_admissible: "admissible sample_env upper_request 1000000 base_config usdc_on_base"
  by code_simp

lemma same_bytes:
  "toLowerCase (body_nonce upper_request) = body_nonce sample_request"
  "toLowerCase (vp_signature (vr_payload upper_request)) = vp_signature (vr_payload sample_request)"
  by code_simp+

text \<open>The same payment in another spelling is accepted twice: with lawful stores and a
  signature check that reads hexadecimal digits without regard to case, a request and its
  upper-case spelling, the same nonce and the same signature as bytes, are both accepted one
  after the other.\<close>

theorem verify_case_replay:
  "verify_service sample_env \<and>
   toLowerCase (body_nonce upper_request) = toLowerCase (body_nonce sample_request) \<and>
   accepted (runVerify sample_env sample_raw ''r1'' 1000000 1000500 ''u1'' sample_world) \<and>
   accepted (runVerify sample_env upper_raw ''r2'' 1000000 1000500 ''u2''
     (snd (runVerify sample_env sample_raw ''r1'' 1000000 1000500 ''u1'' sample_world)))"
proof -
  have lower: "toLowerCase (body_nonce upper_request) = toLowerCase (body_nonce sample_request)"
    by (metis same_bytes(1) toLowerCase_idem)
  have "accepted (runVerify sample_env upper_raw ''r2'' 1000000 1000500 ''u2''
     (snd (runVerify sample_env sample_raw ''r1'' 1000000 1000500 ''u1'' sample_world)))"
    unfolding run_admissible [OF upper_parsed upper_admissible] run_admissible [OF sample_parsed sample_admissible]
    by (simp add: sample_run_simps sample_defs upper_request_def verification_clash_def request_clash_def
        hashSignature_def)
  with sample_env_service sample_accepted lower show ?thesis by simp
qed

end
