(* ===== verification/OnChain.thy ===== *)
theory OnChain
  imports Domain
begin

text \<open>
  \<open>src/settlement/on-chain.ts\<close>: splitting a 65-byte signature into \<open>v\<close>, \<open>r\<close> and \<open>s\<close>, and
  \<open>submitOnChain\<close>, which tries the primary and then the fallback RPC endpoint. The two viem
  clients are the parameter \<open>chain_api\<close>: the answer of an endpoint is a function of the
  submissions made so far, and every \<open>writeContract\<close> call is one more submission.
\<close>

section \<open>Bytes of a hexadecimal string\<close>

definition hexval :: "char \<Rightarrow> int" where
  "hexval c = (let n = int (of_char c) in
     if n \<le> 57 then n - 48 else if n \<le> 70 then n - 55 else n - 87)"

definition hexdigit :: "int \<Rightarrow> char" where
  "hexdigit k = char_of (nat (if k < 10 then 48 + k else 87 + k))"

text \<open>\<open>Buffer.from(s, 'hex')\<close> stops at the first pair that is not hexadecimal.\<close>

fun hex_bytes :: "string \<Rightarrow> int list" where
  "hex_bytes (a # b # cs) =
     (if is_hex a \<and> is_hex b then (16 * hexval a + hexval b) # hex_bytes cs else [])"
| "hex_bytes _ = []"

definition to_hex :: "int list \<Rightarrow> string" where
  "to_hex bytes = concat (map (\<lambda>b. [hexdigit (b div 16), hexdigit (b mod 16)]) bytes)"

record split_signature =
  sg_v :: "int option"
  sg_r :: string
  sg_s :: string

text \<open>\<open>bytes[64]\<close> is \<open>undefined\<close> when there are fewer than 65 bytes.\<close>

definition splitSignature :: "string \<Rightarrow> split_signature" where
  "splitSignature sig =
     (let bytes = hex_bytes (drop 2 sig) in
      \<lparr>sg_v = (if 64 < length bytes then Some (bytes ! 64) else None),
       sg_r = ''0x'' @ to_hex (take 32 bytes),
       sg_s = ''0x'' @ to_hex (take 32 (drop 32 bytes))\<rparr>)"

section \<open>Submission\<close>

record tx_receipt =
  tx_blockNumber :: int
  tx_gasUsed :: int
  tx_reverted :: bool

record chain_api =
  rpc_account :: "exn + unit"
  rpc_write :: "chain_log \<Rightarrow> string \<Rightarrow> transfer_call \<Rightarrow> exn + string"
  rpc_wait :: "chain_log \<Rightarrow> string \<Rightarrow> string \<Rightarrow> exn + tx_receipt"

definition writeContract :: "chain_api \<Rightarrow> string \<Rightarrow> transfer_call \<Rightarrow> (chain_log, exn, string) prog" where
  "writeContract C url call = (\<lambda>log. (rpc_write C log url call, log @ [(url, call)]))"

definition waitForTransactionReceipt :: "chain_api \<Rightarrow> string \<Rightarrow> string \<Rightarrow> (chain_log, exn, tx_receipt) prog" where
  "waitForTransactionReceipt C url hash = (\<lambda>log. (rpc_wait C log url hash, log))"

record onchain_request =
  oc_from :: string
  oc_to :: "string option"
  oc_value :: int
  oc_validAfter :: int
  oc_validBefore :: int
  oc_nonce :: "string option"
  oc_signature :: string
  oc_assetAddress :: string
  oc_rpcUrl :: string
  oc_fallbackRpcUrl :: "string option"

record onchain_result =
  or_txHash :: string
  or_blockNumber :: int
  or_gasUsed :: int

definition call_of :: "onchain_request \<Rightarrow> transfer_call" where
  "call_of r = (let sg = splitSignature (oc_signature r) in
     \<lparr>tc_asset = oc_assetAddress r, tc_from = oc_from r, tc_to = oc_to r, tc_value = oc_value r,
      tc_validAfter = oc_validAfter r, tc_validBefore = oc_validBefore r, tc_nonce = oc_nonce r,
      tc_v = sg_v sg, tc_r = sg_r sg, tc_s = sg_s sg\<rparr>)"

text \<open>One pass of the loop over the endpoints.\<close>

definition rpc_attempt :: "chain_api \<Rightarrow> transfer_call \<Rightarrow> string \<Rightarrow> (chain_log, exn, onchain_result) prog" where
  "rpc_attempt C call url =
     seq (writeContract C url call) (\<lambda>txHash.
     seq (waitForTransactionReceipt C url txHash) (\<lambda>receipt.
     if tx_reverted receipt then throw (plainError (''Transaction reverted: '' @ txHash))
     else ret \<lparr>or_txHash = txHash, or_blockNumber = tx_blockNumber receipt,
               or_gasUsed = tx_gasUsed receipt\<rparr>))"

fun try_rpcs ::
  "chain_api \<Rightarrow> transfer_call \<Rightarrow> string list \<Rightarrow> exn option \<Rightarrow> (chain_log, exn, onchain_result) prog" where
  "try_rpcs C call [] lastError =
     throw (case lastError of Some e \<Rightarrow> e | None \<Rightarrow> plainError ''All RPC endpoints failed'')"
| "try_rpcs C call (url # urls) lastError =
     try_catch (rpc_attempt C call url) (\<lambda>err. try_rpcs C call urls (Some err))"

definition rpc_urls :: "onchain_request \<Rightarrow> string list" where
  "rpc_urls r = filter (\<lambda>u. u \<noteq> '''')
     (oc_rpcUrl r # (case oc_fallbackRpcUrl r of Some u \<Rightarrow> [u] | None \<Rightarrow> []))"

text \<open>\<open>getConfig()\<close> and \<open>privateKeyToAccount\<close> come before the loop: their failure is the error of
  the whole call.\<close>

definition submitOnChain :: "chain_api \<Rightarrow> onchain_request \<Rightarrow> (chain_log, exn, onchain_result) prog" where
  "submitOnChain C r = seq (of_sum (rpc_account C)) (\<lambda>account.
     try_rpcs C (call_of r) (rpc_urls r) None)"

section \<open>Lemmas\<close>

lemma hexdigit_hexval:
  assumes "is_hex c"
  shows "hexdigit (hexval c) = char_lower c" and "0 \<le> hexval c" and "hexval c < 16"
proof -
  define n where "n = (of_char c :: nat)"
  have c: "c = char_of n" by (simp add: n_def)
  have r: "48 \<le> n \<and> n \<le> 57 \<or> 65 \<le> n \<and> n \<le> 70 \<or> 97 \<le> n \<and> n \<le> 102"
    using assms by (simp add: is_hex_def n_def Let_def)
  have v: "hexval c = (if n \<le> 57 then int n - 48 else if n \<le> 70 then int n - 55 else int n - 87)"
    by (simp add: hexval_def n_def Let_def)
  have l: "char_lower c = (if 65 \<le> n \<and> n \<le> 90 then char_of (n + 32) else char_of n)"
    by (simp add: char_lower_def n_def Let_def)
  show "0 \<le> hexval c" "hexval c < 16" using v r by auto
  have "nat (if hexval c < 10 then 48 + hexval c else 87 + hexval c) =
      (if 65 \<le> n \<and> n \<le> 90 then n + 32 else n)"
    using v r by auto
  then show "hexdigit (hexval c) = char_lower c" using l by (simp add: hexdigit_def)
qed

lemma to_hex_append [simp]: "to_hex (xs @ ys) = to_hex xs @ to_hex ys"
  by (simp add: to_hex_def)

lemma hex_bytes_roundtrip:
  "even (length s) \<Longrightarrow> list_all is_hex s \<Longrightarrow>
     to_hex (hex_bytes s) = toLowerCase s \<and> 2 * length (hex_bytes s) = length s"
proof (induction s rule: hex_bytes.induct)
  case (1 a b cs)
  have "(16 * hexval a + hexval b) div 16 = hexval a" "(16 * hexval a + hexval b) mod 16 = hexval b"
    using 1(3) hexdigit_hexval(2,3) [of b] by (simp_all add: div_pos_pos_trivial)
  then show ?case
    using 1 hexdigit_hexval(1) by (auto simp: to_hex_def toLowerCase_def)
qed (simp_all add: to_hex_def toLowerCase_def)

lemma attempt_log: "rpc_attempt C call url log = (r, log') \<Longrightarrow> log' = log @ [(url, call)]"
  by (cases r) (auto simp: rpc_attempt_def run_simps writeContract_def waitForTransactionReceipt_def)

lemma try_rpcs_log:
  "try_rpcs C call urls le log = (r, log') \<Longrightarrow>
     \<exists>k \<le> length urls. log' = log @ map (\<lambda>u. (u, call)) (take k urls) \<and> (urls \<noteq> [] \<longrightarrow> 1 \<le> k)"
proof (induction urls arbitrary: le log)
  case Nil
  then show ?case by (simp add: run_simps)
next
  case (Cons u us)
  obtain s log1 where a: "rpc_attempt C call u log = (s, log1)" by fastforce
  note l1 = attempt_log [OF a]
  show ?case
  proof (cases s)
    case (Inr x)
    then have "log' = log1" using Cons.prems a by (simp add: try_catch_def)
    then show ?thesis using l1 by (auto intro!: exI [of _ 1])
  next
    case (Inl e)
    then have "try_rpcs C call us (Some e) log1 = (r, log')"
      using Cons.prems a by (simp add: try_catch_def)
    from Cons.IH [OF this] obtain k where "k \<le> length us" "log' = log1 @ map (\<lambda>u. (u, call)) (take k us)"
      by blast
    then show ?thesis using l1 by (auto intro!: exI [of _ "Suc k"])
  qed
qed

lemma try_rpcs_ok:
  "try_rpcs C call urls le log = (Inr res, log') \<Longrightarrow>
     \<exists>k url rcpt. k < length urls \<and> url = urls ! k \<and>
       log' = log @ map (\<lambda>u. (u, call)) (take (Suc k) urls) \<and>
       rpc_write C (log @ map (\<lambda>u. (u, call)) (take k urls)) url call = Inr (or_txHash res) \<and>
       rpc_wait C log' url (or_txHash res) = Inr rcpt \<and> \<not> tx_reverted rcpt"
proof (induction urls arbitrary: le log)
  case Nil
  then show ?case by (simp add: run_simps)
next
  case (Cons u us)
  obtain s log1 where a: "rpc_attempt C call u log = (s, log1)" by fastforce
  note l1 = attempt_log [OF a]
  show ?case
  proof (cases s)
    case (Inr x)
    then have "x = res" "log' = log1" using Cons.prems a by (simp_all add: try_catch_def)
    then show ?thesis
      using a Inr by (intro exI [of _ 0])
        (auto simp: rpc_attempt_def run_simps writeContract_def waitForTransactionReceipt_def)
  next
    case (Inl e)
    then have "try_rpcs C call us (Some e) log1 = (Inr res, log')"
      using Cons.prems a by (simp add: try_catch_def)
    from Cons.IH [OF this] l1 show ?thesis
      by (elim exE conjE) (rule_tac x = "Suc k" in exI, auto)
  qed
qed

lemma submit_log:
  "submitOnChain C r log = (s, log') \<Longrightarrow>
     \<exists>k \<le> length (rpc_urls r). log' = log @ map (\<lambda>u. (u, call_of r)) (take k (rpc_urls r))"
proof (cases "rpc_account C")
  case (Inl e)
  assume "submitOnChain C r log = (s, log')"
  then have "log' = log" using Inl by (simp add: submitOnChain_def seq_def of_sum_def)
  then show ?thesis by (intro exI [of _ 0]) simp
next
  case (Inr account)
  assume "submitOnChain C r log = (s, log')"
  then have "try_rpcs C (call_of r) (rpc_urls r) None log = (s, log')"
    using Inr by (simp add: submitOnChain_def seq_def of_sum_def)
  from try_rpcs_log [OF this] show ?thesis by blast
qed

text \<open>A submission that returns comes from one endpoint, which accepted exactly this transfer
  and whose receipt was not reverted; the endpoints before it got the same transfer once each.\<close>

lemma submit_ok_trace:
  "submitOnChain C r log = (Inr res, log') \<Longrightarrow>
     \<exists>k url rcpt. k < length (rpc_urls r) \<and> url = rpc_urls r ! k \<and>
       log' = log @ map (\<lambda>u. (u, call_of r)) (take (Suc k) (rpc_urls r)) \<and>
       rpc_write C (log @ map (\<lambda>u. (u, call_of r)) (take k (rpc_urls r))) url (call_of r) = Inr (or_txHash res) \<and>
       rpc_wait C log' url (or_txHash res) = Inr rcpt \<and> \<not> tx_reverted rcpt"
  by (rule try_rpcs_ok) (simp add: submitOnChain_def seq_def of_sum_def split: sum.splits)

text \<open>Every attempt before the last one failed, and a submission that throws tried them all.\<close>

lemma attempt_ok:
  "fst (rpc_attempt C call url log) = Inr res \<Longrightarrow>
     \<exists>rcpt. rpc_write C log url call = Inr (or_txHash res) \<and>
       rpc_wait C (log @ [(url, call)]) url (or_txHash res) = Inr rcpt \<and> \<not> tx_reverted rcpt \<and>
       or_blockNumber res = tx_blockNumber rcpt \<and> or_gasUsed res = tx_gasUsed rcpt"
  by (auto simp: rpc_attempt_def seq_def throw_def ret_def writeContract_def
      waitForTransactionReceipt_def split: sum.splits if_splits)

lemma try_rpcs_first:
  "try_rpcs C call urls le log = (s, log') \<Longrightarrow>
     \<exists>k \<le> length urls. (\<forall>j<k. \<exists>e. fst (rpc_attempt C call (urls ! j) (log @ map (\<lambda>u. (u, call)) (take j urls))) = Inl e) \<and>
       (case s of
          Inl e \<Rightarrow> k = length urls \<and> log' = log @ map (\<lambda>u. (u, call)) urls
        | Inr res \<Rightarrow> k < length urls \<and> log' = log @ map (\<lambda>u. (u, call)) (take (Suc k) urls) \<and>
            fst (rpc_attempt C call (urls ! k) (log @ map (\<lambda>u. (u, call)) (take k urls))) = Inr res)"
proof (induction urls arbitrary: le log)
  case Nil
  then show ?case by (auto simp: run_simps)
next
  case (Cons u us)
  obtain a log1 where a: "rpc_attempt C call u log = (a, log1)" by fastforce
  note l1 = attempt_log [OF a]
  show ?case
  proof (cases a)
    case (Inr x)
    then show ?thesis using Cons.prems a l1 by (intro exI [of _ 0]) (auto simp: try_catch_def)
  next
    case (Inl e)
    then have "try_rpcs C call us (Some e) log1 = (s, log')"
      using Cons.prems a by (simp add: try_catch_def)
    from Cons.IH [OF this] obtain k where k: "k \<le> length us"
      "\<forall>j<k. \<exists>e. fst (rpc_attempt C call (us ! j) (log1 @ map (\<lambda>u. (u, call)) (take j us))) = Inl e"
      "case s of Inl e \<Rightarrow> k = length us \<and> log' = log1 @ map (\<lambda>u. (u, call)) us
        | Inr res \<Rightarrow> k < length us \<and> log' = log1 @ map (\<lambda>u. (u, call)) (take (Suc k) us) \<and>
            fst (rpc_attempt C call (us ! k) (log1 @ map (\<lambda>u. (u, call)) (take k us))) = Inr res"
      by blast
    have "\<forall>j<Suc k. \<exists>e. fst (rpc_attempt C call ((u # us) ! j)
        (log @ map (\<lambda>u. (u, call)) (take j (u # us)))) = Inl e"
      using k(2) a Inl l1 by (auto simp: nth_Cons less_Suc_eq_0_disj)
    then show ?thesis using k(1,3) l1 by (intro exI [of _ "Suc k"]) (auto split: sum.splits)
  qed
qed

text \<open>As soon as the account is there, the first endpoint gets the transfer.\<close>

lemma submit_nonempty:
  assumes "submitOnChain C r log = (s, log')" and "rpc_account C = Inr account" and "rpc_urls r \<noteq> []"
  shows "\<exists>k \<le> length (rpc_urls r). 1 \<le> k \<and> log' = log @ map (\<lambda>u. (u, call_of r)) (take k (rpc_urls r))"
  using try_rpcs_log [of C "call_of r" "rpc_urls r" None log s log'] assms
  by (auto simp: submitOnChain_def seq_def of_sum_def)

text \<open>Splitting a well-formed 65-byte signature loses nothing: \<open>v\<close> is a byte, and the
  digits of \<open>r\<close>, of \<open>s\<close> and of \<open>v\<close> one after the other are the signature in lower case.\<close>

theorem splitSignature_roundtrip:
  assumes "hex0x 130 sig"
  shows "\<exists>v. sg_v (splitSignature sig) = Some v \<and>
    ''0x'' @ drop 2 (sg_r (splitSignature sig)) @ drop 2 (sg_s (splitSignature sig)) @ to_hex [v] =
      ''0x'' @ toLowerCase (drop 2 sig)"
proof -
  let ?b = "hex_bytes (drop 2 sig)"
  have h: "to_hex ?b = toLowerCase (drop 2 sig)" "length ?b = 65"
    using hex_bytes_roundtrip [of "drop 2 sig"] assms by (auto simp: hex0x_def)
  have "?b = take 32 ?b @ take 32 (drop 32 ?b) @ drop 64 ?b"
    by (metis append_take_drop_id drop_drop numeral_Bit0 numeral_plus_numeral add_numeral_special add.commute)
  moreover have "drop 64 ?b = [?b ! 64]"
    using h(2) by (simp add: Cons_nth_drop_Suc [symmetric])
  ultimately have "to_hex ?b = to_hex (take 32 ?b) @ to_hex (take 32 (drop 32 ?b)) @ to_hex [?b ! 64]"
    by (metis to_hex_append)
  then show ?thesis using h by (simp add: splitSignature_def Let_def)
qed

theorem splitSignature_roundtrip_witness:
  "\<exists>v. sg_v (splitSignature (''0x'' @ replicate 128 (CHR ''A'') @ ''1b'')) = Some v \<and>
     drop 2 (sg_r (splitSignature (''0x'' @ replicate 128 (CHR ''A'') @ ''1b''))) @
     drop 2 (sg_s (splitSignature (''0x'' @ replicate 128 (CHR ''A'') @ ''1b''))) @ to_hex [v] =
       toLowerCase (replicate 128 (CHR ''A'') @ ''1b'')"
proof -
  have "hex0x 130 (''0x'' @ replicate 128 (CHR ''A'') @ ''1b'')" by code_simp
  from splitSignature_roundtrip [OF this] show ?thesis by simp
qed

text \<open>C28. Failover: \<open>submitOnChain\<close> returns only what the first endpoint to succeed gave for
  exactly this transfer: its hash, and the block and the gas of a receipt that is not reverted.
  Each endpoint before it got the same transfer once and its attempt failed. A call that throws
  either found no account and submitted nothing, or tried every endpoint exactly once, in
  order, and every attempt failed.\<close>

theorem submitOnChain_failover:
  assumes "submitOnChain C r log = (s, log')"
  shows "case s of
      Inr res \<Rightarrow> (\<exists>k url rcpt. k < length (rpc_urls r) \<and> url = rpc_urls r ! k \<and>
        log' = log @ map (\<lambda>u. (u, call_of r)) (take (Suc k) (rpc_urls r)) \<and>
        rpc_write C (log @ map (\<lambda>u. (u, call_of r)) (take k (rpc_urls r))) url (call_of r) = Inr (or_txHash res) \<and>
        rpc_wait C log' url (or_txHash res) = Inr rcpt \<and> \<not> tx_reverted rcpt \<and>
        or_blockNumber res = tx_blockNumber rcpt \<and> or_gasUsed res = tx_gasUsed rcpt \<and>
        (\<forall>j<k. \<exists>e. fst (rpc_attempt C (call_of r) (rpc_urls r ! j)
           (log @ map (\<lambda>u. (u, call_of r)) (take j (rpc_urls r)))) = Inl e))
    | Inl e \<Rightarrow> rpc_account C = Inl e \<and> log' = log \<or>
        log' = log @ map (\<lambda>u. (u, call_of r)) (rpc_urls r) \<and>
        (\<forall>j<length (rpc_urls r). \<exists>e'. fst (rpc_attempt C (call_of r) (rpc_urls r ! j)
           (log @ map (\<lambda>u. (u, call_of r)) (take j (rpc_urls r)))) = Inl e')"
proof (cases "rpc_account C")
  case (Inl e)
  then show ?thesis using assms by (auto simp: submitOnChain_def seq_def of_sum_def)
next
  case (Inr account)
  then have run: "try_rpcs C (call_of r) (rpc_urls r) None log = (s, log')"
    using assms by (simp add: submitOnChain_def seq_def of_sum_def)
  show ?thesis
  proof (cases s)
    case failed: (Inl e)
    then show ?thesis using try_rpcs_first [OF run] by auto
  next
    case (Inr res)
    from try_rpcs_first [OF run] Inr obtain k where k: "k < length (rpc_urls r)"
      "log' = log @ map (\<lambda>u. (u, call_of r)) (take (Suc k) (rpc_urls r))"
      "\<forall>j<k. \<exists>e. fst (rpc_attempt C (call_of r) (rpc_urls r ! j)
         (log @ map (\<lambda>u. (u, call_of r)) (take j (rpc_urls r)))) = Inl e"
      "fst (rpc_attempt C (call_of r) (rpc_urls r ! k)
         (log @ map (\<lambda>u. (u, call_of r)) (take k (rpc_urls r)))) = Inr res"
      by auto
    have "log' = (log @ map (\<lambda>u. (u, call_of r)) (take k (rpc_urls r))) @ [(rpc_urls r ! k, call_of r)]"
      using k(1,2) by (simp add: take_Suc_conv_app_nth)
    then show ?thesis using attempt_ok [OF k(4)] k(1,2,3) Inr
      by (auto intro!: exI [of _ k])
  qed
qed

definition sample_chain :: chain_api where
  "sample_chain =
     \<lparr>rpc_account = Inr (),
      rpc_write = (\<lambda>log url call. if url = ''down'' then Inl (plainError ''unreachable'') else Inr ''0xhash''),
      rpc_wait = (\<lambda>log url h. if url = ''slow'' then Inl (plainError ''timeout'')
                      else Inr \<lparr>tx_blockNumber = 7, tx_gasUsed = 21000, tx_reverted = False\<rparr>)\<rparr>"

definition sample_transfer :: "string \<Rightarrow> string option \<Rightarrow> onchain_request" where
  "sample_transfer url fallback =
     \<lparr>oc_from = ''0xa'', oc_to = Some ''0xb'', oc_value = 5, oc_validAfter = 0, oc_validBefore = 9,
      oc_nonce = Some ''0xn'', oc_signature = ''0x'', oc_assetAddress = ''0xc'', oc_rpcUrl = url,
      oc_fallbackRpcUrl = fallback\<rparr>"

theorem submitOnChain_failover_witness:
  "\<exists>res log'. submitOnChain sample_chain (sample_transfer ''down'' (Some ''up'')) [] = (Inr res, log') \<and>
     length log' = 2 \<and> or_txHash res = ''0xhash''"
proof -
  have urls: "rpc_urls (sample_transfer ''down'' (Some ''up'')) = [''down'', ''up'']"
    by (simp add: rpc_urls_def sample_transfer_def)
  obtain res log' where run:
    "submitOnChain sample_chain (sample_transfer ''down'' (Some ''up'')) [] = (Inr res, log')"
    by (simp add: submitOnChain_def urls rpc_attempt_def seq_def try_catch_def writeContract_def
        waitForTransactionReceipt_def sample_chain_def ret_def of_sum_def)
  let ?r = "sample_transfer ''down'' (Some ''up'')"
  from submitOnChain_failover [OF run] obtain k url rcpt where k: "k < length (rpc_urls ?r)" and
    f: "url = rpc_urls ?r ! k" "log' = [] @ map (\<lambda>u. (u, call_of ?r)) (take (Suc k) (rpc_urls ?r))"
    "rpc_write sample_chain ([] @ map (\<lambda>u. (u, call_of ?r)) (take k (rpc_urls ?r))) url (call_of ?r)
       = Inr (or_txHash res)"
    unfolding sum.case by blast
  have "k = 1"
    using k f(1,3) by (cases k) (auto simp: urls sample_chain_def split: if_splits)
  then have "length log' = 2 \<and> or_txHash res = ''0xhash''"
    using f by (simp add: urls sample_chain_def)
  then show ?thesis using run by blast
qed

text \<open>Failover resubmits: when the primary endpoint took the transaction and only the wait
  for its receipt failed, the same transfer is sent again through the fallback; if the
  fallback refuses it (the authorization is already used), the whole submission fails with
  the fallback's error, although the first transaction was accepted and may still confirm.\<close>

theorem submitOnChain_resubmits:
  assumes "rpc_account C = Inr account" and "rpc_urls r = [u1, u2]" and "rpc_write C log u1 (call_of r) = Inr h"
    and "rpc_wait C (log @ [(u1, call_of r)]) u1 h = Inl timeout"
  shows "snd (submitOnChain C r log) = log @ [(u1, call_of r), (u2, call_of r)] \<and>
    (\<forall>refused. rpc_write C (log @ [(u1, call_of r)]) u2 (call_of r) = Inl refused \<longrightarrow>
       fst (submitOnChain C r log) = Inl refused)"
proof -
  have first: "rpc_attempt C (call_of r) u1 log = (Inl timeout, log @ [(u1, call_of r)])"
    using assms(3,4)
    by (simp add: rpc_attempt_def seq_def writeContract_def waitForTransactionReceipt_def)
  obtain s log2 where second: "rpc_attempt C (call_of r) u2 (log @ [(u1, call_of r)]) = (s, log2)"
    by fastforce
  have log2: "log2 = log @ [(u1, call_of r), (u2, call_of r)]" using attempt_log [OF second] by simp
  have run: "submitOnChain C r log = (case s of Inl e \<Rightarrow> (Inl e, log2) | Inr x \<Rightarrow> (Inr x, log2))"
    using first second
    by (cases s) (simp_all add: submitOnChain_def assms(1,2) try_catch_def throw_def seq_def of_sum_def ret_def)
  have "s = Inl refused" if "rpc_write C (log @ [(u1, call_of r)]) u2 (call_of r) = Inl refused" for refused
    using second that by (simp add: rpc_attempt_def seq_def writeContract_def)
  then show ?thesis using run log2 by (cases s) auto
qed

theorem submitOnChain_resubmits_witness:
  "length (snd (submitOnChain sample_chain (sample_transfer ''slow'' (Some ''down'')) [])) = 2 \<and>
   fst (submitOnChain sample_chain (sample_transfer ''slow'' (Some ''down'')) []) = Inl (plainError ''unreachable'')"
proof -
  have urls: "rpc_urls (sample_transfer ''slow'' (Some ''down'')) = [''slow'', ''down'']"
    by (simp add: rpc_urls_def sample_transfer_def)
  from submitOnChain_resubmits [OF _ urls, of sample_chain "()" "[]"] show ?thesis
    by (simp add: sample_chain_def)
qed

end
