(* ===== verification/Settle.thy ===== *)
theory Settle
  imports OnChain NetworkRegistry
begin

text \<open>
  \<open>src/application/settle.service.ts\<close>: the whole \<open>/settle\<close> pipeline. \<open>computeFees\<close> is
  imported from \<open>fee-engine.ts\<close>, which exports no such function, so it is a parameter; so are
  Redis, the Prisma delegates, the transaction and the RPC endpoints. \<open>runSettle\<close> is the
  check of the database (\<open>settle_check\<close>) followed by the locked part (\<open>settle_locked\<close>): other
  requests can run between the two.
\<close>

section \<open>The service\<close>

record computed_fees =
  cf_platformFee :: int
  cf_developerShare :: int
  cf_netAmount :: int
  cf_feeBps :: int

type_synonym tx_tables = "payment_settlement list \<times> payment_receipt list"

record settle_env =
  st_redis :: redis_api
  st_verification :: "payment_verification delegate"
  st_settlement :: "payment_settlement delegate"
  st_receipt :: "payment_receipt delegate"
  st_seller :: "seller_row delegate"
  st_tx :: "(tx_tables, unit) transact"
  st_chain :: chain_api
  st_computeFees :: "int \<Rightarrow> exn + computed_fees"
  st_registry :: registry

record settle_ok =
  so_requestId :: string
  so_settlementId :: string
  so_txHash :: "string option"
  so_feeAmount :: "string option"
  so_developerShare :: "string option"
  so_receiptId :: "string option"
  so_confirmedAt :: "string option"
  so_settledAt :: string

record settle_failure =
  sf_requestId :: string
  sf_code :: string
  sf_message :: string
  sf_httpStatus :: nat
  sf_failedAt :: string

datatype settle_response = Settled settle_ok | NotSettled settle_failure

definition LOCK_TTL_SECONDS :: int where
  "LOCK_TTL_SECONDS = 300"

definition lock_key :: "string \<Rightarrow> string" where
  "lock_key requestId = ''settle:lock:'' @ requestId"

definition settleReject :: "int \<Rightarrow> string \<Rightarrow> string \<Rightarrow> string \<Rightarrow> nat \<Rightarrow> ('w, exn, settle_response) prog" where
  "settleReject clock requestId code message httpStatus =
     seq (iso clock) (\<lambda>t. ret (NotSettled
       \<lparr>sf_requestId = requestId, sf_code = code, sf_message = message, sf_httpStatus = httpStatus,
        sf_failedAt = t\<rparr>))"

definition iso_opt :: "int option \<Rightarrow> ('w, exn, string option) prog" where
  "iso_opt v = (case v of None \<Rightarrow> ret None | Some ms \<Rightarrow> seq (iso ms) (\<lambda>t. ret (Some t)))"

text \<open>Steps 1 and 2: an answer, or the verification, its request and its network.\<close>

datatype checked =
    Answer settle_response
  | Proceed payment_verification payment_request network_row

definition settle_existing ::
  "string \<Rightarrow> payment_settlement \<Rightarrow> int \<Rightarrow> (world, exn, settle_response) prog" where
  "settle_existing requestId existing clock =
     (case ps_status existing of
        SConfirmed \<Rightarrow>
          seq (include_opt receipts (\<lambda>r. rc_requestId r = ps_requestId existing)) (\<lambda>receipt.
          seq (iso_opt (ps_confirmedAt existing)) (\<lambda>confirmed.
          seq (iso (ps_createdAt existing)) (\<lambda>created.
          ret (Settled
            \<lparr>so_requestId = requestId, so_settlementId = ps_id existing, so_txHash = ps_txHash existing,
             so_feeAmount = ps_feeAmount existing, so_developerShare = ps_developerShare existing,
             so_receiptId = map_option rc_id receipt, so_confirmedAt = confirmed, so_settledAt = created\<rparr>))))
      | SFailed \<Rightarrow>
          settleReject clock requestId ''settlement_failed'' ''Previous settlement attempt failed'' 402
      | _ \<Rightarrow>
          settleReject clock requestId ''settlement_pending'' ''Settlement is already being processed'' 409)"

definition settle_check ::
  "settle_env \<Rightarrow> string \<Rightarrow> string \<Rightarrow> int \<Rightarrow> (world, exn, checked) prog" where
  "settle_check S requestId verificationId clock =
     seq (on_verifications (db_find (st_verification S)
            (\<lambda>v. pv_id v = verificationId \<and> pv_requestId v = requestId \<and> pv_status v = VAccepted)))
       (\<lambda>verification. case verification of
          None \<Rightarrow>
            seq (settleReject clock requestId ''verification_not_found''
                   ''No accepted verification found for this requestId + verificationId'' 402)
              (\<lambda>r. ret (Answer r))
        | Some v \<Rightarrow>
            seq (include_row requests (\<lambda>r. pr_id r = pv_requestId v)) (\<lambda>paymentRequest.
            seq (include_row networks (\<lambda>n. nw_id n = pr_networkId paymentRequest)) (\<lambda>network.
            seq (on_settlements (db_find (st_settlement S) (\<lambda>s. ps_requestId s = requestId)))
              (\<lambda>existing. case existing of
                 Some s \<Rightarrow> seq (settle_existing requestId s clock) (\<lambda>r. ret (Answer r))
               | None \<Rightarrow> ret (Proceed v paymentRequest network)))))"

text \<open>
  \<open>BigInt(s)\<close> of a string of digits; the other spellings it accepts are not stored: the column
  is filled from a value that matches \<open>/^\d+$/\<close>.
\<close>

definition js_BigInt :: "string \<Rightarrow> ('w, exn, int) prog" where
  "js_BigInt s = (if decimal s then ret (bigint_of s)
     else throw (JsError ''SyntaxError'' (''Cannot convert '' @ s @ '' to a BigInt'')))"

text \<open>The string \<open>0x\<close> plus \<open>null\<close> is \<open>0xnull\<close>.\<close>

definition or_null_str :: "string option \<Rightarrow> string" where
  "or_null_str v = (case v of Some s \<Rightarrow> s | None \<Rightarrow> ''null'')"

definition settle_payee :: "settle_env \<Rightarrow> payment_request \<Rightarrow> (world, exn, string option) prog" where
  "settle_payee S paymentRequest =
     (case pr_sellerId paymentRequest of
        Some (c # cs) \<Rightarrow>
          seq (on_sellers (db_find (st_seller S) (\<lambda>s. se_id s = c # cs)))
            (\<lambda>seller. ret (map_option se_walletAddress seller))
      | _ \<Rightarrow> ret (Some (pr_buyerAddress paymentRequest)))"

text \<open>The body of the transaction of step 9.\<close>

definition settle_commit ::
  "settle_env \<Rightarrow> string \<Rightarrow> (payment_settlement \<Rightarrow> payment_settlement) \<Rightarrow> payment_receipt \<Rightarrow>
   (tx_tables, exn, unit) prog" where
  "settle_commit S settlementId confirm receipt =
     seq (zoom fst (\<lambda>x (_, y). (x, y))
            (db_update (st_settlement S) (\<lambda>s. ps_id s = settlementId) confirm)) (\<lambda>_.
     seq (zoom snd (\<lambda>y (x, _). (x, y)) (db_create (st_receipt S) receipt)) (\<lambda>_. ret ()))"

definition in_transaction :: "(tx_tables, exn, 'a) prog \<Rightarrow> (world, exn, 'a) prog" where
  "in_transaction = zoom (\<lambda>w. (settlements w, receipts w))
     (\<lambda>(s, r) w. w\<lparr>settlements := s, receipts := r\<rparr>)"

definition receipt_payload ::
  "string \<Rightarrow> string \<Rightarrow> network_config \<Rightarrow> payment_request \<Rightarrow> int \<Rightarrow> computed_fees \<Rightarrow> string option \<Rightarrow> string \<Rightarrow> json" where
  "receipt_payload settlementId txHash network paymentRequest grossAmount fees referralCode confirmed = JObj
     [(''settlementId'', JStr settlementId), (''txHash'', JStr txHash),
      (''network'', JStr (nc_name network)), (''asset'', JStr (pr_asset paymentRequest)),
      (''grossAmount'', JStr (int_str grossAmount)), (''feeAmount'', JStr (int_str (cf_platformFee fees))),
      (''developerShare'', JStr (int_str (cf_developerShare fees))),
      (''netAmount'', JStr (int_str (cf_netAmount fees))), (''feeBps'', JNum (cf_feeBps fees)),
      (''referralCode'', null_or_str referralCode), (''confirmedAt'', JStr confirmed)]"

text \<open>
  Steps 5 to 12, the \<open>try\<close> block. \<open>now\<close> is the reading of the clock after the submission.
\<close>

definition settle_submit ::
  "settle_env \<Rightarrow> string \<Rightarrow> string option \<Rightarrow> payment_verification \<Rightarrow> payment_request \<Rightarrow> network_row \<Rightarrow>
   string \<Rightarrow> string \<Rightarrow> int \<Rightarrow> (world, exn, settle_response) prog" where
  "settle_submit S requestId referralCode v paymentRequest networkRow settlementId receiptId now =
     (case getNetwork (st_registry S) (nw_chainId networkRow) of
        None \<Rightarrow> throw (plainError ''Network or asset not found in registry for settlement'')
      | Some network \<Rightarrow>
     (case List.find (\<lambda>a. as_symbol a = pr_asset paymentRequest) (nc_assets network) of
        None \<Rightarrow> throw (plainError ''Network or asset not found in registry for settlement'')
      | Some asset \<Rightarrow>
     seq (js_BigInt (pr_amount paymentRequest)) (\<lambda>grossAmount.
     seq (settle_payee S paymentRequest) (\<lambda>payee.
     seq (on_chain (submitOnChain (st_chain S)
            \<lparr>oc_from = pr_buyerAddress paymentRequest, oc_to = payee, oc_value = grossAmount,
             oc_validAfter = 0, oc_validBefore = pr_expiresAt paymentRequest div 1000,
             oc_nonce = pv_nonce v, oc_signature = ''0x'' @ or_null_str (pv_signatureHash v),
             oc_assetAddress = as_address asset, oc_rpcUrl = nc_rpcUrl network,
             oc_fallbackRpcUrl = nc_fallbackRpcUrl network\<rparr>)) (\<lambda>onChainResult.
     seq (of_sum (st_computeFees S grossAmount)) (\<lambda>fees.
     seq (iso now) (\<lambda>confirmed.
     seq (in_transaction (st_tx S (settle_commit S settlementId
            (\<lambda>s. s\<lparr>ps_status := SConfirmed, ps_txHash := Some (or_txHash onChainResult),
                  ps_feeAmount := Some (int_str (cf_platformFee fees)),
                  ps_developerShare := Some (int_str (cf_developerShare fees)),
                  ps_confirmedAt := Some now\<rparr>)
            \<lparr>rc_id = receiptId, rc_requestId = requestId, rc_protocolVersion = ''x402-v1'',
             rc_responsePayload = receipt_payload settlementId (or_txHash onChainResult) network
               paymentRequest grossAmount fees referralCode confirmed,
             rc_createdAt = now\<rparr>))) (\<lambda>_.
     seq (on_keys (redis_del (st_redis S) (lock_key requestId))) (\<lambda>_.
     ret (Settled
       \<lparr>so_requestId = requestId, so_settlementId = settlementId,
        so_txHash = Some (or_txHash onChainResult),
        so_feeAmount = Some (int_str (cf_platformFee fees)),
        so_developerShare = Some (int_str (cf_developerShare fees)), so_receiptId = Some receiptId,
        so_confirmedAt = Some confirmed, so_settledAt = confirmed\<rparr>))))))))))"

text \<open>Steps 3 to 12: lock, processing record, submission, and the \<open>catch\<close> block.\<close>

definition settle_locked ::
  "settle_env \<Rightarrow> string \<Rightarrow> string option \<Rightarrow> payment_verification \<Rightarrow> payment_request \<Rightarrow> network_row \<Rightarrow>
   string \<Rightarrow> string \<Rightarrow> int \<Rightarrow> int \<Rightarrow> (world, exn, settle_response) prog" where
  "settle_locked S requestId referralCode v paymentRequest networkRow settlementId receiptId now clock =
     seq (on_keys (redis_set_nx (st_redis S) (lock_key requestId) LOCK_TTL_SECONDS)) (\<lambda>locked.
     if \<not> locked then
       settleReject clock requestId ''settlement_pending'' ''Settlement already in progress'' 409
     else
       seq (on_settlements (db_create (st_settlement S)
              \<lparr>ps_id = settlementId, ps_requestId = requestId, ps_status = SProcessing,
               ps_settlementId = Some settlementId, ps_txHash = None, ps_feeAmount = None,
               ps_referralCode = referralCode, ps_developerShare = None, ps_confirmedAt = None,
               ps_createdAt = now\<rparr>)) (\<lambda>_.
       try_catch
         (settle_submit S requestId referralCode v paymentRequest networkRow settlementId receiptId now)
         (\<lambda>err.
            seq (ignore_errors (on_settlements (db_update (st_settlement S)
                   (\<lambda>s. ps_id s = settlementId) (\<lambda>s. s\<lparr>ps_status := SFailed\<rparr>)))) (\<lambda>_.
            seq (ignore_errors (on_keys (redis_del (st_redis S) (lock_key requestId)))) (\<lambda>_.
            settleReject clock requestId ''settlement_failed''
              (''On-chain submission failed: '' @ exn_message err) 502)))))"

definition runSettle ::
  "settle_env \<Rightarrow> string \<Rightarrow> string \<Rightarrow> string option \<Rightarrow> string \<Rightarrow> string \<Rightarrow> int \<Rightarrow> int \<Rightarrow>
   (world, exn, settle_response) prog" where
  "runSettle S requestId verificationId referralCode settlementId receiptId now clock =
     seq (settle_check S requestId verificationId clock) (\<lambda>checked. case checked of
        Answer r \<Rightarrow> ret r
      | Proceed v paymentRequest networkRow \<Rightarrow>
          settle_locked S requestId referralCode v paymentRequest networkRow settlementId receiptId now clock)"

section \<open>Lemmas\<close>

lemma settleReject_run:
  "settleReject clock rid code msg st w = (r, w') \<Longrightarrow>
     w' = w \<and> (\<forall>x. r = Inr x \<longrightarrow> (\<exists>f. x = NotSettled f \<and> sf_code f = code))"
  by (cases r) (auto simp: settleReject_def run_simps)

lemma js_BigInt_same: "js_BigInt s w = (r, w') \<Longrightarrow> w' = w"
  by (cases r) (auto simp: js_BigInt_def run_simps)

lemma iso_same: "iso t w = (r, w') \<Longrightarrow> w' = w"
  by (cases r) (auto simp: run_simps)

lemma iso_opt_same: "iso_opt t w = (r, w') \<Longrightarrow> w' = w"
  by (cases r) (auto simp: iso_opt_def run_simps)

lemma settle_existing_run:
  assumes "settle_existing rid s clock w = (r, w')"
  shows "w' = w \<and> (\<forall>ok. r = Inr (Settled ok) \<longrightarrow> ps_status s = SConfirmed \<and> so_requestId ok = rid \<and>
    so_settlementId ok = ps_id s \<and> so_txHash ok = ps_txHash s)"
  using assms unfolding settle_existing_def
  by (cases "ps_status s"; cases r) (auto simp: run_simps dest!: settleReject_run iso_opt_same)

text \<open>A submission of the payment of a request, under the authorization of a verification.\<close>

definition transfer_of :: "payment_request \<Rightarrow> payment_verification \<Rightarrow> onchain_request \<Rightarrow> bool" where
  "transfer_of pr v req \<longleftrightarrow> oc_from req = pr_buyerAddress pr \<and> oc_value req = bigint_of (pr_amount pr) \<and>
     oc_validAfter req = 0 \<and> oc_validBefore req = pr_expiresAt pr div 1000 \<and> oc_nonce req = pv_nonce v \<and>
     oc_signature req = ''0x'' @ or_null_str (pv_signatureHash v)"

text \<open>A new settlement record and the two changes the service makes to it.\<close>

definition new_settlement :: "string \<Rightarrow> string \<Rightarrow> string option \<Rightarrow> int \<Rightarrow> payment_settlement" where
  "new_settlement settlementId requestId referralCode now =
     \<lparr>ps_id = settlementId, ps_requestId = requestId, ps_status = SProcessing,
      ps_settlementId = Some settlementId, ps_txHash = None, ps_feeAmount = None,
      ps_referralCode = referralCode, ps_developerShare = None, ps_confirmedAt = None,
      ps_createdAt = now\<rparr>"

lemma new_settlement_simps [simp]:
  "ps_id (new_settlement sid rid ref now) = sid"
  "ps_requestId (new_settlement sid rid ref now) = rid"
  "ps_status (new_settlement sid rid ref now) = SProcessing"
  by (simp_all add: new_settlement_def)

definition lock_world :: "string \<Rightarrow> string \<Rightarrow> string option \<Rightarrow> int \<Rightarrow> world \<Rightarrow> world" where
  "lock_world requestId settlementId referralCode now w =
     w\<lparr>keys := (keys w)(lock_key requestId \<mapsto> 1),
       settlements := settlements w @ [new_settlement settlementId requestId referralCode now]\<rparr>"

text \<open>Settlement records are never removed, and never change their request.\<close>

definition grows :: "world \<Rightarrow> world \<Rightarrow> bool" where
  "grows w w' \<longleftrightarrow> (\<exists>new. map ps_requestId (settlements w') = map ps_requestId (settlements w) @ new)"

interpretation grows: step_relation grows
  by unfold_locales (auto simp: grows_def)

lemma grows_same: "settlements w' = settlements w \<Longrightarrow> grows w w'"
  by (simp add: grows_def)

lemma steps_grows_same: "(\<And>w r w'. m w = (r, w') \<Longrightarrow> settlements w' = settlements w) \<Longrightarrow> steps grows m"
  by (rule stepsI) (blast intro: grows_same)

locale settle_service =
  redis_store "st_redis S" + V: prisma_table "st_verification S" verification_clash +
  B: prisma_table "st_settlement S" settlement_clash +
  C: prisma_table "st_receipt S" receipt_clash + L: prisma_table "st_seller S" seller_clash +
  T: transactional "st_tx S" for S :: settle_env
begin

lemma check_same: "settle_check S rid vid clock w = (r, w') \<Longrightarrow> w' = w"
  unfolding settle_check_def
  by (cases r) (auto simp: run_simps dest!: settleReject_run settle_existing_run V.find_same B.find_same
      include_row_same)

lemma check_proceed:
  assumes "settle_check S rid vid clock w = (Inr (Proceed v pr nw), w')"
  shows "v \<in> set (verifications w) \<and> pv_id v = vid \<and> pv_requestId v = rid \<and> pv_status v = VAccepted \<and>
    List.find (\<lambda>r. pr_id r = rid) (requests w) = Some pr \<and>
    List.find (\<lambda>n. nw_id n = pr_networkId pr) (networks w) = Some nw \<and>
    (\<forall>s\<in>set (settlements w). ps_requestId s \<noteq> rid)"
  using assms unfolding settle_check_def
  by (auto simp: run_simps dest!: V.find_Some B.find_None)

lemma check_answer:
  assumes "settle_check S rid vid clock w = (Inr (Answer (Settled ok)), w')"
  shows "(\<exists>v\<in>set (verifications w). pv_id v = vid \<and> pv_requestId v = rid \<and> pv_status v = VAccepted) \<and>
    so_requestId ok = rid \<and> (\<exists>s\<in>set (settlements w). ps_requestId s = rid \<and> ps_status s = SConfirmed \<and>
      ps_id s = so_settlementId ok \<and> ps_txHash s = so_txHash ok)"
  using assms unfolding settle_check_def
  by (auto simp: run_simps dest!: settleReject_run settle_existing_run V.find_Some B.find_Some)

lemma payee_same: "settle_payee S pr w = (r, w') \<Longrightarrow> w' = w"
  unfolding settle_payee_def
  by (cases r) (auto simp: run_simps dest!: L.find_same)

lemma commit_ok:
  assumes "st_tx S (settle_commit S sid f rcpt) (ss, rs) = (Inr u, (ss', rs'))"
  shows "rs' = rs @ [rcpt] \<and> (\<forall>q\<in>set rs. \<not> receipt_clash rcpt q) \<and>
    (\<exists>us v vs. ss = us @ v # vs \<and> ps_id v = sid \<and> ss' = us @ f v # vs)"
  using T.tx_ok [OF assms] unfolding settle_commit_def
  by (auto simp: run_simps dest!: B.update_ok C.create_ok)

lemma check_clock:
  "settle_check S rid vid clock w = (Inr (Proceed v pr nw), w') \<Longrightarrow>
     settle_check S rid vid clock' w = (Inr (Proceed v pr nw), w')"
  unfolding settle_check_def by (fastforce simp: run_simps split: option.splits)

lemma commit_err:
  assumes "st_tx S (settle_commit S sid f rcpt) d = (Inl e, d')"
  shows "d' = d"
  using T.tx_err [OF assms] .

lemma submit_err_frame:
  assumes "settle_submit S rid ref v pr nw sid rcid now w = (Inl e, w')"
  shows "map ps_id (settlements w') = map ps_id (settlements w)"
    and "map ps_requestId (settlements w') = map ps_requestId (settlements w)"
proof -
  have "map ps_id (settlements w') = map ps_id (settlements w) \<and>
    map ps_requestId (settlements w') = map ps_requestId (settlements w)"
    using assms unfolding settle_submit_def in_transaction_def
    by (auto simp: run_simps js_BigInt_def dest!: payee_same commit_ok commit_err)
  then show "map ps_id (settlements w') = map ps_id (settlements w)"
    and "map ps_requestId (settlements w') = map ps_requestId (settlements w)" by simp_all
qed

lemma submit_trace:
  assumes "settle_submit S rid ref v pr nw sid rcid now w = (Inr resp, w')"
  shows "\<exists>network asset payee res log fees confirmed ss rs k.
    getNetwork (st_registry S) (nw_chainId nw) = Some network \<and>
    List.find (\<lambda>a. as_symbol a = pr_asset pr) (nc_assets network) = Some asset \<and>
    settle_payee S pr w = (Inr payee, w) \<and>
    submitOnChain (st_chain S)
      \<lparr>oc_from = pr_buyerAddress pr, oc_to = payee, oc_value = bigint_of (pr_amount pr),
       oc_validAfter = 0, oc_validBefore = pr_expiresAt pr div 1000,
       oc_nonce = pv_nonce v, oc_signature = ''0x'' @ or_null_str (pv_signatureHash v),
       oc_assetAddress = as_address asset, oc_rpcUrl = nc_rpcUrl network,
       oc_fallbackRpcUrl = nc_fallbackRpcUrl network\<rparr> (submitted w) = (Inr res, log) \<and>
    st_tx S (settle_commit S sid
      (\<lambda>s. s\<lparr>ps_status := SConfirmed, ps_txHash := Some (or_txHash res),
            ps_feeAmount := Some (int_str (cf_platformFee fees)),
            ps_developerShare := Some (int_str (cf_developerShare fees)), ps_confirmedAt := Some now\<rparr>)
      \<lparr>rc_id = rcid, rc_requestId = rid, rc_protocolVersion = ''x402-v1'',
       rc_responsePayload = receipt_payload sid (or_txHash res) network pr (bigint_of (pr_amount pr)) fees ref confirmed,
       rc_createdAt = now\<rparr>) (settlements w, receipts w) = (Inr (), (ss, rs)) \<and>
    redis_del (st_redis S) (lock_key rid) (keys w) = (Inr (), k) \<and>
    w' = w\<lparr>submitted := log, settlements := ss, receipts := rs, keys := k\<rparr> \<and>
    resp = Settled
       \<lparr>so_requestId = rid, so_settlementId = sid, so_txHash = Some (or_txHash res),
        so_feeAmount = Some (int_str (cf_platformFee fees)),
        so_developerShare = Some (int_str (cf_developerShare fees)), so_receiptId = Some rcid,
        so_confirmedAt = Some confirmed, so_settledAt = confirmed\<rparr>"
  using assms unfolding settle_submit_def in_transaction_def
  by (auto simp: run_simps js_BigInt_def)
     (frule payee_same, simp, frule payee_same, hypsubst, intro exI conjI, assumption, assumption, assumption, simp_all)

lemma submit_ok:
  assumes "settle_submit S rid ref v pr nw sid rcid now w = (Inr resp, w')"
  shows "\<exists>ok hash. resp = Settled ok \<and> so_requestId ok = rid \<and> so_settlementId ok = sid \<and>
    so_txHash ok = Some hash \<and>
    (\<exists>us x y vs. settlements w = us @ x # vs \<and> ps_id x = sid \<and> settlements w' = us @ y # vs \<and>
       ps_id y = sid \<and> ps_requestId y = ps_requestId x \<and> ps_status y = SConfirmed \<and> ps_txHash y = Some hash) \<and>
    (\<forall>q\<in>set (receipts w). rc_requestId q \<noteq> rid) \<and>
    keys w' (lock_key rid) = None \<and>
    (\<exists>req res. submitOnChain (st_chain S) req (submitted w) = (Inr res, submitted w') \<and> or_txHash res = hash \<and>
       transfer_of pr v req)"
  using submit_trace [OF assms]
proof (elim exE conjE, goal_cases)
  case (1 network asset payee res log fees confirmed ss rs k)
  note c = commit_ok [OF 1(5)]
  from c obtain us x vs where "settlements w = us @ x # vs" "ps_id x = sid"
    "ss = us @ x\<lparr>ps_status := SConfirmed, ps_txHash := Some (or_txHash res),
            ps_feeAmount := Some (int_str (cf_platformFee fees)),
            ps_developerShare := Some (int_str (cf_developerShare fees)), ps_confirmedAt := Some now\<rparr> # vs"
    by blast
  moreover have "\<forall>q\<in>set (receipts w). rc_requestId q \<noteq> rid"
    using c by (auto simp: receipt_clash_def)
  moreover have "k (lock_key rid) = None" using del_ok [OF 1(6)] by simp
  moreover have "transfer_of pr v \<lparr>oc_from = pr_buyerAddress pr, oc_to = payee, oc_value = bigint_of (pr_amount pr),
       oc_validAfter = 0, oc_validBefore = pr_expiresAt pr div 1000,
       oc_nonce = pv_nonce v, oc_signature = ''0x'' @ or_null_str (pv_signatureHash v),
       oc_assetAddress = as_address asset, oc_rpcUrl = nc_rpcUrl network,
       oc_fallbackRpcUrl = nc_fallbackRpcUrl network\<rparr>" by (simp add: transfer_of_def)
  ultimately show ?case using 1(4,7,8) by fastforce
qed

text \<open>Each pass through the service adds submissions of one transfer only.\<close>

lemma submit_log_grows:
  assumes "settle_submit S rid ref v pr nw sid rcid now w = (r, w')"
  shows "\<exists>more. submitted w' = submitted w @ more"
proof -
  have onchain: "submitOnChain (st_chain S) req log = (r0, log') \<Longrightarrow> \<exists>more. log' = log @ more" for req log r0 log'
    using submit_log by blast
  show ?thesis
  proof (cases r)
    case (Inl e)
    then show ?thesis using assms unfolding settle_submit_def in_transaction_def
      by (auto simp: run_simps js_BigInt_def dest!: payee_same onchain)
  next
    case (Inr resp)
    then show ?thesis using submit_ok [of rid ref v pr nw sid rcid now w resp w'] assms onchain by blast
  qed
qed

text \<open>A request that has a receipt gets no second one.\<close>

lemma submit_twice:
  assumes "settle_submit S rid ref v pr nw sid rcid now w = (r, w')"
    and "\<exists>q\<in>set (receipts w). rc_requestId q = rid"
  shows "receipts w' = receipts w"
proof (cases r)
  case (Inr resp)
  then show ?thesis using submit_ok assms by blast
next
  case (Inl e)
  have "receipt_clash \<lparr>rc_id = rcid, rc_requestId = rid, rc_protocolVersion = ver, rc_responsePayload = pl,
      rc_createdAt = t\<rparr> q" if "rc_requestId q = rid" for q ver pl t
    using that by (simp add: receipt_clash_def)
  with assms Inl show ?thesis unfolding settle_submit_def in_transaction_def
    by (fastforce simp: run_simps js_BigInt_def dest!: payee_same commit_ok commit_err)
qed

lemma payee_other:
  assumes "settle_payee S pr w = (Inr payee, w)" and "sellers x = sellers w"
  shows "settle_payee S pr x = (Inr payee, x)"
proof (cases "\<exists>c cs. pr_sellerId pr = Some (c # cs)")
  case True
  then obtain c cs where c: "pr_sellerId pr = Some (c # cs)" by blast
  from assms(1) c obtain found t where f: "db_find (st_seller S) (\<lambda>s. se_id s = c # cs) (sellers w) = (Inr found, t)"
    and payee: "payee = map_option se_walletAddress found"
    by (auto simp: settle_payee_def run_simps)
  have "t = sellers x" using L.find_same [OF f] assms(2) by simp
  then show ?thesis using f assms(2) c payee
    by (simp add: settle_payee_def seq_def zoom_defs zoom_def ret_def)
next
  case False
  then show ?thesis using assms(1)
    by (auto simp: settle_payee_def ret_def split: option.splits list.splits)
qed

text \<open>Where one submission of a request went through, a later one with the same verification
  reaches the chain again, whatever becomes of it: with the same transfer.\<close>

lemma submit_again:
  assumes "settle_submit S rid ref v pr nw sid rcid now w = (Inr resp, w')"
    and "settle_submit S rid ref2 v pr nw sid2 rcid2 now2 x = (r, x')" and "sellers x = sellers w"
  shows "\<exists>call first second. submitted w' = submitted w @ first \<and> submitted x' = submitted x @ second \<and>
    first \<noteq> [] \<and> second \<noteq> [] \<and> snd ` set (first @ second) = {call} \<and>
    tc_from call = pr_buyerAddress pr \<and> tc_value call = bigint_of (pr_amount pr) \<and> tc_nonce call = pv_nonce v"
  using submit_trace [OF assms(1)]
proof (elim exE conjE, goal_cases)
  case (1 network asset payee res log fees confirmed ss rs k)
  define req where "req = \<lparr>oc_from = pr_buyerAddress pr, oc_to = payee, oc_value = bigint_of (pr_amount pr),
       oc_validAfter = 0, oc_validBefore = pr_expiresAt pr div 1000,
       oc_nonce = pv_nonce v, oc_signature = ''0x'' @ or_null_str (pv_signatureHash v),
       oc_assetAddress = as_address asset, oc_rpcUrl = nc_rpcUrl network,
       oc_fallbackRpcUrl = nc_fallbackRpcUrl network\<rparr>"
  have ok: "submitOnChain (st_chain S) req (submitted w) = (Inr res, log)" using 1(4) by (simp add: req_def)
  from submit_ok_trace [OF ok] obtain i where i: "i < length (rpc_urls req)"
    "log = submitted w @ map (\<lambda>u. (u, call_of req)) (take (Suc i) (rpc_urls req))" by blast
  obtain a where a: "rpc_account (st_chain S) = Inr a"
    using ok by (auto simp: submitOnChain_def run_simps)
  have ne: "rpc_urls req \<noteq> []" using i(1) by auto
  have p: "settle_payee S pr x = (Inr payee, x)" using payee_other [OF 1(3) assms(3)] .
  have d: "decimal (pr_amount pr)"
    using assms(1) 1(1,2) unfolding settle_submit_def by (auto simp: run_simps js_BigInt_def split: if_splits)
  obtain r1 log1 where s2: "submitOnChain (st_chain S) req (submitted x) = (r1, log1)" by fastforce
  from submit_nonempty [OF s2 a ne] obtain j where j: "1 \<le> j"
    "log1 = submitted x @ map (\<lambda>u. (u, call_of req)) (take j (rpc_urls req))" by blast
  have "submitted x' = log1"
    using assms(2) s2 unfolding settle_submit_def in_transaction_def
    by (cases r) (auto simp: run_simps js_BigInt_def d 1(1,2) p req_def)
  moreover have "take (Suc i) (rpc_urls req) \<noteq> []" "take j (rpc_urls req) \<noteq> []" using ne j(1) by auto
  moreover have "snd ` set (map (\<lambda>u. (u, call_of req)) us) = {call_of req}" if "us \<noteq> []" for us :: "string list"
    using that by (cases us) auto
  moreover have "tc_from (call_of req) = pr_buyerAddress pr" "tc_value (call_of req) = bigint_of (pr_amount pr)"
    "tc_nonce (call_of req) = pv_nonce v" by (simp_all add: call_of_def req_def Let_def)
  ultimately show ?case using i j 1(7)
    by (intro exI [of _ "call_of req"] exI [of _ "map (\<lambda>u. (u, call_of req)) (take (Suc i) (rpc_urls req))"]
        exI [of _ "map (\<lambda>u. (u, call_of req)) (take j (rpc_urls req))"] conjI) (simp_all only: set_append image_Un, auto)
qed

lemma locked_cases:
  assumes "settle_locked S rid ref v pr nw sid rcid now clock w = (Inr resp, w')"
  obtains (Busy) f where "keys w (lock_key rid) \<noteq> None" "resp = NotSettled f" "w' = w"
    | (Done) "keys w (lock_key rid) = None"
        "\<forall>q\<in>set (settlements w). \<not> settlement_clash (new_settlement sid rid ref now) q"
        "settle_submit S rid ref v pr nw sid rcid now (lock_world rid sid ref now w) = (Inr resp, w')"
    | (Failed) e w2 f where "keys w (lock_key rid) = None"
        "settle_submit S rid ref v pr nw sid rcid now (lock_world rid sid ref now w) = (Inl e, w2)"
        "resp = NotSettled f" "sf_code f = ''settlement_failed''"
        "settlements w' = snd (db_update (st_settlement S) (\<lambda>s. ps_id s = sid)
           (\<lambda>s. s\<lparr>ps_status := SFailed\<rparr>) (settlements w2))"
        "keys w' = snd (redis_del (st_redis S) (lock_key rid) (keys w2))"
        "submitted w' = submitted w2" "receipts w' = receipts w2"
proof -
  from assms obtain b k where l: "redis_set_nx (st_redis S) (lock_key rid) LOCK_TTL_SECONDS (keys w) = (Inr b, k)"
    unfolding settle_locked_def by (auto simp: run_simps)
  note k = set_nx_ok [OF l]
  show thesis
  proof (cases b)
    case False
    then have "w' = w \<and> (\<exists>f. resp = NotSettled f)"
      using assms l k unfolding settle_locked_def by (auto simp: run_simps dest!: settleReject_run)
    then show thesis using Busy k False by auto
  next
    case True
    then have lw: "w\<lparr>keys := k, settlements := settlements w @ [new_settlement sid rid ref now]\<rparr> =
        lock_world rid sid ref now w" using k by (simp add: lock_world_def)
    from assms l True obtain r1 w1 where
      nc: "\<forall>q\<in>set (settlements w). \<not> settlement_clash (new_settlement sid rid ref now) q" and
      s: "settle_submit S rid ref v pr nw sid rcid now (lock_world rid sid ref now w) = (r1, w1)"
      unfolding settle_locked_def new_settlement_def [symmetric] lw [symmetric]
      by (cases "settle_submit S rid ref v pr nw sid rcid now
             (w\<lparr>keys := k, settlements := settlements w @ [new_settlement sid rid ref now]\<rparr>)")
         (auto simp: run_simps dest!: B.create_ok)
    show thesis
    proof (cases r1)
      case (Inr x)
      then have "resp = x" "w' = w1"
        using assms l True s unfolding settle_locked_def new_settlement_def [symmetric]
        by (auto simp: run_simps lw dest!: B.create_ok)
      then show thesis using Done nc s k True Inr by auto
    next
      case (Inl e)
      have "\<exists>f. resp = NotSettled f \<and> sf_code f = ''settlement_failed'' \<and>
        settlements w' = snd (db_update (st_settlement S) (\<lambda>s. ps_id s = sid)
           (\<lambda>s. s\<lparr>ps_status := SFailed\<rparr>) (settlements w1)) \<and>
        keys w' = snd (redis_del (st_redis S) (lock_key rid) (keys w1)) \<and> submitted w' = submitted w1 \<and>
        receipts w' = receipts w1"
        using assms l True s Inl unfolding settle_locked_def new_settlement_def [symmetric]
        by (auto simp: run_simps lw dest!: B.create_ok settleReject_run)
      then show thesis using Failed s k True Inl by auto
    qed
  qed
qed

lemma locked_confirmed:
  assumes "settle_locked S rid ref v pr nw sid rcid now clock w = (Inr (Settled ok), w')"
  shows "so_requestId ok = rid \<and>
    (\<exists>s\<in>set (settlements w'). ps_requestId s = rid \<and> ps_status s = SConfirmed \<and>
       ps_id s = so_settlementId ok \<and> ps_txHash s = so_txHash ok) \<and>
    (\<exists>req res. submitOnChain (st_chain S) req (submitted w) = (Inr res, submitted w') \<and>
       so_txHash ok = Some (or_txHash res) \<and> transfer_of pr v req) \<and>
    (\<forall>q\<in>set (receipts w). rc_requestId q \<noteq> rid) \<and> keys w' (lock_key rid) = None"
proof -
  from assms obtain w1 where w1: "w1 = lock_world rid sid ref now w" and
    nc: "\<forall>q\<in>set (settlements w). \<not> settlement_clash (new_settlement sid rid ref now) q" and
    s: "settle_submit S rid ref v pr nw sid rcid now w1 = (Inr (Settled ok), w')"
    by (cases rule: locked_cases) auto
  have w1: "settlements w1 = settlements w @ [new_settlement sid rid ref now]"
    "submitted w1 = submitted w" "receipts w1 = receipts w"
    "\<forall>q\<in>set (settlements w). \<not> settlement_clash (new_settlement sid rid ref now) q"
    using w1 nc by (simp_all add: lock_world_def)
  from submit_ok [OF s] obtain us x y vs where
    x: "settlements w1 = us @ x # vs" "ps_id x = sid" "settlements w' = us @ y # vs"
      "ps_id y = sid" "ps_requestId y = ps_requestId x" "ps_status y = SConfirmed" "ps_txHash y = so_txHash ok"
      "so_settlementId ok = sid"
    by fastforce
  have "x \<in> set (settlements w1)" using x(1) by simp
  then have "ps_requestId x = rid"
    using w1(1,4) x(2) by (auto simp: settlement_clash_def) (metis new_settlement_simps(2))
  moreover have "y \<in> set (settlements w')" using x(3) by simp
  ultimately show ?thesis using submit_ok [OF s] x w1(2,3) by fastforce
qed

lemma steps_grows_keys: "steps grows (on_keys m)"
  by (rule steps_grows_same) (auto simp: run_simps)

lemma steps_grows_create: "steps grows (on_settlements (db_create (st_settlement S) x))"
  by (rule stepsI) (auto simp: run_simps grows_def elim: B.create_cases)

lemma steps_grows_update:
  "(\<And>s. ps_requestId (f s) = ps_requestId s) \<Longrightarrow> steps grows (on_settlements (db_update (st_settlement S) p f))"
  by (rule stepsI) (auto simp: run_simps grows_def elim!: B.update_cases)

lemma commit_requestIds:
  assumes "st_tx S (settle_commit S sid f rcpt) (ss, rs) = (r, (ss', rs'))"
    and "\<And>s. ps_requestId (f s) = ps_requestId s"
  shows "map ps_requestId ss' = map ps_requestId ss"
  using assms commit_ok [of sid f rcpt ss rs] commit_err [of sid f rcpt "(ss, rs)"] by (cases r) fastforce+

lemma steps_grows_commit:
  "(\<And>s. ps_requestId (f s) = ps_requestId s) \<Longrightarrow> steps grows (in_transaction (st_tx S (settle_commit S sid f rcpt)))"
  by (rule stepsI) (auto simp: in_transaction_def run_simps grows_def dest: commit_requestIds)

lemma steps_grows_submit: "steps grows (settle_submit S rid ref v pr nw sid rcid now)"
  unfolding settle_submit_def
  by (intro grows.steps_intros steps_grows_keys steps_grows_commit)
     (auto intro!: steps_grows_same simp: run_simps dest: js_BigInt_same payee_same iso_same)

lemma steps_grows_catch:
  "steps grows (seq (ignore_errors (on_settlements (db_update (st_settlement S)
                   (\<lambda>s. ps_id s = sid) (\<lambda>s. s\<lparr>ps_status := SFailed\<rparr>)))) (\<lambda>_.
            seq (ignore_errors (on_keys (redis_del (st_redis S) (lock_key rid)))) (\<lambda>_.
            settleReject clock rid code msg st)))"
  by (intro grows.steps_intros steps_grows_keys steps_grows_update)
     (auto intro!: steps_grows_same dest: settleReject_run)

end

text \<open>Nothing is submitted for a request without leaving a settlement record of it.\<close>

definition recorded :: "string \<Rightarrow> world \<Rightarrow> world \<Rightarrow> bool" where
  "recorded rid w w' \<longleftrightarrow> grows w w' \<and>
     (submitted w' = submitted w \<or> rid \<in> ps_requestId ` set (settlements w'))"

lemma grows_member: "grows w w' \<Longrightarrow> rid \<in> ps_requestId ` set (settlements w) \<Longrightarrow>
    rid \<in> ps_requestId ` set (settlements w')"
  unfolding grows_def by (metis Un_iff image_set set_append)

interpretation recorded: step_relation "recorded rid" for rid
proof unfold_locales
  fix w1 w2 w3
  assume "recorded rid w1 w2" "recorded rid w2 w3"
  then show "recorded rid w1 w3"
    unfolding recorded_def by (metis grows.rel_trans grows_member)
qed (simp add: recorded_def grows.rel_refl)

lemma steps_recorded_same:
  "(\<And>w r w'. m w = (r, w') \<Longrightarrow> settlements w' = settlements w \<and> submitted w' = submitted w) \<Longrightarrow>
     steps (recorded rid) m"
  by (rule stepsI) (auto simp: recorded_def intro: grows_same)

context settle_service
begin

lemma steps_recorded_locked:
  "steps (recorded rid) (settle_locked S rid ref v pr nw sid rcid now clock)"
proof -
  let ?create = "on_settlements (db_create (st_settlement S) (new_settlement sid rid ref now))"
  have rest: "steps (recorded rid) (seq ?create (\<lambda>_. k))" if k: "steps grows k" for k :: "(world, exn, settle_response) prog"
  proof (rule stepsI)
    fix w r w'
    assume run: "seq ?create (\<lambda>_. k) w = (r, w')"
    obtain c w1 where c: "?create w = (c, w1)" by fastforce
    show "recorded rid w w'"
    proof (cases c)
      case (Inl e)
      then have "w' = w1" using run c by (simp add: seq_def)
      then show ?thesis using c Inl by (auto simp: recorded_def run_simps grows_def dest: B.create_err)
    next
      case (Inr x)
      then have "k w1 = (r, w')" using run c by (simp add: seq_def)
      then have g: "grows w1 w'" using stepsD [OF k] by blast
      have "rid \<in> ps_requestId ` set (settlements w1)"
        using c Inr by (auto simp: run_simps dest!: B.create_ok)
      moreover have "grows w w1" using stepsD [OF steps_grows_create c] .
      ultimately show ?thesis
        using g grows_member grows.rel_trans unfolding recorded_def by blast
    qed
  qed
  show ?thesis
    unfolding settle_locked_def new_settlement_def [symmetric]
    by (intro recorded.steps_seq recorded.steps_if rest grows.steps_try_catch steps_grows_submit steps_grows_catch)
       (auto intro!: steps_recorded_same simp: run_simps dest: settleReject_run)
qed

lemma steps_recorded_run: "steps (recorded rid) (runSettle S rid vid ref sid rcid now clock)"
proof -
  have "steps (recorded rid) (case c of Answer r \<Rightarrow> ret r
      | Proceed v pr nw \<Rightarrow> settle_locked S rid ref v pr nw sid rcid now clock)" for c
    by (cases c) (auto intro: recorded.steps_ret steps_recorded_locked)
  then show ?thesis
    unfolding runSettle_def
    by (intro recorded.steps_seq) (auto intro!: steps_recorded_same dest: check_same)
qed

lemma run_existing:
  assumes "runSettle S rid vid ref sid rcid now clock w = (r, w')"
    and "rid \<in> ps_requestId ` set (settlements w)"
  shows "w' = w"
proof -
  obtain c w1 where c: "settle_check S rid vid clock w = (c, w1)" by fastforce
  have "w1 = w" using check_same [OF c] .
  show ?thesis
  proof (cases c)
    case (Inl e)
    then show ?thesis using assms(1) c \<open>w1 = w\<close> by (simp add: runSettle_def seq_def)
  next
    case (Inr x)
    then have "\<exists>a. x = Answer a" using check_proceed assms(2) c by (cases x) fastforce+
    then show ?thesis using assms(1) c \<open>w1 = w\<close> Inr by (auto simp: runSettle_def seq_def ret_def)
  qed
qed

lemma run_cases:
  assumes "runSettle S rid vid ref sid rcid now clock w = (Inr resp, w')"
  obtains (Answer) "settle_check S rid vid clock w = (Inr (Answer resp), w)" "w' = w"
    | (Locked) v pr nw where "settle_check S rid vid clock w = (Inr (Proceed v pr nw), w)"
        "settle_locked S rid ref v pr nw sid rcid now clock w = (Inr resp, w')"
proof -
  from assms obtain c w1 where c: "settle_check S rid vid clock w = (Inr c, w1)"
    unfolding runSettle_def by (auto simp: run_simps)
  have "w1 = w" using check_same [OF c] .
  then show thesis
    using assms c that by (cases c) (auto simp: runSettle_def run_simps seq_def)
qed

end

section \<open>An instance\<close>

definition sample_settle :: settle_env where
  "sample_settle =
     \<lparr>st_redis = mock_redis, st_verification = table_of verification_clash,
      st_settlement = table_of settlement_clash, st_receipt = table_of receipt_clash,
      st_seller = table_of seller_clash, st_tx = pg_transaction, st_chain = sample_chain,
      st_computeFees = (\<lambda>g. Inr \<lparr>cf_platformFee = 5, cf_developerShare = 0, cf_netAmount = g - 5, cf_feeBps = 50\<rparr>),
      st_registry = registry_load (DEFAULT_NETWORKS Map.empty)\<rparr>"

lemma sample_settle_service: "settle_service sample_settle"
  by (simp add: settle_service_def sample_settle_def mock_redis_store table_of_prisma pg_transactional)

interpretation sample_settle: settle_service sample_settle
  by (rule sample_settle_service)

definition settle_verification :: payment_verification where
  "settle_verification = \<lparr>pv_id = ''v1'', pv_requestId = ''r1'', pv_status = VAccepted, pv_errorCode = None,
     pv_reason = None, pv_signatureHash = Some ''abcd'', pv_nonce = Some ''0x01'', pv_payloadHash = None,
     pv_createdAt = 0\<rparr>"

definition settle_request :: payment_request where
  "settle_request = \<lparr>pr_id = ''r1'', pr_sellerId = None, pr_buyerAddress = ''0xbuyer'', pr_networkId = ''net1'',
     pr_asset = ''USDC'', pr_amount = ''1500'', pr_invoiceId = ''i'', pr_scheme = ''exact'',
     pr_expiresAt = 2000000, pr_createdAt = 0\<rparr>"

definition settle_world :: world where
  "settle_world = empty_world\<lparr>networks := [base_network], requests := [settle_request],
     verifications := [settle_verification]\<rparr>"

lemma sample_network:
  "getNetwork (registry_load (DEFAULT_NETWORKS Map.empty)) 8453 = Some base_config"
  "nc_rpcUrl base_config = ''https://mainnet.base.org''" "nc_fallbackRpcUrl base_config = None"
  "List.find (\<lambda>a. as_symbol a = ''USDC'') (nc_assets base_config) = Some usdc_on_base"
  by (simp_all add: getNetwork_load DEFAULT_NETWORKS_def base_config_def usdc_on_base_def env_or_def USDC_def)

lemma sample_digits: "decimal ''1500''"
  by code_simp

lemma settle_times:
  "toISOString 1000000 = Some ''1970-01-01T00:16:40.000Z''"
  by code_simp

lemmas settle_run_simps = runSettle_def settle_check_def settle_existing_def settle_locked_def settle_submit_def settle_payee_def
  settle_commit_def settleReject_def iso_def iso_opt_def settle_times zoom_defs zoom_def in_transaction_def seq_def
  ret_def throw_def of_sum_def try_catch_def ignore_errors_def mock_redis_def table_of_def empty_world_def Let_def
  include_row_def include_opt_def js_BigInt_def pg_transaction_def sample_network sample_digits
  submitOnChain_def rpc_urls_def rpc_attempt_def writeContract_def waitForTransactionReceipt_def sample_chain_def
  sample_settle_def settle_world_def settle_request_def settle_verification_def base_network_def

fun settled_result :: "(exn + settle_response) \<times> world \<Rightarrow> bool" where
  "settled_result (Inr (Settled ok), w) = True"
| "settled_result _ = False"

lemma settled_result_iff: "settled_result r \<longleftrightarrow> (\<exists>ok w. r = (Inr (Settled ok), w))"
  by (cases r rule: settled_result.cases) auto

lemma sample_settles:
  "settled_result (runSettle sample_settle ''r1'' ''v1'' None ''s1'' ''q1'' 1000000 1000000 settle_world)"
  by (simp add: settle_run_simps)

section \<open>Properties\<close>



text \<open>Idempotence: when the request has a settlement record, whatever its status, the call
  changes nothing at all, neither in Redis nor in PostgreSQL nor on the chain.\<close>

theorem settle_idempotent:
  assumes "settle_service S" and "\<exists>s\<in>set (settlements w). ps_requestId s = rid"
    and "runSettle S rid vid ref sid rcid now clock w = (r, w')"
  shows "w' = w"
  using settle_service.run_existing [OF assms(1,3)] assms(2) by auto

theorem settle_idempotent_witness:
  "\<exists>w1. snd (runSettle sample_settle ''r1'' ''v1'' None ''s1'' ''q1'' 1000000 1000000 settle_world) = w1 \<and>
     snd (runSettle sample_settle ''r1'' ''v1'' None ''s2'' ''q2'' 1000000 1000000 w1) = w1"
proof -
  obtain ok w1 where run: "runSettle sample_settle ''r1'' ''v1'' None ''s1'' ''q1'' 1000000 1000000 settle_world
       = (Inr (Settled ok), w1)"
    using sample_settles by (auto simp: settled_result_iff)
  obtain r w2 where again: "runSettle sample_settle ''r1'' ''v1'' None ''s2'' ''q2'' 1000000 1000000 w1 = (r, w2)"
    by fastforce
  have "\<exists>s\<in>set (settlements w1). ps_requestId s = ''r1''"
    using settle_service.run_existing sample_settle.run_cases [OF run]
      sample_settle.check_answer sample_settle.locked_confirmed
    by (metis)
  from settle_idempotent [OF sample_settle_service this again] run again show ?thesis by simp
qed

text \<open>C4. One settlement at a time: if a call submitted anything to the chain for a request,
  then no later call for that request, made while the settlement records are kept, submits
  anything again or changes any state, even if the first call failed or threw.\<close>

theorem settle_submits_once:
  assumes "settle_service S" and "settle_service S'"
    and "runSettle S rid vid ref sid rcid now clock w = (r, w1)" and "submitted w1 \<noteq> submitted w"
    and "grows w1 w2"
    and "runSettle S' rid vid' ref' sid' rcid' now' clock' w2 = (r', w3)"
  shows "w3 = w2"
proof -
  have "recorded rid w w1" using stepsD [OF settle_service.steps_recorded_run [OF assms(1)] assms(3)] .
  then have "rid \<in> ps_requestId ` set (settlements w1)" using assms(4) by (simp add: recorded_def)
  then have "rid \<in> ps_requestId ` set (settlements w2)" using grows_member [OF assms(5)] by simp
  then show ?thesis using settle_service.run_existing [OF assms(2,6)] by simp
qed

theorem settle_submits_once_witness:
  "submitted (snd (runSettle sample_settle ''r1'' ''v1'' None ''s1'' ''q1'' 1000000 1000000 settle_world)) \<noteq> [] \<and>
   (let w1 = snd (runSettle sample_settle ''r1'' ''v1'' None ''s1'' ''q1'' 1000000 1000000 settle_world)
    in snd (runSettle sample_settle ''r1'' ''v1'' None ''s2'' ''q2'' 1000000 1000000 w1) = w1)"
proof -
  let ?run = "runSettle sample_settle ''r1'' ''v1'' None ''s1'' ''q1'' 1000000 1000000 settle_world"
  have sub: "submitted (snd ?run) \<noteq> submitted settle_world"
    by (simp add: settle_run_simps)
  then have "submitted (snd ?run) \<noteq> []" by (simp add: settle_world_def empty_world_def)
  moreover have "snd (runSettle sample_settle ''r1'' ''v1'' None ''s2'' ''q2'' 1000000 1000000 (snd ?run)) = snd ?run"
    by (rule settle_submits_once [OF sample_settle_service sample_settle_service
          prod.collapse [symmetric] sub grows.rel_refl prod.collapse [symmetric]])
  ultimately show ?thesis by (simp add: Let_def)
qed

text \<open>The lock is released: with a Redis that answers every \<open>DEL\<close>, a call that returns,
  confirmed or failed, leaves the lock of the request free if it was free before.\<close>

theorem settle_releases_lock:
  assumes "settle_service S" and "\<And>k m. \<exists>m'. redis_del (st_redis S) k m = (Inr (), m')"
    and "keys w (lock_key rid) = None"
    and "runSettle S rid vid ref sid rcid now clock w = (Inr resp, w')"
  shows "keys w' (lock_key rid) = None"
proof -
  have del: "snd (redis_del (st_redis S) (lock_key rid) m) (lock_key rid) = None" for m
    using assms(2) [of "lock_key rid" m] settle_service.axioms(1) [OF assms(1)]
    by (auto dest: redis_store.del_ok)
  from assms(4) show ?thesis
  proof (cases rule: settle_service.run_cases [OF assms(1), consumes 1, case_names Answer Locked])
    case Answer
    then show ?thesis using assms(3) by simp
  next
    case (Locked v pr nw)
    from Locked(2) show ?thesis
    proof (cases rule: settle_service.locked_cases [OF assms(1), consumes 1, case_names Busy Done Failed])
      case Done
      then show ?thesis using settle_service.submit_ok [OF assms(1) Done(3)] by auto
    qed (use assms(3) del in simp_all)
  qed
qed

theorem settle_releases_lock_witness:
  "keys (snd (runSettle sample_settle ''r1'' ''v1'' None ''s1'' ''q1'' 1000000 1000000 settle_world))
     (lock_key ''r1'') = None"
proof -
  obtain ok w1 where run: "runSettle sample_settle ''r1'' ''v1'' None ''s1'' ''q1'' 1000000 1000000 settle_world
       = (Inr (Settled ok), w1)"
    using sample_settles by (auto simp: settled_result_iff)
  have "keys settle_world (lock_key ''r1'') = None" by (simp add: settle_world_def empty_world_def)
  moreover have "\<exists>m'. redis_del (st_redis sample_settle) k m = (Inr (), m')" for k m
    by (simp add: sample_settle_def mock_redis_def)
  ultimately show ?thesis using settle_releases_lock [OF sample_settle_service _ _ run] run by simp
qed

text \<open>C19. Check and lock are not atomic. Take two calls for one request and verification that both
  read the settlement table before either wrote to it; when the first confirms, and the second
  takes the lock that the first has released and returns too, then both have submitted to the
  chain, and every submission of the two is the same transfer under the same authorization. The
  second call reports \<open>settlement_failed\<close>, because the receipt of the request is already there,
  and leaves the receipts as they are.\<close>

theorem settle_double_submission:
  assumes "settle_service S"
    and "settle_check S rid vid clock1 w = (Inr (Proceed v pr nw), w)"
    and "settle_check S rid vid clock2 w = (Inr (Proceed v2 pr2 nw2), w)"
    and "settle_locked S rid ref v pr nw sid rcid now clock1 w = (Inr (Settled ok), w1)"
    and "settle_locked S rid ref2 v2 pr2 nw2 sid2 rcid2 now2 clock2 w1 = (Inr resp, w2)"
  shows "(v \<in> set (verifications w) \<and> pv_id v = vid \<and> List.find (\<lambda>r. pr_id r = rid) (requests w) = Some pr) \<and>
    (\<exists>call first second f. submitted w1 = submitted w @ first \<and> submitted w2 = submitted w1 @ second \<and>
      first \<noteq> [] \<and> second \<noteq> [] \<and> snd ` set (first @ second) = {call} \<and>
      tc_from call = pr_buyerAddress pr \<and> tc_value call = bigint_of (pr_amount pr) \<and> tc_nonce call = pv_nonce v \<and>
      resp = NotSettled f \<and> sf_code f = ''settlement_failed'' \<and> receipts w2 = receipts w1)"
proof -
  have same: "v2 = v" "pr2 = pr" "nw2 = nw"
    using settle_service.check_clock [OF assms(1,2), of clock2] assms(3) by simp_all
  note checked = settle_service.check_proceed [OF assms(1,2)]
  note inv = settle_service.locked_cases [OF assms(1), consumes 1, case_names Busy Done Failed]
  from assms(4) obtain s1: "settle_submit S rid ref v pr nw sid rcid now (lock_world rid sid ref now w) = (Inr (Settled ok), w1)"
    by (cases rule: inv) auto
  note t = settle_service.submit_trace [OF assms(1) s1]
  from t have ok: "so_requestId ok = rid" by auto
  have confirmed: "keys w1 (lock_key rid) = None" "sellers w1 = sellers w"
    and receipt: "\<exists>q\<in>set (receipts w1). rc_requestId q = rid"
    using settle_service.locked_confirmed [OF assms(1,4)] t settle_service.commit_ok [OF assms(1)]
    by (auto simp: lock_world_def dest!: settle_service.commit_ok [OF assms(1)])
  from assms(5) [unfolded same] show ?thesis
  proof (cases rule: inv)
    case (Busy f)
    then show ?thesis using confirmed by simp
  next
    case Done
    then show ?thesis
      using settle_service.submit_ok [OF assms(1) Done(3)] receipt by (auto simp: lock_world_def)
  next
    case (Failed e x2 f)
    have "receipts x2 = receipts (lock_world rid sid2 ref2 now2 w1)"
      by (rule settle_service.submit_twice [OF assms(1) Failed(2)]) (simp add: lock_world_def receipt)
    then have "receipts w2 = receipts w1" using Failed by (simp add: lock_world_def)
    moreover note settle_service.submit_again [OF assms(1) s1 Failed(2)]
    ultimately show ?thesis using Failed confirmed checked by (simp add: lock_world_def)
  qed
qed

theorem settle_double_submission_witness:
  "\<exists>ok f w1 w2.
     settle_locked sample_settle ''r1'' None settle_verification settle_request base_network
       ''s1'' ''q1'' 1000000 1000000 settle_world = (Inr (Settled ok), w1) \<and>
     settle_locked sample_settle ''r1'' None settle_verification settle_request base_network
       ''s2'' ''q2'' 1000000 1000000 w1 = (Inr (NotSettled f), w2) \<and>
     length (submitted w1) = 1 \<and> 2 \<le> length (submitted w2)"
proof -
  let ?locked = "settle_locked sample_settle ''r1'' None settle_verification settle_request base_network"
  let ?w1 = "snd (?locked ''s1'' ''q1'' 1000000 1000000 settle_world)"
  let ?second = "?locked ''s2'' ''q2'' 1000000 1000000 ?w1"
  have check: "settle_check sample_settle ''r1'' ''v1'' 1000000 settle_world =
      (Inr (Proceed settle_verification settle_request base_network), settle_world)"
    by (simp add: settle_run_simps)
  have "settled_result (?locked ''s1'' ''q1'' 1000000 1000000 settle_world)"
    by (simp add: settle_run_simps)
  then obtain ok where first: "?locked ''s1'' ''q1'' 1000000 1000000 settle_world = (Inr (Settled ok), ?w1)"
    by (auto simp: settled_result_iff)
  have n: "length (submitted ?w1) = 1"
    by (simp add: settle_run_simps)
  have "\<exists>resp. fst ?second = Inr resp"
    by (simp add: settle_run_simps settlement_clash_def receipt_clash_def)
  then obtain resp where second: "?second = (Inr resp, snd ?second)" by (metis prod.collapse)
  from settle_double_submission [OF sample_settle_service check check first second]
  obtain more f where "submitted (snd ?second) = submitted ?w1 @ more" "more \<noteq> []" "resp = NotSettled f" by auto
  then have "2 \<le> length (submitted (snd ?second))" "resp = NotSettled f" using n by (auto simp: Suc_le_eq)
  with first second n show ?thesis by metis
qed

text \<open>A lawful Redis that loses the connection before every \<open>DEL\<close>.\<close>

definition no_del_redis :: redis_api where
  "no_del_redis = mock_redis\<lparr>redis_del := (\<lambda>k m. (Inl (plainError ''Connection is closed.''), m))\<rparr>"

lemma no_del_redis_store: "redis_store no_del_redis"
  by unfold_locales (auto simp: no_del_redis_def mock_redis_def Let_def split: if_splits)

text \<open>The release of the lock is inside the \<open>try\<close> block: when the \<open>DEL\<close> fails after the
  transaction committed, the confirmed settlement is overwritten as failed and the caller is
  told the submission failed, although the transfer is confirmed on the chain and its receipt
  is stored.\<close>

theorem settle_release_failure:
  "settle_service (sample_settle\<lparr>st_redis := no_del_redis\<rparr>) \<and>
   (let (r, w') = runSettle (sample_settle\<lparr>st_redis := no_del_redis\<rparr>) ''r1'' ''v1'' None ''s1'' ''q1''
                    1000000 1000000 settle_world
    in (\<exists>f. r = Inr (NotSettled f) \<and> sf_code f = ''settlement_failed'') \<and>
       map ps_status (settlements w') = [SFailed] \<and> map ps_txHash (settlements w') = [Some ''0xhash''] \<and>
       length (receipts w') = 1 \<and> length (submitted w') = 1)"
proof
  show "settle_service (sample_settle\<lparr>st_redis := no_del_redis\<rparr>)"
    using sample_settle_service no_del_redis_store by (simp add: settle_service_def)
qed (simp add: settle_run_simps no_del_redis_def)

end
