(* ===== verification/ConfirmWorker.thy ===== *)
theory ConfirmWorker
  imports Settle
begin

text \<open>
  \<open>src/infrastructure/workers/confirm-settlement.worker.ts\<close>: the job that follows a submitted
  transaction to its receipt. What the endpoints answer to an attempt, \<open>computeFees\<close> (imported
  from \<open>fee-engine.ts\<close>, which does not export it), the stores and the transaction are
  parameters. The queue runs the attempts of a job one after the other; the events it emits
  are calls of the handlers below.
\<close>

section \<open>The queue and the job\<close>

record confirm_job =
  cj_settlementId :: string
  cj_txHash :: string
  cj_requestId :: string
  cj_chainId :: int
  cj_rpcUrl :: string
  cj_fallbackRpcUrl :: "string option"
  cj_grossAmount :: string
  cj_referralCode :: "string option"

record job_options =
  jo_attempts :: nat
  jo_backoffDelay :: nat
  jo_removeOnComplete :: nat
  jo_removeOnFail :: nat

definition settlementQueue_options :: job_options where
  "settlementQueue_options =
     \<lparr>jo_attempts = 5, jo_backoffDelay = 2000, jo_removeOnComplete = 100, jo_removeOnFail = 200\<rparr>"

datatype viem_chain = base | baseSepolia

definition resolveChain :: "int \<Rightarrow> viem_chain" where
  "resolveChain chainId =
     (if chainId = 8453 then base else if chainId = 84532 then baseSepolia else baseSepolia)"

record confirm_env =
  ce_redis :: redis_api
  ce_settlement :: "payment_settlement delegate"
  ce_receipt :: "payment_receipt delegate"
  ce_request :: "payment_request delegate"
  ce_tx :: "(world, unit) transact"
  ce_wait :: "viem_chain \<Rightarrow> string \<Rightarrow> string \<Rightarrow> exn + tx_receipt"
  ce_computeFees :: "int \<Rightarrow> exn + computed_fees"

section \<open>The processor\<close>

text \<open>The endpoints in order; the first receipt ends the loop, an error is logged and skipped.\<close>

fun poll_receipt :: "confirm_env \<Rightarrow> viem_chain \<Rightarrow> string \<Rightarrow> string list \<Rightarrow> tx_receipt option" where
  "poll_receipt E chain hash [] = None"
| "poll_receipt E chain hash (url # urls) =
     (case ce_wait E chain url hash of
        Inr receipt \<Rightarrow> Some receipt
      | Inl err \<Rightarrow> poll_receipt E chain hash urls)"

definition worker_urls :: "confirm_job \<Rightarrow> string list" where
  "worker_urls job = cj_rpcUrl job #
     (case cj_fallbackRpcUrl job of Some (c # cs) \<Rightarrow> [c # cs] | _ \<Rightarrow> [])"

definition worker_payload ::
  "confirm_job \<Rightarrow> string \<Rightarrow> string \<Rightarrow> computed_fees \<Rightarrow> string \<Rightarrow> json" where
  "worker_payload job network assetSymbol fees confirmed = JObj
     [(''settlementId'', JStr (cj_settlementId job)), (''txHash'', JStr (cj_txHash job)),
      (''network'', JStr network), (''asset'', JStr assetSymbol),
      (''grossAmount'', JStr (cj_grossAmount job)), (''feeAmount'', JStr (int_str (cf_platformFee fees))),
      (''developerShare'', JStr (int_str (cf_developerShare fees))),
      (''netAmount'', JStr (int_str (cf_netAmount fees))), (''feeBps'', JNum (cf_feeBps fees)),
      (''referralCode'', null_or_str (cj_referralCode job)), (''confirmedAt'', JStr confirmed)]"

text \<open>\<open>r?.network?.name ?? 'unknown'\<close> and \<open>r?.asset ?? 'USDC'\<close>.\<close>

definition network_name_of :: "confirm_env \<Rightarrow> string \<Rightarrow> (world, exn, string) prog" where
  "network_name_of E requestId =
     seq (on_requests (db_find (ce_request E) (\<lambda>r. pr_id r = requestId))) (\<lambda>r. case r of
       None \<Rightarrow> ret ''unknown''
     | Some q \<Rightarrow> seq (include_opt networks (\<lambda>n. nw_id n = pr_networkId q))
         (\<lambda>n. ret (case n of Some net \<Rightarrow> nw_name net | None \<Rightarrow> ''unknown'')))"

definition asset_of :: "confirm_env \<Rightarrow> string \<Rightarrow> (world, exn, string) prog" where
  "asset_of E requestId =
     seq (on_requests (db_find (ce_request E) (\<lambda>r. pr_id r = requestId))) (\<lambda>r.
     ret (case r of Some q \<Rightarrow> pr_asset q | None \<Rightarrow> ''USDC''))"

text \<open>The body of the transaction.\<close>

definition worker_commit ::
  "confirm_env \<Rightarrow> confirm_job \<Rightarrow> computed_fees \<Rightarrow> string \<Rightarrow> int \<Rightarrow> (world, exn, unit) prog" where
  "worker_commit E job fees receiptId confirmedAt =
     seq (on_settlements (db_update (ce_settlement E) (\<lambda>s. ps_id s = cj_settlementId job)
            (\<lambda>s. s\<lparr>ps_status := SConfirmed, ps_txHash := Some (cj_txHash job),
                  ps_feeAmount := Some (int_str (cf_platformFee fees)),
                  ps_developerShare := Some (int_str (cf_developerShare fees)),
                  ps_confirmedAt := Some confirmedAt\<rparr>))) (\<lambda>_.
     seq (on_receipts (db_find (ce_receipt E) (\<lambda>r. rc_requestId r = cj_requestId job))) (\<lambda>existingReceipt.
     case existingReceipt of
       Some r \<Rightarrow> ret ()
     | None \<Rightarrow>
         seq (network_name_of E (cj_requestId job)) (\<lambda>network.
         seq (asset_of E (cj_requestId job)) (\<lambda>assetSymbol.
         seq (iso confirmedAt) (\<lambda>confirmed.
         seq (on_receipts (db_create (ce_receipt E)
                \<lparr>rc_id = receiptId, rc_requestId = cj_requestId job, rc_protocolVersion = ''x402-v1'',
                 rc_responsePayload = worker_payload job network assetSymbol fees confirmed,
                 rc_createdAt = confirmedAt\<rparr>)) (\<lambda>_. ret ()))))))"

text \<open>
  One attempt. The \<open>redis\<close> it imports is the object of \<open>redis.ts\<close>, which has no \<open>del\<close>: the call that
  is meant to release the lock throws a \<open>TypeError\<close> before the \<open>.catch\<close> behind it is reached.
\<close>

definition confirmSettlement ::
  "confirm_env \<Rightarrow> confirm_job \<Rightarrow> string \<Rightarrow> int \<Rightarrow> (world, exn, unit) prog" where
  "confirmSettlement E job receiptId confirmedAt =
     seq (on_settlements (db_find (ce_settlement E) (\<lambda>s. ps_id s = cj_settlementId job))) (\<lambda>existing.
     if map_option ps_status existing = Some SConfirmed then ret ()
     else if map_option ps_status existing = Some SFailed then ret ()
     else
       (case poll_receipt E (resolveChain (cj_chainId job)) (cj_txHash job) (worker_urls job) of
          None \<Rightarrow> throw (plainError (''Transaction '' @ cj_txHash job @ '' not confirmed after polling all RPCs''))
        | Some receipt \<Rightarrow>
          if tx_reverted receipt then
            seq (on_settlements (db_update (ce_settlement E) (\<lambda>s. ps_id s = cj_settlementId job)
                   (\<lambda>s. s\<lparr>ps_status := SFailed\<rparr>))) (\<lambda>_.
            throw (plainError (''On-chain tx reverted: '' @ cj_txHash job)))
          else
            seq (js_BigInt (cj_grossAmount job)) (\<lambda>gross.
            seq (of_sum (ce_computeFees E gross)) (\<lambda>fees.
            seq (ce_tx E (worker_commit E job fees receiptId confirmedAt)) (\<lambda>_.
            object_call redis_methods ''redis'' ''del''
              (ignore_errors (on_keys (redis_del (ce_redis E) (lock_key (cj_requestId job))))))))))"

text \<open>The \<open>failed\<close> event: after the last attempt the record is marked failed.\<close>

definition worker_on_failed ::
  "confirm_env \<Rightarrow> confirm_job \<Rightarrow> nat \<Rightarrow> (world, exn, unit) prog" where
  "worker_on_failed E job attemptsMade =
     (if jo_attempts settlementQueue_options \<le> attemptsMade \<and> cj_settlementId job \<noteq> '''' then
        ignore_errors (on_settlements (db_update (ce_settlement E) (\<lambda>s. ps_id s = cj_settlementId job)
          (\<lambda>s. s\<lparr>ps_status := SFailed\<rparr>)))
      else ret ())"

text \<open>
  The attempts of one job: the list holds what the world answers to each attempt still
  allowed (the environment, the identifier and the clock); an attempt that throws is followed
  by the \<open>failed\<close> event and, while there are attempts left, by the next attempt.
\<close>

fun run_attempts ::
  "confirm_job \<Rightarrow> nat \<Rightarrow> (confirm_env \<times> string \<times> int) list \<Rightarrow> (world, exn, bool) prog" where
  "run_attempts job made [] = ret False"
| "run_attempts job made ((E, receiptId, clock) # rest) =
     try_catch (seq (confirmSettlement E job receiptId clock) (\<lambda>_. ret True))
       (\<lambda>err. seq (worker_on_failed E job (Suc made)) (\<lambda>_. run_attempts job (Suc made) rest))"

section \<open>Lemmas\<close>

definition has_final :: "world \<Rightarrow> string \<Rightarrow> bool" where
  "has_final w sid \<longleftrightarrow> (\<exists>s\<in>set (settlements w). ps_id s = sid \<and> (ps_status s = SConfirmed \<or> ps_status s = SFailed))"

text \<open>What the confirmation does to its record.\<close>

definition confirm_row :: "confirm_job \<Rightarrow> computed_fees \<Rightarrow> int \<Rightarrow> payment_settlement \<Rightarrow> payment_settlement" where
  "confirm_row job fees confirmedAt s =
     s\<lparr>ps_status := SConfirmed, ps_txHash := Some (cj_txHash job),
       ps_feeAmount := Some (int_str (cf_platformFee fees)),
       ps_developerShare := Some (int_str (cf_developerShare fees)), ps_confirmedAt := Some confirmedAt\<rparr>"

lemma confirm_row_simps [simp]:
  "ps_id (confirm_row job fees t s) = ps_id s" "ps_requestId (confirm_row job fees t s) = ps_requestId s"
  "ps_status (confirm_row job fees t s) = SConfirmed" "ps_txHash (confirm_row job fees t s) = Some (cj_txHash job)"
  by (simp_all add: confirm_row_def)

definition one_row :: "(payment_settlement \<Rightarrow> payment_settlement) \<Rightarrow> string \<Rightarrow> world \<Rightarrow> world \<Rightarrow> bool" where
  "one_row f sid w w' \<longleftrightarrow> (\<exists>us s vs. settlements w = us @ s # vs \<and> ps_id s = sid \<and>
     w' = w\<lparr>settlements := us @ f s # vs\<rparr>)"

locale confirm_worker =
  redis_store "ce_redis E" + S: prisma_table "ce_settlement E" settlement_clash +
  C: prisma_table "ce_receipt E" receipt_clash + Q: prisma_table "ce_request E" request_clash +
  T: transactional "ce_tx E" for E :: confirm_env
begin

lemma update_row_ok:
  "on_settlements (db_update (ce_settlement E) (\<lambda>s. ps_id s = sid) f) w = (Inr x, w') \<Longrightarrow> one_row f sid w w'"
  by (auto simp: on_settlements_def zoom_eq one_row_def dest!: S.update_ok)

lemma update_row_err:
  "on_settlements (db_update (ce_settlement E) (\<lambda>s. ps_id s = sid) f) w = (Inl e, w') \<Longrightarrow> w' = w"
  by (auto simp: on_settlements_def zoom_eq dest!: S.update_err)

lemma find_row_same: "on_settlements (db_find (ce_settlement E) p) w = (r, w') \<Longrightarrow> w' = w"
  by (auto simp: on_settlements_def zoom_eq dest!: S.find_same)

lemma network_name_same: "network_name_of E rid w = (r, w') \<Longrightarrow> w' = w"
  unfolding network_name_of_def by (cases r) (auto simp: run_simps dest!: Q.find_same)

lemma asset_same: "asset_of E rid w = (r, w') \<Longrightarrow> w' = w"
  unfolding asset_of_def by (cases r) (auto simp: run_simps dest!: Q.find_same)

lemma worker_commit_ok:
  assumes "ce_tx E (worker_commit E job fees rcid t) w = (Inr u, w')"
  shows "\<exists>us s vs. settlements w = us @ s # vs \<and> ps_id s = cj_settlementId job \<and>
    (\<exists>rs. w' = w\<lparr>settlements := us @ confirm_row job fees t s # vs, receipts := rs\<rparr> \<and>
       (rs = receipts w \<and> (\<exists>r\<in>set rs. rc_requestId r = cj_requestId job) \<or>
        (\<exists>new. rs = receipts w @ [new] \<and> rc_requestId new = cj_requestId job \<and>
           (\<forall>r\<in>set (receipts w). rc_requestId r \<noteq> cj_requestId job))))"
proof -
  from T.tx_ok [OF assms] obtain ss found x w1 where
    u: "db_update (ce_settlement E) (\<lambda>s. ps_id s = cj_settlementId job) (confirm_row job fees t) (settlements w) = (Inr x, ss)"
    and f: "db_find (ce_receipt E) (\<lambda>r. rc_requestId r = cj_requestId job) (receipts w) = (Inr found, w1)"
    and rest: "(case found of Some r \<Rightarrow> ret () | None \<Rightarrow>
         seq (network_name_of E (cj_requestId job)) (\<lambda>network.
         seq (asset_of E (cj_requestId job)) (\<lambda>assetSymbol.
         seq (iso t) (\<lambda>confirmed.
         seq (zoom receipts (\<lambda>x w. w\<lparr>receipts := x\<rparr>) (db_create (ce_receipt E)
                \<lparr>rc_id = rcid, rc_requestId = cj_requestId job, rc_protocolVersion = ''x402-v1'',
                 rc_responsePayload = worker_payload job network assetSymbol fees confirmed,
                 rc_createdAt = t\<rparr>)) (\<lambda>_. ret ()))))) (w\<lparr>settlements := ss, receipts := w1\<rparr>) = (Inr u, w')"
    unfolding worker_commit_def confirm_row_def [symmetric] by (auto simp: seq_Inr on_settlements_def on_receipts_def zoom_eq)
  from S.update_ok [OF u] obtain us s vs where
    s: "settlements w = us @ s # vs" "ps_id s = cj_settlementId job" "ss = us @ confirm_row job fees t s # vs" by blast
  have w1: "w1 = receipts w" using C.find_same [OF f] .
  show ?thesis
  proof (cases found)
    case (Some r)
    have "r \<in> set (receipts w) \<and> rc_requestId r = cj_requestId job" using C.find_Some [OF f [unfolded Some]] by simp
    moreover have "w' = w\<lparr>settlements := ss, receipts := receipts w\<rparr>" using rest Some w1 by (auto simp: ret_def)
    ultimately show ?thesis using s by blast
  next
    case None
    from rest None w1 obtain new where
      "w' = w\<lparr>settlements := ss, receipts := receipts w @ [new]\<rparr>" "rc_requestId new = cj_requestId job"
      by (auto simp: run_simps dest!: network_name_same asset_same C.create_ok)
    moreover have "\<forall>r\<in>set (receipts w). rc_requestId r \<noteq> cj_requestId job"
      using C.find_None [OF f [unfolded None]] by simp
    ultimately show ?thesis using s by blast
  qed
qed

lemma confirm_cases:
  assumes "confirmSettlement E job rcid t w = (r, w')"
  obtains (Final) "r = Inr ()" "w' = w" "has_final w (cj_settlementId job)"
    | (Nothing) e where "r = Inl e" "w' = w"
    | (Reverted) receipt e where "r = Inl e"
        "poll_receipt E (resolveChain (cj_chainId job)) (cj_txHash job) (worker_urls job) = Some receipt"
        "tx_reverted receipt" "one_row (\<lambda>s. s\<lparr>ps_status := SFailed\<rparr>) (cj_settlementId job) w w'"
    | (Confirmed) receipt fees where
        "r = Inl (JsError ''TypeError'' ''redis.del is not a function'')"
        "poll_receipt E (resolveChain (cj_chainId job)) (cj_txHash job) (worker_urls job) = Some receipt"
        "\<not> tx_reverted receipt" "ce_computeFees E (bigint_of (cj_grossAmount job)) = Inr fees"
        "ce_tx E (worker_commit E job fees rcid t) w = (Inr (), w')"
proof -
  obtain found w0 where
    f: "db_find (ce_settlement E) (\<lambda>s. ps_id s = cj_settlementId job) (settlements w) = (found, w0)" by fastforce
  have w0: "w\<lparr>settlements := w0\<rparr> = w" using S.find_same [OF f] by simp
  show ?thesis
  proof (cases found)
    case (Inl e)
    then show ?thesis using assms f w0
      by (intro Nothing [of e]) (auto simp: confirmSettlement_def seq_def on_settlements_def zoom_def)
  next
    case (Inr existing)
    show ?thesis
    proof (cases "map_option ps_status existing = Some SConfirmed \<or> map_option ps_status existing = Some SFailed")
      case True
      then obtain s where s: "existing = Some s" "ps_status s = SConfirmed \<or> ps_status s = SFailed" by auto
      then have "has_final w (cj_settlementId job)" using S.find_Some [OF f [unfolded Inr s]] by (auto simp: has_final_def)
      then show ?thesis using assms f w0 True Inr
        by (intro Final) (auto simp: confirmSettlement_def seq_def on_settlements_def zoom_def ret_def split: if_splits)
    next
      case False
      let ?poll = "poll_receipt E (resolveChain (cj_chainId job)) (cj_txHash job) (worker_urls job)"
      have run: "(case ?poll of
          None \<Rightarrow> throw (plainError (''Transaction '' @ cj_txHash job @ '' not confirmed after polling all RPCs''))
        | Some receipt \<Rightarrow>
          if tx_reverted receipt then
            seq (on_settlements (db_update (ce_settlement E) (\<lambda>s. ps_id s = cj_settlementId job)
                   (\<lambda>s. s\<lparr>ps_status := SFailed\<rparr>))) (\<lambda>_.
            throw (plainError (''On-chain tx reverted: '' @ cj_txHash job)))
          else
            seq (js_BigInt (cj_grossAmount job)) (\<lambda>gross.
            seq (of_sum (ce_computeFees E gross)) (\<lambda>fees.
            seq (ce_tx E (worker_commit E job fees rcid t)) (\<lambda>_.
            throw (JsError ''TypeError'' ''redis.del is not a function''))))) w = (r, w')"
        using assms f w0 False Inr unfolding confirmSettlement_def redis_lacks
        by (cases existing) (simp_all add: seq_def on_settlements_def zoom_def)
      show ?thesis
      proof (cases ?poll)
        case None
        then show ?thesis using run Nothing by (auto simp: throw_def)
      next
        case p: (Some receipt)
        show ?thesis
        proof (cases "tx_reverted receipt")
          case True
          obtain u w1 where u: "on_settlements (db_update (ce_settlement E) (\<lambda>s. ps_id s = cj_settlementId job)
              (\<lambda>s. s\<lparr>ps_status := SFailed\<rparr>)) w = (u, w1)" by fastforce
          show ?thesis
          proof (cases u)
            case (Inl e)
            then show ?thesis using run p True u update_row_err Nothing by (auto simp: seq_def)
          next
            case (Inr x)
            then show ?thesis using run p True u update_row_ok Reverted [OF _ p True]
              by (auto simp: seq_def throw_def)
          qed
        next
          case False
          show ?thesis
          proof (cases r)
            case (Inl e)
            show ?thesis using run p False Inl Nothing Confirmed [OF _ p False]
              by (auto simp: run_simps js_BigInt_def dest: T.tx_err)
          next
            case (Inr x)
            then show ?thesis using run p False by (auto simp: run_simps)
          qed
        qed
      qed
    qed
  qed
qed

lemma on_failed_run:
  assumes "worker_on_failed E job n w = (r, w')"
  shows "r = Inr () \<and> (w' = w \<or> one_row (\<lambda>s. s\<lparr>ps_status := SFailed\<rparr>) (cj_settlementId job) w w')"
proof -
  obtain u w1 where u: "on_settlements (db_update (ce_settlement E) (\<lambda>s. ps_id s = cj_settlementId job)
      (\<lambda>s. s\<lparr>ps_status := SFailed\<rparr>)) w = (u, w1)" by fastforce
  show ?thesis
    using assms u unfolding worker_on_failed_def ignore_errors_def
    by (cases u) (auto simp: ret_def dest!: update_row_err update_row_ok split: if_splits)
qed

end

text \<open>The receipts after a job: as before, or one more for its request when there was none.\<close>

definition one_receipt :: "string \<Rightarrow> world \<Rightarrow> world \<Rightarrow> bool" where
  "one_receipt rid w w' \<longleftrightarrow> receipts w' = receipts w \<or>
     (\<exists>new. receipts w' = receipts w @ [new] \<and> rc_requestId new = rid \<and> (\<forall>r\<in>set (receipts w). rc_requestId r \<noteq> rid))"


definition has_row :: "world \<Rightarrow> string \<Rightarrow> bool" where
  "has_row w sid \<longleftrightarrow> (\<exists>s\<in>set (settlements w). ps_id s = sid)"

lemma one_row_has: "one_row f sid w w' \<Longrightarrow> \<forall>s. ps_id (f s) = ps_id s \<Longrightarrow> has_row w' sid"
  unfolding one_row_def has_row_def by fastforce

lemma one_row_failed: "one_row (\<lambda>s. s\<lparr>ps_status := SFailed\<rparr>) sid w w' \<Longrightarrow> has_final w' sid"
  by (auto simp: one_row_def has_final_def)

text \<open>A table whose \<open>update\<close> does not fail on a row that is there.\<close>

definition updates_work :: "'r delegate \<Rightarrow> bool" where
  "updates_work T \<longleftrightarrow> (\<forall>p f rs. (\<exists>x\<in>set rs. p x) \<longrightarrow> (\<exists>x rs'. db_update T p f rs = (Inr x, rs')))"

lemma table_updates_work: "updates_work (table_of clash)"
  by (auto simp: updates_work_def table_of_def update_first_None split: option.splits)




text \<open>What an attempt that throws leaves, before and after the \<open>failed\<close> event.\<close>

lemma confirm_frame:
  assumes "confirm_worker E" and "confirmSettlement E job rcid t w = (r, w')"
  shows "keys w' = keys w \<and> submitted w' = submitted w \<and> one_receipt (cj_requestId job) w w' \<and>
    (has_row w (cj_settlementId job) \<longrightarrow> has_row w' (cj_settlementId job))"
  using assms(2)
proof (cases rule: confirm_worker.confirm_cases [OF assms(1), consumes 1, case_names Final Nothing Reverted Confirmed])
  case (Reverted receipt e)
  then show ?thesis using one_row_has [OF Reverted(4)] by (auto simp: one_row_def one_receipt_def)
next
  case (Confirmed receipt fees)
  from confirm_worker.worker_commit_ok [OF assms(1) Confirmed(5)] show ?thesis
    by (auto simp: one_receipt_def has_row_def)
qed (simp_all add: one_receipt_def)



section \<open>Properties\<close>

text \<open>C11. An attempt completes only when it found the settlement final, and then changes nothing.
  An attempt that throws has changed nothing, or has marked the settlement failed after a
  reverted receipt, or has confirmed it: after a receipt that was not reverted, with the
  transaction hash, the fees of the amount and the time, and the request then has a receipt, a
  new one only if there was none. A confirming attempt throws as well, because the imported Redis
  object has no \<open>del\<close>; so no attempt ever releases the lock or touches any other key.\<close>

theorem confirm_worker_sound:
  assumes "confirm_worker E" and "confirmSettlement E job rcid t w = (r, w')"
  shows "keys w' = keys w \<and> submitted w' = submitted w \<and>
    (\<forall>u. r = Inr u \<longrightarrow> w' = w \<and> has_final w (cj_settlementId job)) \<and>
    (\<forall>e. r = Inl e \<longrightarrow> w' = w \<or>
      (\<exists>receipt. poll_receipt E (resolveChain (cj_chainId job)) (cj_txHash job) (worker_urls job) = Some receipt \<and>
        (if tx_reverted receipt
         then one_row (\<lambda>s. s\<lparr>ps_status := SFailed\<rparr>) (cj_settlementId job) w w'
         else e = JsError ''TypeError'' ''redis.del is not a function'' \<and>
           (\<exists>fees us s vs. ce_computeFees E (bigint_of (cj_grossAmount job)) = Inr fees \<and>
             settlements w = us @ s # vs \<and> ps_id s = cj_settlementId job \<and>
             settlements w' = us @ confirm_row job fees t s # vs \<and>
             (\<exists>r\<in>set (receipts w'). rc_requestId r = cj_requestId job) \<and>
             one_receipt (cj_requestId job) w w'))))"
  using assms(2)
proof (cases rule: confirm_worker.confirm_cases [OF assms(1), consumes 1, case_names Final Nothing Reverted Confirmed])
  case (Reverted receipt e)
  then show ?thesis using confirm_frame [OF assms] by auto
next
  case (Confirmed receipt fees)
  from confirm_worker.worker_commit_ok [OF assms(1) Confirmed(5)] obtain us s vs where c:
    "settlements w = us @ s # vs" "ps_id s = cj_settlementId job" "settlements w' = us @ confirm_row job fees t s # vs"
    "\<exists>r\<in>set (receipts w'). rc_requestId r = cj_requestId job"
    by (elim exE conjE disjE) auto
  show ?thesis using Confirmed confirm_frame [OF assms] c by auto
qed simp_all



text \<open>A reverted transaction ends in a completed job: the first attempt marks the settlement
  failed and throws, and the retry finds it failed and completes without an effect; no receipt
  is stored and the lock of the request is not released.\<close>

theorem worker_reverted_completes:
  assumes "confirm_worker E" and "updates_work (ce_settlement E)"
    and "settlements w = [s]" and "ps_id s = cj_settlementId job" and "ps_status s = SProcessing"
    and "db_find (ce_settlement E) (\<lambda>s. ps_id s = cj_settlementId job) = (\<lambda>rs. (Inr (List.find (\<lambda>s. ps_id s = cj_settlementId job) rs), rs))"
    and "poll_receipt E (resolveChain (cj_chainId job)) (cj_txHash job) (worker_urls job) = Some receipt"
    and "tx_reverted receipt"
  shows "\<exists>w'. run_attempts job 0 [(E, rcid, t), (E, rcid', t')] w = (Inr True, w') \<and>
    settlements w' = [s\<lparr>ps_status := SFailed\<rparr>] \<and> receipts w' = receipts w \<and> keys w' = keys w"
proof -
  let ?f = "\<lambda>s::payment_settlement. s\<lparr>ps_status := SFailed\<rparr>" and ?i = "cj_settlementId job"
  have "\<exists>x ss. db_update (ce_settlement E) (\<lambda>s. ps_id s = ?i) ?f (settlements w) = (Inr x, ss)"
    by (rule assms(2) [unfolded updates_work_def, rule_format]) (use assms(3,4) in simp)
  then obtain x ss where u: "db_update (ce_settlement E) (\<lambda>s. ps_id s = ?i) ?f (settlements w) = (Inr x, ss)" by blast
  have "one_row ?f ?i w (w\<lparr>settlements := ss\<rparr>)"
    by (rule confirm_worker.update_row_ok [OF assms(1)]) (simp add: on_settlements_def zoom_def u)
  then have ss: "ss = [s\<lparr>ps_status := SFailed\<rparr>]"
    using assms(3) by (auto simp: one_row_def Cons_eq_append_conv dest: arg_cong [where f = settlements])
  have "confirmSettlement E job rcid t w =
      (Inl (plainError (''On-chain tx reverted: '' @ cj_txHash job)), w\<lparr>settlements := [s\<lparr>ps_status := SFailed\<rparr>]\<rparr>)"
    using assms(3-8) u ss
    by (simp add: confirmSettlement_def seq_def on_settlements_def zoom_def throw_def)
  moreover have "confirmSettlement E job rcid' t' (w\<lparr>settlements := [s\<lparr>ps_status := SFailed\<rparr>]\<rparr>) =
      (Inr (), w\<lparr>settlements := [s\<lparr>ps_status := SFailed\<rparr>]\<rparr>)"
    using assms(3-8) by (simp add: confirmSettlement_def seq_def on_settlements_def zoom_def ret_def)
  moreover have "worker_on_failed E job (Suc 0) w1 = (Inr (), w1)" for w1
    by (simp add: worker_on_failed_def settlementQueue_options_def ret_def)
  ultimately have "run_attempts job 0 [(E, rcid, t), (E, rcid', t')] w =
      (Inr True, w\<lparr>settlements := [s\<lparr>ps_status := SFailed\<rparr>]\<rparr>)"
    by (simp add: try_catch_def seq_def ret_def)
  then show ?thesis by simp
qed

text \<open>The last failure is recorded without looking: when the synchronous path has confirmed the
  settlement while the last attempt was waiting, the \<open>failed\<close> event turns the confirmed record,
  receipt and all, into a failed one.\<close>

theorem late_failure_overwrites:
  assumes "confirm_worker E" and "updates_work (ce_settlement E)" and "settlements w = [s]"
    and "ps_id s = cj_settlementId job" and "ps_status s = SConfirmed" and "cj_settlementId job \<noteq> ''''" and "5 \<le> n"
  shows "\<exists>w'. worker_on_failed E job n w = (Inr (), w') \<and> settlements w' = [s\<lparr>ps_status := SFailed\<rparr>] \<and>
    receipts w' = receipts w"
proof -
  obtain r w' where f: "worker_on_failed E job n w = (r, w')" by fastforce
  have w': "r = Inr ()" "w' = w \<or> one_row (\<lambda>s. s\<lparr>ps_status := SFailed\<rparr>) (cj_settlementId job) w w'"
    using confirm_worker.on_failed_run [OF assms(1) f] by auto
  have "\<exists>x ss. db_update (ce_settlement E) (\<lambda>s. ps_id s = cj_settlementId job) (\<lambda>s. s\<lparr>ps_status := SFailed\<rparr>) (settlements w) = (Inr x, ss)"
    by (rule assms(2) [unfolded updates_work_def, rule_format]) (use assms(3,4) in simp)
  then obtain x ss where u: "db_update (ce_settlement E) (\<lambda>s. ps_id s = cj_settlementId job)
      (\<lambda>s. s\<lparr>ps_status := SFailed\<rparr>) (settlements w) = (Inr x, ss)" by blast
  have o: "one_row (\<lambda>s. s\<lparr>ps_status := SFailed\<rparr>) (cj_settlementId job) w (w\<lparr>settlements := ss\<rparr>)"
    by (rule confirm_worker.update_row_ok [OF assms(1)]) (simp add: on_settlements_def zoom_def u)
  have "w' = w\<lparr>settlements := ss\<rparr>"
    using f assms(6,7) u
    by (simp add: worker_on_failed_def settlementQueue_options_def ignore_errors_def on_settlements_def zoom_def)
  moreover have "ss = [s\<lparr>ps_status := SFailed\<rparr>]"
    using o assms(3) by (auto simp: one_row_def Cons_eq_append_conv dest: arg_cong [where f = settlements])
  ultimately show ?thesis using f w'(1) by simp
qed

section \<open>Witnesses\<close>

definition sample_confirm_env :: "(exn + tx_receipt) \<Rightarrow> confirm_env" where
  "sample_confirm_env answer =
     \<lparr>ce_redis = mock_redis, ce_settlement = table_of settlement_clash, ce_receipt = table_of receipt_clash,
      ce_request = table_of request_clash, ce_tx = pg_transaction, ce_wait = (\<lambda>_ _ _. answer),
      ce_computeFees = (\<lambda>g. Inr \<lparr>cf_platformFee = g div 200, cf_developerShare = 0, cf_netAmount = g - g div 200,
        cf_feeBps = 50\<rparr>)\<rparr>"

definition sample_confirm_job :: confirm_job where
  "sample_confirm_job = \<lparr>cj_settlementId = ''s'', cj_txHash = ''0xh'', cj_requestId = ''r'', cj_chainId = 8453,
     cj_rpcUrl = ''up'', cj_fallbackRpcUrl = None, cj_grossAmount = ''1000'', cj_referralCode = None\<rparr>"

definition sample_pending_settlement :: "settlement_status \<Rightarrow> payment_settlement" where
  "sample_pending_settlement st = \<lparr>ps_id = ''s'', ps_requestId = ''r'', ps_status = st, ps_settlementId = None,
     ps_txHash = None, ps_feeAmount = None, ps_referralCode = None, ps_developerShare = None, ps_confirmedAt = None,
     ps_createdAt = 0\<rparr>"

definition sample_confirm_world :: "settlement_status \<Rightarrow> world" where
  "sample_confirm_world st = empty_world\<lparr>settlements := [sample_pending_settlement st],
     keys := [lock_key ''r'' \<mapsto> 1]\<rparr>"

lemma sample_confirm_ok: "confirm_worker (sample_confirm_env a)" "updates_work (ce_settlement (sample_confirm_env a))"
  by (simp_all add: confirm_worker_def sample_confirm_env_def mock_redis_store table_of_prisma pg_transactional
      table_updates_work)

interpretation sample_worker: confirm_worker "sample_confirm_env a" for a
  by (rule sample_confirm_ok)

lemma sample_confirm_fields [simp]:
  "cj_settlementId sample_confirm_job = ''s''" "cj_requestId sample_confirm_job = ''r''"
  "ps_id (sample_pending_settlement st) = ''s''" "ps_status (sample_pending_settlement st) = st"
  "settlements (sample_confirm_world st) = [sample_pending_settlement st]" "receipts (sample_confirm_world st) = []"
  "keys (sample_confirm_world st) = [lock_key ''r'' \<mapsto> 1]"
  by (simp_all add: sample_confirm_job_def sample_pending_settlement_def sample_confirm_world_def empty_world_def)

lemma sample_gross: "decimal ''1000''"
  by code_simp

lemma sample_confirms:
  "\<exists>w'. confirmSettlement (sample_confirm_env (Inr \<lparr>tx_blockNumber = 1, tx_gasUsed = 1, tx_reverted = False\<rparr>))
     sample_confirm_job ''c'' 1000 (sample_confirm_world SProcessing) =
       (Inl (JsError ''TypeError'' ''redis.del is not a function''), w') \<and> w' \<noteq> sample_confirm_world SProcessing"
proof -
  obtain t where "toISOString 1000 = Some t" using toISOString_Some_iff [of 1000] by (auto simp: valid_time_def)
  then show ?thesis
    by (simp add: confirmSettlement_def worker_commit_def network_name_of_def asset_of_def seq_def zoom_defs zoom_def ret_def
        of_sum_def js_BigInt_def sample_gross sample_confirm_env_def table_of_def pg_transaction_def throw_def redis_lacks
        iso_def include_opt_def sample_confirm_job_def sample_confirm_world_def empty_world_def sample_pending_settlement_def
        worker_urls_def)
qed

theorem confirm_worker_sound_witness:
  "\<exists>e w'. confirmSettlement (sample_confirm_env (Inr \<lparr>tx_blockNumber = 1, tx_gasUsed = 1, tx_reverted = False\<rparr>))
     sample_confirm_job ''c'' 1000 (sample_confirm_world SProcessing) = (Inl e, w') \<and>
   map ps_status (settlements w') = [SConfirmed] \<and> length (receipts w') = 1 \<and> keys w' (lock_key ''r'') = Some 1"
proof -
  let ?E = "sample_confirm_env (Inr \<lparr>tx_blockNumber = 1, tx_gasUsed = 1, tx_reverted = False\<rparr>)"
  obtain e w' where run: "confirmSettlement ?E sample_confirm_job ''c'' 1000 (sample_confirm_world SProcessing) = (Inl e, w')"
    and changed: "w' \<noteq> sample_confirm_world SProcessing"
    using sample_confirms by blast
  have p: "poll_receipt ?E (resolveChain (cj_chainId sample_confirm_job)) (cj_txHash sample_confirm_job)
      (worker_urls sample_confirm_job) = Some \<lparr>tx_blockNumber = 1, tx_gasUsed = 1, tx_reverted = False\<rparr>"
    by (simp add: sample_confirm_env_def worker_urls_def)
  have "map ps_status (settlements w') = [SConfirmed] \<and> length (receipts w') = 1 \<and> keys w' (lock_key ''r'') = Some 1"
    using confirm_worker_sound [OF sample_confirm_ok(1) run] changed p
    by (auto simp: one_receipt_def Cons_eq_append_conv)
  with run show ?thesis by (intro exI [of _ e] exI [of _ w']) simp
qed


theorem worker_reverted_completes_witness:
  "\<exists>w'. run_attempts sample_confirm_job 0
     (replicate 2 (sample_confirm_env (Inr \<lparr>tx_blockNumber = 1, tx_gasUsed = 1, tx_reverted = True\<rparr>), ''c'', 1000))
     (sample_confirm_world SProcessing) = (Inr True, w') \<and>
   settlements w' = [sample_pending_settlement SFailed] \<and> keys w' (lock_key ''r'') = Some 1"
proof -
  let ?E = "sample_confirm_env (Inr \<lparr>tx_blockNumber = 1, tx_gasUsed = 1, tx_reverted = True\<rparr>)"
  have p: "poll_receipt ?E (resolveChain (cj_chainId sample_confirm_job)) (cj_txHash sample_confirm_job)
      (worker_urls sample_confirm_job) = Some \<lparr>tx_blockNumber = 1, tx_gasUsed = 1, tx_reverted = True\<rparr>"
    by (simp add: sample_confirm_env_def worker_urls_def)
  have f: "db_find (ce_settlement ?E) (\<lambda>s. ps_id s = cj_settlementId sample_confirm_job) =
      (\<lambda>rs. (Inr (List.find (\<lambda>s. ps_id s = cj_settlementId sample_confirm_job) rs), rs))"
    by (simp add: sample_confirm_env_def table_of_def)
  have "(sample_pending_settlement SProcessing)\<lparr>ps_status := SFailed\<rparr> = sample_pending_settlement SFailed"
    by (simp add: sample_pending_settlement_def)
  with worker_reverted_completes [where s = "sample_pending_settlement SProcessing" and job = sample_confirm_job
      and w = "sample_confirm_world SProcessing" and rcid = "''c''" and t = 1000 and rcid' = "''c''" and t' = 1000,
      OF sample_confirm_ok _ _ _ f p]
  show ?thesis by (auto simp: numeral_2_eq_2 simp del: run_attempts.simps)
qed

theorem late_failure_overwrites_witness:
  "\<exists>w'. worker_on_failed (sample_confirm_env (Inl (plainError ''timeout''))) sample_confirm_job 5
     (sample_confirm_world SConfirmed) = (Inr (), w') \<and> map ps_status (settlements w') = [SFailed]"
  using late_failure_overwrites [where s = "sample_pending_settlement SConfirmed" and job = sample_confirm_job
      and w = "sample_confirm_world SConfirmed" and n = 5, OF sample_confirm_ok [of "Inl (plainError ''timeout'')"]] by auto

text \<open>The missing \<open>del\<close> undoes confirmations: when four attempts timed out and the fifth confirms the
  settlement, the \<open>TypeError\<close> makes that attempt a failure too, the job is given up and its settlement
  ends as failed, although the transfer is on the chain and its receipt is stored.\<close>

theorem worker_confirmed_then_failed:
  "(case run_attempts sample_confirm_job 0
      (replicate 4 (sample_confirm_env (Inl (plainError ''timeout'')), ''c'', 1000) @
       [(sample_confirm_env (Inr \<lparr>tx_blockNumber = 1, tx_gasUsed = 1, tx_reverted = False\<rparr>), ''c'', 1000)])
      (sample_confirm_world SProcessing) of
    (r, w') \<Rightarrow> r = Inr False \<and> map ps_status (settlements w') = [SFailed] \<and>
      map ps_txHash (settlements w') = [Some ''0xh''] \<and> length (receipts w') = 1)"
proof -
  obtain t where "toISOString 1000 = Some t" using toISOString_Some_iff [of 1000] by (auto simp: valid_time_def)
  then show ?thesis
    by (simp add: numeral_eq_Suc confirmSettlement_def worker_commit_def network_name_of_def asset_of_def seq_def zoom_defs
        zoom_def ret_def try_catch_def ignore_errors_def worker_on_failed_def settlementQueue_options_def
        of_sum_def js_BigInt_def sample_gross sample_confirm_env_def table_of_def pg_transaction_def throw_def redis_lacks
        iso_def include_opt_def sample_confirm_job_def sample_confirm_world_def empty_world_def sample_pending_settlement_def
        worker_urls_def)
qed

end
