(* ===== verification/Json.thy ===== *)
theory Json
  imports Errors "HOL-Library.AList"
begin

text \<open>
  \<open>JSON.stringify\<close> and \<open>JSON.parse\<close> on the values the services exchange (numbers are integers),
  and Base64 as \<open>Buffer\<close> reads and writes it. Texts are ASCII, so a string is also its UTF-8
  bytes. The parser takes fuel for its nesting; the length of the text is enough.
\<close>

section \<open>\<open>JSON.stringify\<close>\<close>

definition hex_nibble :: "nat \<Rightarrow> char" where
  "hex_nibble k = char_of (if k < 10 then 48 + k else 87 + k)"

definition json_escape_char :: "char \<Rightarrow> string" where
  "json_escape_char c = (let n = of_char c :: nat in
     if n = 34 then [CHR 0x5C, CHR 0x22]
     else if n = 92 then [CHR 0x5C, CHR 0x5C]
     else if n = 8 then [CHR 0x5C, CHR ''b'']
     else if n = 12 then [CHR 0x5C, CHR ''f'']
     else if n = 10 then [CHR 0x5C, CHR ''n'']
     else if n = 13 then [CHR 0x5C, CHR ''r'']
     else if n = 9 then [CHR 0x5C, CHR ''t'']
     else if n < 32 then [CHR 0x5C, CHR ''u'', CHR ''0'', CHR ''0'', hex_nibble (n div 16), hex_nibble (n mod 16)]
     else [c])"

definition json_string :: "string \<Rightarrow> string" where
  "json_string s = [CHR 0x22] @ concat (map json_escape_char s) @ [CHR 0x22]"

fun join_with :: "string \<Rightarrow> string list \<Rightarrow> string" where
  "join_with sep [] = ''''"
| "join_with sep [s] = s"
| "join_with sep (s # t # ts) = s @ sep @ join_with sep (t # ts)"

fun js_stringify :: "json \<Rightarrow> string" where
  "js_stringify JNull = ''null''"
| "js_stringify (JBool b) = (if b then ''true'' else ''false'')"
| "js_stringify (JNum n) = int_str n"
| "js_stringify (JStr s) = json_string s"
| "js_stringify (JArr xs) = ''['' @ join_with '','' (map js_stringify xs) @ '']''"
| "js_stringify (JObj kvs) =
     ''{'' @ join_with '','' (map (\<lambda>kv. json_string (fst kv) @ '':'' @ js_stringify (snd kv)) kvs) @ ''}''"


section \<open>\<open>JSON.parse\<close>\<close>

fun skip_ws :: "string \<Rightarrow> string" where
  "skip_ws [] = []"
| "skip_ws (c # cs) = (let n = of_char c :: nat in
     if n = 32 \<or> n = 9 \<or> n = 10 \<or> n = 13 then skip_ws cs else c # cs)"

definition hex_value :: "char \<Rightarrow> nat" where
  "hex_value c = (let n = of_char c :: nat in
     if n \<le> 57 then n - 48 else if n \<le> 70 then n - 55 else n - 87)"

definition unescape_char :: "char \<Rightarrow> char option" where
  "unescape_char c = (let n = of_char c :: nat in
     if n = 34 \<or> n = 92 \<or> n = 47 then Some c
     else if n = 98 then Some (char_of (8::nat)) else if n = 102 then Some (char_of (12::nat))
     else if n = 110 then Some (char_of (10::nat)) else if n = 114 then Some (char_of (13::nat))
     else if n = 116 then Some (char_of (9::nat)) else None)"

text \<open>
  The characters up to the closing quote. An escape \<open>\\u00XY\<close> is one character; code units
  above 255 are outside the model.
\<close>

fun parse_chars :: "string \<Rightarrow> (string \<times> string) option" where
  "parse_chars [] = None"
| "parse_chars (c # cs) =
     (if c = CHR 0x22 then Some ([], cs)
      else if c = CHR 0x5C then
        (case cs of
           [] \<Rightarrow> None
         | e # ds \<Rightarrow>
             if e = CHR ''u'' then
               (case ds of
                  h1 # h2 # h3 # h4 # es \<Rightarrow>
                    if h1 = CHR ''0'' \<and> h2 = CHR ''0'' \<and> is_hex h3 \<and> is_hex h4
                    then map_option (\<lambda>(s, r). (char_of (16 * hex_value h3 + hex_value h4) # s, r)) (parse_chars es)
                    else None
                | _ \<Rightarrow> None)
             else
               (case unescape_char e of
                  None \<Rightarrow> None
                | Some x \<Rightarrow> map_option (\<lambda>(s, r). (x # s, r)) (parse_chars ds)))
      else if (of_char c :: nat) < 32 then None
      else map_option (\<lambda>(s, r). (c # s, r)) (parse_chars cs))"

text \<open>An integer: no leading zero.\<close>

definition parse_digits :: "string \<Rightarrow> (int \<times> string) option" where
  "parse_digits s = (let ds = takeWhile is_digit s in
     if ds = [] \<or> (1 < length ds \<and> hd ds = CHR ''0'') then None
     else Some (bigint_of ds, dropWhile is_digit s))"

definition parse_number :: "string \<Rightarrow> (json \<times> string) option" where
  "parse_number s = (case s of
     c # cs \<Rightarrow> if c = CHR ''-'' then map_option (\<lambda>(n, r). (JNum (- n), r)) (parse_digits cs)
              else map_option (\<lambda>(n, r). (JNum n, r)) (parse_digits s)
   | [] \<Rightarrow> None)"

definition strip :: "string \<Rightarrow> string \<Rightarrow> string option" where
  "strip p s = (if startsWith s p then Some (drop (length p) s) else None)"

text \<open>The first three words of a value; anything else is a number.\<close>

definition parse_word :: "string \<Rightarrow> (json \<times> string) option" where
  "parse_word s =
     (case strip ''true'' s of Some r \<Rightarrow> Some (JBool True, r) | None \<Rightarrow>
     (case strip ''false'' s of Some r \<Rightarrow> Some (JBool False, r) | None \<Rightarrow>
     (case strip ''null'' s of Some r \<Rightarrow> Some (JNull, r) | None \<Rightarrow> parse_number s)))"

fun parse_value :: "nat \<Rightarrow> string \<Rightarrow> (json \<times> string) option"
and parse_elems :: "nat \<Rightarrow> string \<Rightarrow> (json list \<times> string) option"
and parse_members :: "nat \<Rightarrow> (string \<times> json) list \<Rightarrow> string \<Rightarrow> ((string \<times> json) list \<times> string) option" where
  "parse_value 0 s = None"
| "parse_value (Suc n) s =
     (case skip_ws s of
        [] \<Rightarrow> None
      | c # cs \<Rightarrow>
          if c = CHR 0x22 then map_option (\<lambda>(x, r). (JStr x, r)) (parse_chars cs)
          else if c = CHR ''['' then
            (case skip_ws cs of
               [] \<Rightarrow> None
             | d # ds \<Rightarrow> if d = CHR '']'' then Some (JArr [], ds)
                        else map_option (\<lambda>(xs, r). (JArr xs, r)) (parse_elems n (d # ds)))
          else if c = CHR ''{'' then
            (case skip_ws cs of
               [] \<Rightarrow> None
             | d # ds \<Rightarrow> if d = CHR ''}'' then Some (JObj [], ds)
                        else map_option (\<lambda>(kvs, r). (JObj kvs, r)) (parse_members n [] (d # ds)))
          else parse_word (c # cs))"
| "parse_elems 0 s = None"
| "parse_elems (Suc n) s =
     (case parse_value n s of
        None \<Rightarrow> None
      | Some (v, r) \<Rightarrow>
          (case skip_ws r of
             [] \<Rightarrow> None
           | d # ds \<Rightarrow>
               if d = CHR '']'' then Some ([v], ds)
               else if d = CHR '','' then map_option (\<lambda>(vs, r'). (v # vs, r')) (parse_elems n ds)
               else None))"
| "parse_members 0 acc s = None"
| "parse_members (Suc n) acc s =
     (case skip_ws s of
        [] \<Rightarrow> None
      | q # qs \<Rightarrow>
          if q \<noteq> CHR 0x22 then None
          else (case parse_chars qs of
             None \<Rightarrow> None
           | Some (k, r) \<Rightarrow>
               (case skip_ws r of
                  [] \<Rightarrow> None
                | d # ds \<Rightarrow>
                    if d \<noteq> CHR '':'' then None
                    else (case parse_value n ds of
                       None \<Rightarrow> None
                     | Some (v, r2) \<Rightarrow>
                         (case skip_ws r2 of
                            [] \<Rightarrow> None
                          | e # es \<Rightarrow>
                              if e = CHR ''}'' then Some (AList.update k v acc, es)
                              else if e = CHR '','' then parse_members n (AList.update k v acc) es
                              else None)))))"

text \<open>A \<open>SyntaxError\<close> is \<open>None\<close>.\<close>

definition json_parse :: "string \<Rightarrow> json option" where
  "json_parse s = (case parse_value (Suc (length s)) s of
     Some (v, r) \<Rightarrow> if skip_ws r = [] then Some v else None
   | None \<Rightarrow> None)"

section \<open>Reading what was written\<close>

fun wf_json :: "json \<Rightarrow> bool" where
  "wf_json (JArr xs) = (\<forall>x\<in>set xs. wf_json x)"
| "wf_json (JObj kvs) = (distinct (map fst kvs) \<and> (\<forall>kv\<in>set kvs. wf_json (snd kv)))"
| "wf_json _ = True"

lemma nibbles: "k < 32 \<Longrightarrow> is_hex (hex_nibble (k div 16)) \<and> is_hex (hex_nibble (k mod 16)) \<and>
    16 * hex_value (hex_nibble (k div 16)) + hex_value (hex_nibble (k mod 16)) = k"
  by (auto simp: is_hex_def hex_value_def hex_nibble_def Let_def)

lemma char_codes: "c = CHR 0x22 \<longleftrightarrow> of_char c = (34::nat)" "c = CHR 0x5C \<longleftrightarrow> of_char c = (92::nat)"
proof -
  have "of_char (CHR 0x22) = (34::nat)" "of_char (CHR 0x5C) = (92::nat)" by simp_all
  then show "c = CHR 0x22 \<longleftrightarrow> of_char c = (34::nat)" "c = CHR 0x5C \<longleftrightarrow> of_char c = (92::nat)"
    using of_char_eq_iff [where 'a = nat, of c "CHR 0x22"] of_char_eq_iff [where 'a = nat, of c "CHR 0x5C"] by simp_all
qed

lemma char_quote: "char_of (34::nat) = CHR 0x22" "char_of (92::nat) = CHR 0x5C"
  using char_codes by (metis char_of_char)+

lemma parse_escaped_special:
  assumes "n \<in> {34, 92, 8, 12, 10, 13, 9}"
  shows "parse_chars (json_escape_char (char_of (n::nat)) @ s) = map_option (\<lambda>(t, r). (char_of n # t, r)) (parse_chars s)"
  using assms by (elim insertE emptyE) (simp_all add: json_escape_char_def unescape_char_def char_quote)

lemma parse_escaped:
  "parse_chars (json_escape_char c @ s) = map_option (\<lambda>(t, r). (c # t, r)) (parse_chars s)"
proof -
  obtain n where n: "of_char c = (n::nat)" "c = char_of n" by (metis char_of_char)
  consider "n \<in> {34, 92, 8, 12, 10, 13, 9}" | "n < 32" "n \<notin> {34, 92, 8, 12, 10, 13, 9}"
    | "\<not> n < 32" "n \<notin> {34, 92, 8, 12, 10, 13, 9}" by blast
  then show ?thesis
  proof cases
    case 1
    then show ?thesis using parse_escaped_special n(2) by blast
  next
    case 2
    then have "json_escape_char c = [CHR 0x5C, CHR ''u'', CHR ''0'', CHR ''0'', hex_nibble (n div 16), hex_nibble (n mod 16)]"
      using n(1) by (simp add: json_escape_char_def)
    then show ?thesis using nibbles [OF 2(1)] n(2) by simp
  next
    case 3
    then have "json_escape_char c = [c]" using n(1) by (simp add: json_escape_char_def)
    then show ?thesis using 3 n(1) by (simp add: char_codes)
  qed
qed

lemma parse_string_chars: "parse_chars (concat (map json_escape_char s) @ CHR 0x22 # r) = Some (s, r)"
  by (induction s) (simp_all add: parse_escaped)

lemma nat_digits_ne [simp]: "nat_digits n \<noteq> []"
  using nat_digits_decimal [of n] by (simp add: decimal_def)

lemma hd_nat_digits: "0 < n \<Longrightarrow> hd (nat_digits n) \<noteq> CHR ''0''"
proof (induction n rule: nat_digits.induct)
  case (1 n)
  show ?case
  proof (cases "n < 10")
    case True
    have "of_char (char_of (48 + n) :: char) = 48 + n" using True by (simp add: of_char_of)
    moreover have "of_char (CHR ''0'') = (48::nat)" by simp
    ultimately have "char_of (48 + n) \<noteq> CHR ''0''" using 1 by (metis add_cancel_left_right less_numeral_extra(3))
    then show ?thesis using True by (simp add: nat_digits.simps [of n])
  next
    case False
    then show ?thesis using "1.IH" by (simp add: nat_digits.simps [of n])
  qed
qed

definition ends_number :: "string \<Rightarrow> bool" where
  "ends_number r \<longleftrightarrow> (\<forall>c cs. r = c # cs \<longrightarrow> \<not> is_digit c)"

lemma ends_number_simps [simp]: "ends_number []" "ends_number (c # cs) \<longleftrightarrow> \<not> is_digit c"
  by (auto simp: ends_number_def)

lemma parse_nat_digits: "ends_number r \<Longrightarrow> parse_digits (nat_digits n @ r) = Some (int n, r)"
proof -
  assume r: "ends_number r"
  have all: "\<forall>c\<in>set (nat_digits n). is_digit c"
    using nat_digits_decimal [of n] by (simp add: decimal_def list_all_iff)
  have "takeWhile is_digit r = []" "dropWhile is_digit r = r" using r by (cases r; simp)+
  then have "takeWhile is_digit (nat_digits n @ r) = nat_digits n" "dropWhile is_digit (nat_digits n @ r) = r"
    using all by (simp_all add: takeWhile_append2 dropWhile_append2)
  moreover have "\<not> (1 < length (nat_digits n) \<and> hd (nat_digits n) = CHR ''0'')"
    using hd_nat_digits [of n] by (cases "n = 0") (auto simp: nat_digits.simps [of 0])
  ultimately show ?thesis by (simp add: parse_digits_def Let_def)
qed

lemma digit_not_minus: "is_digit c \<Longrightarrow> c \<noteq> CHR ''-''"
  by (auto simp: is_digit_def)

lemma parse_int_str: "ends_number r \<Longrightarrow> parse_number (int_str i @ r) = Some (JNum i, r)"
proof (cases "i < 0")
  case True
  then show "ends_number r \<Longrightarrow> ?thesis" by (simp add: int_str_def parse_number_def parse_nat_digits)
next
  case False
  obtain c cs where c: "nat_digits (nat i) = c # cs" by (cases "nat_digits (nat i)") auto
  have "is_digit c" using nat_digits_decimal [of "nat i"] c by (simp add: decimal_def)
  then have "c \<noteq> CHR ''-''" by (rule digit_not_minus)
  then show "ends_number r \<Longrightarrow> ?thesis"
    using False c parse_nat_digits [of r "nat i"] by (simp add: int_str_def parse_number_def)
qed

text \<open>The first character of a written value, and of a number.\<close>

definition starts_value :: "char \<Rightarrow> bool" where
  "starts_value c = (let n = of_char c :: nat in n \<noteq> 32 \<and> n \<noteq> 9 \<and> n \<noteq> 10 \<and> n \<noteq> 13 \<and> n \<noteq> 93)"

lemma starts_skip: "starts_value c \<Longrightarrow> skip_ws (c # cs) = c # cs"
  by (auto simp: starts_value_def Let_def)

lemma digit_starts: "is_digit c \<Longrightarrow> starts_value c \<and> c \<noteq> CHR 0x22 \<and> c \<noteq> CHR ''['' \<and> c \<noteq> CHR ''{'' \<and> c \<noteq> CHR ''t'' \<and>
    c \<noteq> CHR ''f'' \<and> c \<noteq> CHR ''n'' \<and> c \<noteq> CHR '']''"
  by (auto simp: is_digit_def starts_value_def Let_def)

lemma int_str_head: "\<exists>c cs. int_str i = c # cs \<and> (is_digit c \<or> c = CHR ''-'')"
proof (cases "nat_digits (nat i)")
  case (Cons c cs)
  then show ?thesis using nat_digits_decimal [of "nat i"] by (simp add: int_str_def decimal_def)
qed simp

lemma value_starts: "\<exists>c cs. js_stringify j = c # cs \<and> starts_value c"
proof (cases j)
  case (JNum i)
  then show ?thesis using int_str_head [of i] digit_starts by (fastforce simp: starts_value_def)
qed (auto simp: starts_value_def json_string_def)

lemma parse_word_int: "ends_number r \<Longrightarrow> parse_word (int_str i @ r) = Some (JNum i, r)"
  using int_str_head [of i] digit_starts parse_int_str [of r i]
  by (fastforce simp: parse_word_def strip_def startsWith_def)

lemma skip_ws_plain [simp]:
  "skip_ws (CHR 0x22 # s) = CHR 0x22 # s" "skip_ws (CHR '','' # s) = CHR '','' # s"
  "skip_ws (CHR '']'' # s) = CHR '']'' # s" "skip_ws (CHR ''}'' # s) = CHR ''}'' # s"
  "skip_ws (CHR '':'' # s) = CHR '':'' # s" "skip_ws (CHR ''['' # s) = CHR ''['' # s"
  "skip_ws (CHR ''{'' # s) = CHR ''{'' # s"
  by simp_all

declare skip_ws.simps(2) [simp del]

lemma ends_number_plain [simp]:
  "\<not> is_digit (CHR '','')" "\<not> is_digit (CHR '']'')" "\<not> is_digit (CHR ''}'')"
  by (simp_all add: is_digit_def)

abbreviation reads :: "json \<Rightarrow> bool" where
  "reads j \<equiv> (\<forall>n r. length (js_stringify j) < n \<longrightarrow> ends_number r \<longrightarrow> parse_value n (js_stringify j @ r) = Some (j, r))"

lemma join_Cons: "join_with sep (x # xs) = x @ (if xs = [] then '''' else sep @ join_with sep xs)"
  by (cases xs) simp_all

lemma parse_elems_written:
  assumes "\<forall>x\<in>set xs. reads x" and "xs \<noteq> []"
    and "length (join_with '','' (map js_stringify xs)) + 1 < n"
  shows "parse_elems n (join_with '','' (map js_stringify xs) @ CHR '']'' # r) = Some (xs, r)"
  using assms
proof (induction xs arbitrary: n)
  case (Cons x xs)
  obtain m where n: "n = Suc m" using Cons.prems(3) by (cases n) auto
  show ?case
  proof (cases "xs = []")
    case True
    then show ?thesis using Cons.prems n by simp
  next
    case False
    have v: "parse_value m (js_stringify x @ (CHR '','' # join_with '','' (map js_stringify xs) @ CHR '']'' # r)) =
        Some (x, CHR '','' # join_with '','' (map js_stringify xs) @ CHR '']'' # r)"
      using Cons.prems n False by (auto simp: join_Cons)
    have "parse_elems m (join_with '','' (map js_stringify xs) @ CHR '']'' # r) = Some (xs, r)"
      using Cons.prems n False by (intro Cons.IH) (auto simp: join_Cons)
    then show ?thesis using v n False by (simp add: join_Cons)
  qed
qed simp

lemma update_fresh: "k \<notin> fst ` set al \<Longrightarrow> AList.update k v al = al @ [(k, v)]"
  by (induction al) auto

definition write_member :: "string \<times> json \<Rightarrow> string" where
  "write_member kv = json_string (fst kv) @ '':'' @ js_stringify (snd kv)"

lemma parse_members_written:
  assumes "\<forall>kv\<in>set kvs. reads (snd kv)" and "kvs \<noteq> []" and "distinct (map fst (acc @ kvs))"
    and "length (join_with '','' (map write_member kvs)) + 1 < n"
  shows "parse_members n acc (join_with '','' (map write_member kvs) @ CHR ''}'' # r) = Some (acc @ kvs, r)"
  using assms
proof (induction kvs arbitrary: n acc)
  case (Cons kv kvs)
  obtain k v where kv: "kv = (k, v)" by (rule prod.exhaust)
  obtain m where n: "n = Suc m" using Cons.prems(4) by (cases n) auto
  have upd: "AList.update k v acc = acc @ [(k, v)]"
    using Cons.prems(3) kv by (intro update_fresh) auto
  have str: "parse_chars (concat (map json_escape_char k) @ CHR 0x22 # t) = Some (k, t)" for t
    by (rule parse_string_chars)
  show ?case
  proof (cases "kvs = []")
    case True
    then have "parse_value m (js_stringify v @ CHR ''}'' # r) = Some (v, CHR ''}'' # r)"
      using Cons.prems kv n by (auto simp: write_member_def)
    then show ?thesis using True kv n upd str by (simp add: write_member_def json_string_def)
  next
    case False
    let ?t = "join_with '','' (map write_member kvs) @ CHR ''}'' # r"
    have "parse_value m (js_stringify v @ CHR '','' # ?t) = Some (v, CHR '','' # ?t)"
      using Cons.prems kv n False by (auto simp: write_member_def join_Cons)
    moreover have "parse_members m (acc @ [(k, v)]) ?t = Some ((acc @ [(k, v)]) @ kvs, r)"
      using Cons.prems kv n False by (intro Cons.IH) (auto simp: join_Cons)
    moreover have "write_member (k, v) = CHR 0x22 # concat (map json_escape_char k) @ CHR 0x22 # CHR '':'' # js_stringify v"
      by (simp add: write_member_def json_string_def)
    ultimately show ?thesis using False kv n upd str by (simp add: join_Cons)
  qed
qed simp

lemma stringify_obj: "js_stringify (JObj kvs) = ''{'' @ join_with '','' (map write_member kvs) @ ''}''"
  by (simp add: write_member_def [abs_def])

lemma parse_value_other:
  "skip_ws (c # cs) = c # cs \<Longrightarrow> c \<noteq> CHR 0x22 \<Longrightarrow> c \<noteq> CHR ''['' \<Longrightarrow> c \<noteq> CHR ''{'' \<Longrightarrow> k < n \<Longrightarrow>
     parse_value n (c # cs) = parse_word (c # cs)"
  by (cases n) simp_all

lemma parse_written: "wf_json j \<Longrightarrow> reads j"
proof (induction j rule: js_stringify.induct)
  case (5 xs)
  have IH: "\<forall>x\<in>set xs. reads x" using 5 by auto
  show ?case
  proof (intro allI impI)
    fix n r
    assume n: "length (js_stringify (JArr xs)) < n" and r: "ends_number r"
    obtain m where m: "n = Suc m" using n by (cases n) auto
    show "parse_value n (js_stringify (JArr xs) @ r) = Some (JArr xs, r)"
    proof (cases xs)
      case Nil
      then show ?thesis using m by simp
    next
      case (Cons y ys)
      obtain c cs where c: "js_stringify y = c # cs" "starts_value c" using value_starts by blast
      have "c \<noteq> CHR '']''" using c(2) by (auto simp: starts_value_def)
      moreover have "parse_elems m (join_with '','' (map js_stringify xs) @ CHR '']'' # r) = Some (xs, r)"
        using IH Cons n m by (intro parse_elems_written) auto
      moreover obtain t where t: "join_with '','' (map js_stringify xs) @ CHR '']'' # r = c # t"
        using c Cons by (auto simp: join_Cons)
      ultimately have "parse_elems m (c # t) = Some (xs, r)" "c \<noteq> CHR '']''" by simp_all
      then have "parse_value n (CHR ''['' # c # t) = Some (JArr xs, r)"
        using m starts_skip [OF c(2)] by simp
      then show ?thesis using t by simp
    qed
  qed
next
  case (6 kvs)
  have IH: "\<forall>kv\<in>set kvs. reads (snd kv)" using 6 by auto
  show ?case
  proof (intro allI impI)
    fix n r
    assume n: "length (js_stringify (JObj kvs)) < n" and r: "ends_number r"
    obtain m where m: "n = Suc m" using n by (cases n) auto
    show "parse_value n (js_stringify (JObj kvs) @ r) = Some (JObj kvs, r)"
    proof (cases kvs)
      case Nil
      then show ?thesis using m by simp
    next
      case (Cons y ys)
      have "parse_members m [] (join_with '','' (map write_member kvs) @ CHR ''}'' # r) = Some ([] @ kvs, r)"
        using IH Cons n [unfolded stringify_obj] m 6(2) by (intro parse_members_written) auto
      moreover obtain t where t: "join_with '','' (map write_member kvs) @ CHR ''}'' # r = CHR 0x22 # t"
        using Cons by (auto simp: join_Cons write_member_def json_string_def)
      ultimately have "parse_members m [] (CHR 0x22 # t) = Some (kvs, r)" by simp
      then have "parse_value n (CHR ''{'' # CHR 0x22 # t) = Some (JObj kvs, r)" using m by simp
      then show ?thesis using t unfolding stringify_obj by simp
    qed
  qed
next
  case 1
  show ?case
    by (auto simp: parse_value_other starts_skip starts_value_def parse_word_def strip_def startsWith_def)
next
  case (2 b)
  show ?case
    by (auto simp: parse_value_other starts_skip starts_value_def parse_word_def strip_def startsWith_def)
next
  case (3 i)
  obtain c cs where c: "int_str i = c # cs" "is_digit c \<or> c = CHR ''-''" using int_str_head by blast
  then have "starts_value c \<and> c \<noteq> CHR 0x22 \<and> c \<noteq> CHR ''['' \<and> c \<noteq> CHR ''{''"
    using digit_starts by (auto simp: starts_value_def)
  with c(1) show ?case
    using parse_word_int [of _ i] by (auto simp: parse_value_other starts_skip)
next
  case (4 s)
  show ?case
  proof (intro allI impI)
    fix n r
    assume "length (js_stringify (JStr s)) < n"
    then obtain m where "n = Suc m" by (cases n) auto
    then show "parse_value n (js_stringify (JStr s) @ r) = Some (JStr s, r)"
      by (simp add: json_string_def parse_string_chars)
  qed
qed

lemma json_roundtrip: "wf_json j \<Longrightarrow> json_parse (js_stringify j) = Some j"
proof -
  assume "wf_json j"
  from parse_written [OF this, rule_format, of "Suc (length (js_stringify j))" "[]"]
  have "parse_value (Suc (length (js_stringify j))) (js_stringify j @ []) = Some (j, [])" by simp
  then show ?thesis by (simp add: json_parse_def)
qed

section \<open>\<open>String\<close>\<close>

text \<open>\<open>String(v)\<close>, which is what a template string writes.\<close>

fun js_String :: "json \<Rightarrow> string" where
  "js_String (JStr s) = s"
| "js_String (JArr xs) = join_with '','' (map (\<lambda>x. if x = JNull then [] else js_String x) xs)"
| "js_String (JObj kvs) = ''[object Object]''"
| "js_String j = js_stringify j"

section \<open>Base64\<close>

definition b64_char :: "nat \<Rightarrow> char" where
  "b64_char k = char_of (if k < 26 then 65 + k else if k < 52 then 71 + k else if k < 62 then k - 4
     else if k = 62 then 43 else 47)"

text \<open>\<open>Buffer\<close> also reads the URL alphabet.\<close>

definition b64_value :: "char \<Rightarrow> nat option" where
  "b64_value c = (let n = of_char c :: nat in
     if 65 \<le> n \<and> n \<le> 90 then Some (n - 65) else if 97 \<le> n \<and> n \<le> 122 then Some (n - 71)
     else if 48 \<le> n \<and> n \<le> 57 then Some (n + 4) else if n = 43 \<or> n = 45 then Some 62
     else if n = 47 \<or> n = 95 then Some 63 else None)"

fun b64_encode :: "nat list \<Rightarrow> string" where
  "b64_encode [] = ''''"
| "b64_encode [a] = [b64_char (a div 4), b64_char (a mod 4 * 16), CHR ''='', CHR ''='']"
| "b64_encode [a, b] =
     [b64_char (a div 4), b64_char (a mod 4 * 16 + b div 16), b64_char (b mod 16 * 4), CHR ''='']"
| "b64_encode (a # b # c # bs) =
     b64_char (a div 4) # b64_char (a mod 4 * 16 + b div 16) # b64_char (b mod 16 * 4 + c div 64) #
     b64_char (c mod 64) # b64_encode bs"

fun b64_bytes :: "nat list \<Rightarrow> nat list" where
  "b64_bytes (a # b # c # d # ks) =
     (a * 4 + b div 16) # (b mod 16 * 16 + c div 4) # (c mod 4 * 64 + d) # b64_bytes ks"
| "b64_bytes [a, b, c] = [a * 4 + b div 16, b mod 16 * 16 + c div 4]"
| "b64_bytes [a, b] = [a * 4 + b div 16]"
| "b64_bytes _ = []"

text \<open>Characters outside the alphabet are skipped, and the first \<open>=\<close> ends the text.\<close>

definition b64_decode :: "string \<Rightarrow> nat list" where
  "b64_decode s = b64_bytes (List.map_filter b64_value (takeWhile (\<lambda>c. c \<noteq> CHR ''='') s))"

lemma b64_chars: "k < 64 \<Longrightarrow> b64_value (b64_char k) = Some k \<and> b64_char k \<noteq> CHR ''=''"
proof -
  assume k: "k < 64"
  let ?n = "if k < 26 then 65 + k else if k < 52 then 71 + k else if k < 62 then k - 4 else if k = 62 then 43 else 47"
  have "?n < 256" using k by auto
  then have n: "of_char (b64_char k) = ?n" unfolding b64_char_def of_char_of by (rule mod_less)
  have e: "of_char (CHR ''='') = (61::nat)" by simp
  have "b64_char k \<noteq> CHR ''=''"
  proof
    assume "b64_char k = CHR ''=''"
    then have "?n = 61" using n e by simp
    then show False using k by (simp split: if_splits)
  qed
  moreover have "b64_value (b64_char k) = Some k"
    using k unfolding b64_value_def n Let_def by (auto split: if_splits)
  ultimately show ?thesis by simp
qed

lemma b64_decode_quad:
  assumes "k1 < 64" "k2 < 64" "k3 < 64" "k4 < 64"
  shows "b64_decode (b64_char k1 # b64_char k2 # b64_char k3 # b64_char k4 # s) =
    (k1 * 4 + k2 div 16) # (k2 mod 16 * 16 + k3 div 4) # (k3 mod 4 * 64 + k4) # b64_decode s"
  using assms by (simp add: b64_decode_def b64_chars map_filter_simps)

lemma b64_roundtrip: "\<forall>b\<in>set bs. b < 256 \<Longrightarrow> b64_decode (b64_encode bs) = bs"
proof (induction bs rule: b64_encode.induct)
  case 1
  then show ?case by (simp add: b64_decode_def map_filter_simps)
next
  case (2 a)
  then have "a div 4 < 64" "a mod 4 * 16 < 64" by auto
  then show ?case by (simp add: b64_decode_def b64_chars map_filter_simps)
next
  case (3 a b)
  then have "a div 4 < 64" "a mod 4 * 16 + b div 16 < 64" "b mod 16 * 4 < 64" by auto
  moreover have "(a mod 4 * 16 + b div 16) div 16 = a mod 4" "(a mod 4 * 16 + b div 16) mod 16 = b div 16" using 3 by auto
  ultimately show ?case by (simp add: b64_decode_def b64_chars map_filter_simps)
next
  case (4 a b c bs)
  then have "a div 4 < 64" "a mod 4 * 16 + b div 16 < 64" "b mod 16 * 4 + c div 64 < 64" "c mod 64 < 64" by auto
  moreover have "(a mod 4 * 16 + b div 16) div 16 = a mod 4" "(a mod 4 * 16 + b div 16) mod 16 = b div 16"
    "(b mod 16 * 4 + c div 64) div 4 = b mod 16" "(b mod 16 * 4 + c div 64) mod 4 = c div 64" using 4 by auto
  ultimately show ?case using 4 by (simp add: b64_decode_quad)
qed

text \<open>\<open>Buffer.from(s, 'utf8')\<close> and \<open>toString('utf8')\<close>.\<close>

definition str_bytes :: "string \<Rightarrow> nat list" where
  "str_bytes = map of_char"

definition bytes_str :: "nat list \<Rightarrow> string" where
  "bytes_str = map char_of"

lemma str_bytes_range: "b \<in> set (str_bytes s) \<Longrightarrow> b < 256"
  by (auto simp: str_bytes_def)

lemma bytes_str_bytes [simp]: "bytes_str (str_bytes s) = s"
  by (simp add: bytes_str_def str_bytes_def comp_def)

end
