(* ===== verification/V1Domain.thy ===== *)
theory V1Domain
  imports AntiReplay OnChain Json
begin

text \<open>
  The rows and the state of the services of the first version (\<open>verify-payment.ts\<close>,
  \<open>settle-payment.ts\<close> and the use cases), which write columns the current schema no longer
  has, and the failure helper those services share.
\<close>

section \<open>Rows\<close>

text \<open>\<open>verify-payment.ts\<close> stores the name of the network, the use case its chain id.\<close>

datatype network_ref = ByName string | ByChain int

record v1_request =
  vq_id :: string
  vq_seller :: string
  vq_buyer :: string
  vq_network :: network_ref
  vq_asset :: string
  vq_amount :: int
  vq_invoiceId :: string
  vq_scheme :: string
  vq_expiresAt :: int

record v1_settlement =
  vs_id :: string
  vs_requestId :: string
  vs_status :: settlement_status
  vs_settlementId :: "string option"
  vs_referralCode :: "string option"
  vs_txHash :: "string option"
  vs_feeAmount :: "int option"
  vs_developerShare :: "int option"
  vs_confirmedAt :: "int option"
  vs_errorReason :: "string option"

record v1_receipt =
  vc_id :: string
  vc_requestId :: string
  vc_settlementId :: "string option"
  vc_protocolVersion :: string
  vc_responsePayload :: json

definition v1_request_clash :: "v1_request \<Rightarrow> v1_request \<Rightarrow> bool" where
  "v1_request_clash r q \<longleftrightarrow> vq_id r = vq_id q"

definition v1_settlement_clash :: "v1_settlement \<Rightarrow> v1_settlement \<Rightarrow> bool" where
  "v1_settlement_clash r q \<longleftrightarrow> vs_id r = vs_id q \<or> same_value (vs_settlementId r) (vs_settlementId q) \<or>
     same_value (vs_txHash r) (vs_txHash q)"

definition v1_receipt_clash :: "v1_receipt \<Rightarrow> v1_receipt \<Rightarrow> bool" where
  "v1_receipt_clash r q \<longleftrightarrow> vc_id r = vc_id q \<or> vc_requestId r = vc_requestId q"

record v1_db =
  vd_requests :: "v1_request list"
  vd_verifications :: "payment_verification list"
  vd_settlements :: "v1_settlement list"
  vd_receipts :: "v1_receipt list"

record v1_world =
  vw_keys :: keyspace
  vw_db :: v1_db
  vw_submitted :: chain_log

definition v1_keys :: "(keyspace, exn, 'a) prog \<Rightarrow> (v1_world, exn, 'a) prog" where
  "v1_keys = zoom vw_keys (\<lambda>x w. w\<lparr>vw_keys := x\<rparr>)"

definition v1_in_db :: "(v1_db, exn, 'a) prog \<Rightarrow> (v1_world, exn, 'a) prog" where
  "v1_in_db = zoom vw_db (\<lambda>x w. w\<lparr>vw_db := x\<rparr>)"

definition v1_chain :: "(chain_log, exn, 'a) prog \<Rightarrow> (v1_world, exn, 'a) prog" where
  "v1_chain = zoom vw_submitted (\<lambda>x w. w\<lparr>vw_submitted := x\<rparr>)"

definition at_requests :: "(v1_request list, exn, 'a) prog \<Rightarrow> (v1_db, exn, 'a) prog" where
  "at_requests = zoom vd_requests (\<lambda>x d. d\<lparr>vd_requests := x\<rparr>)"

definition at_verifications :: "(payment_verification list, exn, 'a) prog \<Rightarrow> (v1_db, exn, 'a) prog" where
  "at_verifications = zoom vd_verifications (\<lambda>x d. d\<lparr>vd_verifications := x\<rparr>)"

definition at_settlements :: "(v1_settlement list, exn, 'a) prog \<Rightarrow> (v1_db, exn, 'a) prog" where
  "at_settlements = zoom vd_settlements (\<lambda>x d. d\<lparr>vd_settlements := x\<rparr>)"

definition at_receipts :: "(v1_receipt list, exn, 'a) prog \<Rightarrow> (v1_db, exn, 'a) prog" where
  "at_receipts = zoom vd_receipts (\<lambda>x d. d\<lparr>vd_receipts := x\<rparr>)"

lemmas v1_zoom_defs = v1_keys_def v1_in_db_def v1_chain_def at_requests_def at_verifications_def
  at_settlements_def at_receipts_def

declare v1_keys_def [run_simps] v1_in_db_def [run_simps] v1_chain_def [run_simps] at_requests_def [run_simps]
  at_verifications_def [run_simps] at_settlements_def [run_simps] at_receipts_def [run_simps]

definition v1_empty :: v1_world where
  "v1_empty = \<lparr>vw_keys = Map.empty,
     vw_db = \<lparr>vd_requests = [], vd_verifications = [], vd_settlements = [], vd_receipts = []\<rparr>,
     vw_submitted = []\<rparr>"

definition fail :: "string \<Rightarrow> string \<Rightarrow> string option \<Rightarrow> ('w, exn, 'a) prog" where
  "fail code message correlationId = throw (Facilitator (createError code (Some message) correlationId))"

lemma fail_eq [run_simps]:
  "fail code msg cid w = (r, w') \<longleftrightarrow> r = Inl (Facilitator (createError code (Some msg) cid)) \<and> w' = w"
  by (simp add: fail_def run_simps)

end
