(* ===== verification/VerifyPayment.thy ===== *)
theory VerifyPayment
  imports V1Domain NetworkRegistry
begin

text \<open>
  \<open>src/application/verify-payment.ts\<close>: the verify use case that claims lower-cased nonces and
  rolls its claims back. The network registry it is given, the recovery of the signer
  (viem), SHA-256, the text of the parser's issues, the identifiers and the two readings of
  the clock are parameters. An error is a thrown \<open>FacilitatorError\<close>.
\<close>

section \<open>The use case\<close>

text \<open>\<open>assets\<close> is a record, so \<open>assets[symbol]\<close> is a partial map.\<close>

record v1_asset_config =
  va_symbol :: string
  va_contractAddress :: string
  va_decimals :: int
  va_eip712Version :: string

record v1_network_config =
  vn_chainId :: int
  vn_name :: string
  vn_assets :: "string \<Rightarrow> v1_asset_config option"

record verify_deps =
  dp_redis :: redis_api
  dp_request :: "v1_request delegate"
  dp_verification :: "payment_verification delegate"
  dp_tx :: "(v1_db, string \<times> string) transact"
  dp_getNetwork :: "string \<Rightarrow> v1_network_config option"
  dp_recover :: recover_fn
  dp_sha256 :: "string \<Rightarrow> string"
  dp_issueText :: "string list \<Rightarrow> string"

record verify_result =
  vt_requestId :: string
  vt_verificationId :: string
  vt_paymentRequestId :: string
  vt_network :: string
  vt_asset :: string
  vt_amount :: string
  vt_from :: string
  vt_to :: string
  vt_invoiceId :: string
  vt_expiresAt :: string
  vt_verifiedAt :: string

definition computePayloadHash :: "(string \<Rightarrow> string) \<Rightarrow> verify_request \<Rightarrow> string" where
  "computePayloadHash sha256 req = (let auth = vp_authorization (vr_payload req) in
     sha256 (js_stringify (JObj
       [(''version'', JStr (vr_version req)), (''scheme'', JStr (vr_scheme req)),
        (''network'', JStr (vr_network req)), (''asset'', JStr (vr_asset req)),
        (''invoiceId'', JStr (vr_invoiceId req)), (''requiredAmount'', JStr (vr_requiredAmount req)),
        (''recipient'', JStr (toLowerCase (vr_recipient req))),
        (''authorization'', JObj
          [(''from'', JStr (toLowerCase (au_from auth))), (''to'', JStr (toLowerCase (au_to auth))),
           (''value'', JStr (au_value auth)), (''validAfter'', JNum (au_validAfter auth)),
           (''validBefore'', JNum (au_validBefore auth)), (''nonce'', JStr (toLowerCase (au_nonce auth)))]),
        (''signature'', JStr (toLowerCase (vp_signature (vr_payload req))))])))"

text \<open>Steps 1 to 6: the checks without effects; the request, its network and its asset.\<close>

definition verify_checks ::
  "verify_deps \<Rightarrow> json \<Rightarrow> string \<Rightarrow> int \<Rightarrow> ('w, exn, verify_request \<times> v1_network_config \<times> v1_asset_config) prog" where
  "verify_checks D rawBody requestId now =
     (case parseVerifyRequest rawBody of
        Inl issues \<Rightarrow> fail ''invalid_payload'' (dp_issueText D issues) None
      | Inr req \<Rightarrow>
     (case dp_getNetwork D (vr_network req) of
        None \<Rightarrow> fail ''unsupported_network''
                  (''Network '' @ quoted (vr_network req) @ '' is not supported'') (Some requestId)
      | Some network \<Rightarrow>
     (case vn_assets network (vr_asset req) of
        None \<Rightarrow> fail ''unsupported_asset''
                  (''Asset '' @ quoted (vr_asset req) @ '' is not supported on network '' @ quoted (vr_network req))
                  (Some requestId)
      | Some asset \<Rightarrow>
          (let auth = vp_authorization (vr_payload req) in
           if au_validBefore auth \<le> now div 1000 then
             seq (iso (au_validBefore auth * 1000)) (\<lambda>t.
             fail ''expired_payment'' (''Payment expired at '' @ t) (Some requestId))
           else if toLowerCase (au_to auth) \<noteq> toLowerCase (vr_recipient req) then
             fail ''invalid_payload''
               (''Recipient mismatch: payload.to='' @ au_to auth @ '' != recipient='' @ vr_recipient req)
               (Some requestId)
           else if bigint_of (au_value auth) < bigint_of (vr_requiredAmount req) then
             fail ''invalid_payload''
               (''Amount too low: got '' @ au_value auth @ '', required '' @ vr_requiredAmount req)
               (Some requestId)
           else ret (req, network, asset)))))"

text \<open>Undoing the two claims.\<close>

definition release_claims :: "verify_deps \<Rightarrow> string \<Rightarrow> string \<Rightarrow> (v1_world, exn, unit) prog" where
  "release_claims D nonce signatureHash =
     seq (v1_keys (releaseNonce (dp_redis D) nonce)) (\<lambda>_.
     v1_keys (releaseSignatureHash (dp_redis D) signatureHash))"

text \<open>Step 10: the body of the transaction.\<close>

definition verify_commit ::
  "verify_deps \<Rightarrow> verify_request \<Rightarrow> string \<Rightarrow> string \<Rightarrow> int \<Rightarrow> (v1_db, exn, string \<times> string) prog" where
  "verify_commit D req requestId verificationId clock =
     (let auth = vp_authorization (vr_payload req);
          signatureHash = computeSignatureHash (vp_signature (vr_payload req)) in
      seq (at_requests (db_create (dp_request D)
             \<lparr>vq_id = requestId, vq_seller = au_to auth, vq_buyer = au_from auth,
              vq_network = ByName (vr_network req), vq_asset = vr_asset req,
              vq_amount = bigint_of (au_value auth), vq_invoiceId = vr_invoiceId req,
              vq_scheme = vr_scheme req, vq_expiresAt = au_validBefore auth * 1000\<rparr>)) (\<lambda>pr.
      seq (at_verifications (db_create (dp_verification D)
             \<lparr>pv_id = verificationId, pv_requestId = vq_id pr, pv_status = VAccepted,
              pv_errorCode = None, pv_reason = None, pv_signatureHash = Some signatureHash,
              pv_nonce = Some (au_nonce auth),
              pv_payloadHash = Some (computePayloadHash (dp_sha256 D) req), pv_createdAt = clock\<rparr>)) (\<lambda>v.
      ret (vq_id pr, pv_id v))))"

definition verify_persist ::
  "verify_deps \<Rightarrow> verify_request \<Rightarrow> string \<Rightarrow> string \<Rightarrow> int \<Rightarrow> (v1_world, exn, verify_result) prog" where
  "verify_persist D req requestId verificationId verifiedAt =
     (let auth = vp_authorization (vr_payload req) in
      seq (v1_in_db (dp_tx D (verify_commit D req requestId verificationId verifiedAt))) (\<lambda>ids.
      seq (iso (au_validBefore auth * 1000)) (\<lambda>expires.
      seq (iso verifiedAt) (\<lambda>verified.
      ret \<lparr>vt_requestId = requestId, vt_verificationId = snd ids, vt_paymentRequestId = fst ids,
           vt_network = vr_network req, vt_asset = vr_asset req, vt_amount = au_value auth,
           vt_from = au_from auth, vt_to = au_to auth, vt_invoiceId = vr_invoiceId req,
           vt_expiresAt = expires, vt_verifiedAt = verified\<rparr>))))"

text \<open>Steps 8 to 10, with both claims held.\<close>

definition verify_claimed ::
  "verify_deps \<Rightarrow> verify_request \<Rightarrow> v1_network_config \<Rightarrow> v1_asset_config \<Rightarrow> string \<Rightarrow> string \<Rightarrow> int \<Rightarrow>
   (v1_world, exn, verify_result) prog" where
  "verify_claimed D req network asset requestId verificationId verifiedAt =
     (let auth = vp_authorization (vr_payload req);
          signature = vp_signature (vr_payload req);
          release = release_claims D (au_nonce auth) (computeSignatureHash signature) in
      case verifyErc3009Signature (dp_recover D) auth signature (va_contractAddress asset)
             (vn_chainId network) (va_eip712Version asset) of
        Inl err \<Rightarrow>
          seq release (\<lambda>_.
          fail ''invalid_signature'' ''Signature verification failed'' (Some requestId))
      | Inr recoveredAddress \<Rightarrow>
          if toLowerCase recoveredAddress \<noteq> toLowerCase (au_from auth) then
            seq release (\<lambda>_.
            fail ''invalid_signature''
              (''Signature signer mismatch: recovered '' @ recoveredAddress @ '', expected '' @ au_from auth)
              (Some requestId))
          else
            try_catch (verify_persist D req requestId verificationId verifiedAt)
              (\<lambda>err. seq release (\<lambda>_.
                 throw (Facilitator (createError ''internal_error'' None (Some requestId))))))"

text \<open>Step 7 and what follows.\<close>

definition verifyPayment ::
  "verify_deps \<Rightarrow> json \<Rightarrow> string \<Rightarrow> string \<Rightarrow> int \<Rightarrow> int \<Rightarrow> (v1_world, exn, verify_result) prog" where
  "verifyPayment D rawBody requestId verificationId now verifiedAt =
     seq (verify_checks D rawBody requestId now) (\<lambda>(req, network, asset).
     let nonce = au_nonce (vp_authorization (vr_payload req));
         signatureHash = computeSignatureHash (vp_signature (vr_payload req)) in
     seq (v1_keys (claimNonce (dp_redis D) nonce)) (\<lambda>nonceClaimed.
     if \<not> nonceClaimed then
       fail ''duplicate_payment'' ''Payment already used (nonce already claimed)'' (Some requestId)
     else
       seq (v1_keys (claimSignatureHash (dp_redis D) signatureHash)) (\<lambda>sigClaimed.
       if \<not> sigClaimed then
         seq (v1_keys (releaseNonce (dp_redis D) nonce)) (\<lambda>_.
         fail ''duplicate_payment'' ''Payment already used (signature already claimed)'' (Some requestId))
       else verify_claimed D req network asset requestId verificationId verifiedAt)))"

section \<open>Lemmas\<close>

lemma checks_Inr:
  assumes "verify_checks D raw rid now w = (Inr (req, network, asset), w')"
  shows "w' = w \<and> parseVerifyRequest raw = Inr req \<and> dp_getNetwork D (vr_network req) = Some network \<and>
    vn_assets network (vr_asset req) = Some asset \<and>
    now div 1000 < au_validBefore (vp_authorization (vr_payload req)) \<and>
    toLowerCase (au_to (vp_authorization (vr_payload req))) = toLowerCase (vr_recipient req) \<and>
    bigint_of (vr_requiredAmount req) \<le> bigint_of (au_value (vp_authorization (vr_payload req)))"
  using assms unfolding verify_checks_def by (auto simp: run_simps Let_def)

lemma checks_Inl: "verify_checks D raw rid now w = (Inl e, w') \<Longrightarrow> w' = w"
  unfolding verify_checks_def by (auto simp: run_simps Let_def)

definition nonce_of :: "verify_request \<Rightarrow> string" where
  "nonce_of req = nonce_key (toLowerCase (au_nonce (vp_authorization (vr_payload req))))"

definition sig_of :: "verify_request \<Rightarrow> string" where
  "sig_of req = sig_key (toLowerCase (vp_signature (vr_payload req)))"

locale verify_payment =
  redis_store "dp_redis D" + Q: prisma_table "dp_request D" v1_request_clash +
  V: prisma_table "dp_verification D" verification_clash +
  T: transactional "dp_tx D" for D :: verify_deps
begin

lemma release_keys:
  assumes "release_claims D (au_nonce (vp_authorization (vr_payload req)))
      (computeSignatureHash (vp_signature (vr_payload req))) w = (Inr u, w')"
  shows "w' = w\<lparr>vw_keys := (vw_keys w)(nonce_of req := None, sig_of req := None)\<rparr>"
  using assms unfolding release_claims_def releaseNonce_def releaseSignatureHash_def computeSignatureHash_def
    nonce_of_def sig_of_def
  by (auto simp: run_simps dest!: del_ok)

lemma release_answers:
  assumes "redis_answers (dp_redis D)"
  shows "\<exists>w'. release_claims D n h w = (Inr (), w')"
proof -
  obtain k1 where k1: "redis_del (dp_redis D) (nonce_key (toLowerCase n)) (vw_keys w) = (Inr (), k1)"
    using assms unfolding redis_answers_def by blast
  obtain k2 where "redis_del (dp_redis D) (sig_key (toLowerCase h)) k1 = (Inr (), k2)"
    using assms unfolding redis_answers_def by blast
  with k1 show ?thesis
    by (simp add: release_claims_def releaseNonce_def releaseSignatureHash_def v1_zoom_defs zoom_def seq_def)
qed

lemma persist_ok:
  assumes "verify_persist D req rid vid clock w = (Inr res, w')"
  shows "vw_keys w' = vw_keys w \<and> vt_requestId res = rid \<and> vt_verificationId res = vid \<and>
    (\<exists>q v. vd_requests (vw_db w') = vd_requests (vw_db w) @ [q] \<and> vq_id q = rid \<and>
       vq_amount q = bigint_of (au_value (vp_authorization (vr_payload req))) \<and>
       vq_seller q = au_to (vp_authorization (vr_payload req)) \<and>
       vd_verifications (vw_db w') = vd_verifications (vw_db w) @ [v] \<and> pv_requestId v = rid \<and>
       pv_status v = VAccepted \<and> pv_nonce v = Some (au_nonce (vp_authorization (vr_payload req))))"
  using assms unfolding verify_persist_def verify_commit_def Let_def
  by (auto simp: run_simps dest!: T.tx_ok Q.create_ok V.create_ok)

lemma persist_err:
  assumes "verify_persist D req rid vid clock w = (Inl e, w')"
    and "valid_time (au_validBefore (vp_authorization (vr_payload req)) * 1000)" and "valid_time clock"
  shows "w' = w"
proof -
  have "toISOString (au_validBefore (vp_authorization (vr_payload req)) * 1000) \<noteq> None" "toISOString clock \<noteq> None"
    using assms(2,3) toISOString_Some_iff by (metis option.distinct(1))+
  then show ?thesis
    using assms(1) unfolding verify_persist_def Let_def by (auto simp: run_simps dest!: T.tx_err)
qed

lemma claims_Inr:
  assumes "verifyPayment D raw rid vid now clock w = (Inr res, w')"
  shows "\<exists>req network asset w1. verify_checks D raw rid now w = (Inr (req, network, asset), w) \<and>
    vw_keys w (nonce_of req) = None \<and> vw_keys w (sig_of req) = None \<and>
    w1 = w\<lparr>vw_keys := (vw_keys w)(nonce_of req \<mapsto> 1, sig_of req \<mapsto> 1)\<rparr> \<and>
    verify_claimed D req network asset rid vid clock w1 = (Inr res, w')"
proof -
  from assms obtain req network asset w0 k1 k2 where
    c: "verify_checks D raw rid now w = (Inr (req, network, asset), w0)" and
    n: "claimNonce (dp_redis D) (au_nonce (vp_authorization (vr_payload req))) (vw_keys w0) = (Inr True, k1)" and
    s: "claimSignatureHash (dp_redis D) (computeSignatureHash (vp_signature (vr_payload req))) k1 = (Inr True, k2)" and
    r: "verify_claimed D req network asset rid vid clock (w0\<lparr>vw_keys := k2\<rparr>) = (Inr res, w')"
    unfolding verifyPayment_def Let_def by (auto simp: run_simps)
  have w0: "w0 = w" using checks_Inr [OF c] by simp
  have k1: "k1 = (vw_keys w)(nonce_of req \<mapsto> 1)" "vw_keys w (nonce_of req) = None"
    using n w0 unfolding claimNonce_def nonce_of_def by (auto dest!: set_nx_ok split: if_splits)
  have k2: "k2 = k1(sig_of req \<mapsto> 1)" "k1 (sig_of req) = None"
    using s unfolding claimSignatureHash_def sig_of_def computeSignatureHash_def
    by (auto dest!: set_nx_ok split: if_splits)
  show ?thesis using c w0 k1 k2 r by (auto simp: nonce_of_def sig_of_def split: if_splits)
qed

lemma claimed_error:
  assumes "verify_claimed D req network asset rid vid clock
      (w\<lparr>vw_keys := (vw_keys w)(nonce_of req \<mapsto> 1, sig_of req \<mapsto> 1)\<rparr>) = (Inl e, w')"
    and "redis_answers (dp_redis D)" and "vw_keys w (nonce_of req) = None" and "vw_keys w (sig_of req) = None"
    and "valid_time (au_validBefore (vp_authorization (vr_payload req)) * 1000)" and "valid_time clock"
  shows "w' = w"
proof -
  let ?w1 = "w\<lparr>vw_keys := (vw_keys w)(nonce_of req \<mapsto> 1, sig_of req \<mapsto> 1)\<rparr>"
  let ?rel = "release_claims D (au_nonce (vp_authorization (vr_payload req)))
      (computeSignatureHash (vp_signature (vr_payload req)))"
  obtain w2 where rel: "?rel ?w1 = (Inr (), w2)" using release_answers [OF assms(2)] by blast
  have "w2 = w\<lparr>vw_keys := (vw_keys w)(nonce_of req := None, sig_of req := None)\<rparr>"
    using release_keys [OF rel] by simp
  also have "(vw_keys w)(nonce_of req := None, sig_of req := None) = vw_keys w"
    using assms(3,4) by auto
  finally have w2: "w2 = w" by simp
  show ?thesis
    using assms(1) rel w2 unfolding verify_claimed_def Let_def
    by (auto simp: run_simps dest!: persist_err [OF _ assms(5,6)])
qed

lemma error_restores:
  assumes "verifyPayment D raw rid vid now clock w = (Inl e, w')" and "redis_answers (dp_redis D)"
    and "valid_time clock"
    and "\<And>req. parseVerifyRequest raw = Inr req \<Longrightarrow>
      valid_time (au_validBefore (vp_authorization (vr_payload req)) * 1000)"
  shows "w' = w"
proof -
  obtain c w0 where c: "verify_checks D raw rid now w = (c, w0)" by fastforce
  show ?thesis
  proof (cases c)
    case (Inl e0)
    then show ?thesis using assms(1) c checks_Inl unfolding verifyPayment_def by (auto simp: seq_def)
  next
    case (Inr y)
    then obtain req network asset where y: "y = (req, network, asset)" by (metis prod_cases3)
    note ok = checks_Inr [OF c [unfolded Inr y]]
    let ?n = "au_nonce (vp_authorization (vr_payload req))"
    let ?h = "computeSignatureHash (vp_signature (vr_payload req))"
    obtain b k1 where n: "claimNonce (dp_redis D) ?n (vw_keys w) = (Inr b, k1)"
      using assms(2) unfolding redis_answers_def claimNonce_def by blast
    have k1: "b = (vw_keys w (nonce_of req) = None)"
      "k1 = (if b then (vw_keys w)(nonce_of req \<mapsto> 1) else vw_keys w)"
      using n unfolding claimNonce_def nonce_of_def by (auto dest!: set_nx_ok)
    obtain b' k2 where s: "claimSignatureHash (dp_redis D) ?h k1 = (Inr b', k2)"
      using assms(2) unfolding redis_answers_def claimSignatureHash_def by blast
    have k2: "b' = (k1 (sig_of req) = None)" "k2 = (if b' then k1(sig_of req \<mapsto> 1) else k1)"
      using s unfolding claimSignatureHash_def sig_of_def computeSignatureHash_def by (auto dest!: set_nx_ok)
    obtain k3 where d: "releaseNonce (dp_redis D) ?n k2 = (Inr (), k3)"
      using assms(2) unfolding redis_answers_def releaseNonce_def by blast
    have k3: "k3 = k2(nonce_of req := None)"
      using d unfolding releaseNonce_def nonce_of_def by (auto dest!: del_ok)
    have undo: "(vw_keys w)(nonce_of req := None) = vw_keys w" if "b"
      using that k1(1) by auto
    consider "\<not> b" | "b" "\<not> b'" | "b" "b'" by blast
    then show ?thesis
    proof cases
      case 1
      then show ?thesis using assms(1) c Inr y ok n k1 unfolding verifyPayment_def Let_def
        by (auto simp: run_simps)
    next
      case 2
      then show ?thesis using assms(1) c Inr y ok n s d k1 k2 k3 undo unfolding verifyPayment_def Let_def
        by (auto simp: run_simps)
    next
      case 3
      then have "k2 = (vw_keys w)(nonce_of req \<mapsto> 1, sig_of req \<mapsto> 1)" "vw_keys w (nonce_of req) = None"
        "vw_keys w (sig_of req) = None"
        using k1 k2 by (auto simp: nonce_of_def sig_of_def)
      moreover have "verify_claimed D req network asset rid vid clock (w\<lparr>vw_keys := k2\<rparr>) = (Inl e, w')"
        using assms(1) c Inr y ok n s 3 unfolding verifyPayment_def Let_def by (auto simp: run_simps)
      ultimately show ?thesis using claimed_error assms(2-4) ok by blast
    qed
  qed
qed

end

lemma verifyPayment_fresh:
  assumes "verify_payment D" and "verifyPayment D raw rid vid now clock w = (Inr res, w')"
    and "parseVerifyRequest raw = Inr req"
  shows "vw_keys w (nonce_of req) = None" and "vw_keys w (sig_of req) = None"
proof -
  from verify_payment.claims_Inr [OF assms(1,2)] obtain req0 network asset where
    "verify_checks D raw rid now w = (Inr (req0, network, asset), w)"
    "vw_keys w (nonce_of req0) = None" "vw_keys w (sig_of req0) = None" by blast
  then show "vw_keys w (nonce_of req) = None" and "vw_keys w (sig_of req) = None"
    using checks_Inr assms(3) by fastforce+
qed

lemma verifyPayment_held:
  assumes "verify_payment D" and "verifyPayment D raw rid vid now clock w = (Inr res, w')"
    and "parseVerifyRequest raw = Inr req"
  shows "vw_keys w' (nonce_of req) \<noteq> None" and "vw_keys w' (sig_of req) \<noteq> None"
proof -
  from verify_payment.claims_Inr [OF assms(1,2)] obtain req0 network asset where
    c: "verify_checks D raw rid now w = (Inr (req0, network, asset), w)" and
    v: "verify_claimed D req0 network asset rid vid clock
      (w\<lparr>vw_keys := (vw_keys w)(nonce_of req0 \<mapsto> 1, sig_of req0 \<mapsto> 1)\<rparr>) = (Inr res, w')" by blast
  have "req0 = req" using checks_Inr [OF c] assms(3) by simp
  moreover have "vw_keys w' = (vw_keys w)(nonce_of req0 \<mapsto> 1, sig_of req0 \<mapsto> 1)"
    using v unfolding verify_claimed_def Let_def
    by (auto simp: run_simps dest!: verify_payment.persist_ok [OF assms(1)])
  ultimately show "vw_keys w' (nonce_of req) \<noteq> None" and "vw_keys w' (sig_of req) \<noteq> None" by simp_all
qed

section \<open>Properties\<close>

text \<open>C6. \<open>verifyPayment\<close> succeeds only on a parsed request for a known network and asset that has
  not expired, goes to the recipient and pays the required amount, and whose signature
  recovers to the payer (addresses compared without case); nonce and signature, in lower
  case, were unclaimed and are claimed afterwards, and one request and one accepted
  verification are stored.\<close>

theorem verifyPayment_sound:
  assumes "verify_payment D"
    and "verifyPayment D raw rid vid now clock w = (Inr res, w')"
  shows "\<exists>req network asset addr. parseVerifyRequest raw = Inr req \<and>
    dp_getNetwork D (vr_network req) = Some network \<and> vn_assets network (vr_asset req) = Some asset \<and>
    now div 1000 < au_validBefore (vp_authorization (vr_payload req)) \<and>
    toLowerCase (au_to (vp_authorization (vr_payload req))) = toLowerCase (vr_recipient req) \<and>
    bigint_of (vr_requiredAmount req) \<le> bigint_of (au_value (vp_authorization (vr_payload req))) \<and>
    verifyErc3009Signature (dp_recover D) (vp_authorization (vr_payload req)) (vp_signature (vr_payload req))
      (va_contractAddress asset) (vn_chainId network) (va_eip712Version asset) = Inr addr \<and>
    toLowerCase addr = toLowerCase (au_from (vp_authorization (vr_payload req))) \<and>
    vw_keys w (nonce_of req) = None \<and> vw_keys w (sig_of req) = None \<and>
    vw_keys w' = (vw_keys w)(nonce_of req \<mapsto> 1, sig_of req \<mapsto> 1) \<and>
    length (vd_requests (vw_db w')) = length (vd_requests (vw_db w)) + 1 \<and>
    (\<exists>v. vd_verifications (vw_db w') = vd_verifications (vw_db w) @ [v] \<and> pv_status v = VAccepted \<and>
       pv_nonce v = Some (au_nonce (vp_authorization (vr_payload req))))"
proof -
  from verify_payment.claims_Inr [OF assms] obtain req network asset where
    c: "verify_checks D raw rid now w = (Inr (req, network, asset), w)" and
    k: "vw_keys w (nonce_of req) = None" "vw_keys w (sig_of req) = None" and
    v: "verify_claimed D req network asset rid vid clock
      (w\<lparr>vw_keys := (vw_keys w)(nonce_of req \<mapsto> 1, sig_of req \<mapsto> 1)\<rparr>) = (Inr res, w')"
    by blast
  from v obtain addr where
    a: "verifyErc3009Signature (dp_recover D) (vp_authorization (vr_payload req)) (vp_signature (vr_payload req))
      (va_contractAddress asset) (vn_chainId network) (va_eip712Version asset) = Inr addr"
    "toLowerCase addr = toLowerCase (au_from (vp_authorization (vr_payload req)))" and
    p: "verify_persist D req rid vid clock
      (w\<lparr>vw_keys := (vw_keys w)(nonce_of req \<mapsto> 1, sig_of req \<mapsto> 1)\<rparr>) = (Inr res, w')"
    unfolding verify_claimed_def Let_def by (auto simp: run_simps)
  from verify_payment.persist_ok [OF assms(1) p] show ?thesis
    using checks_Inr [OF c] k a by (intro exI [of _ req] exI [of _ network] exI [of _ asset] exI [of _ addr]) auto
qed

definition sample_deps :: verify_deps where
  "sample_deps =
     \<lparr>dp_redis = mock_redis, dp_request = table_of v1_request_clash,
      dp_verification = table_of verification_clash, dp_tx = pg_transaction,
      dp_getNetwork = [''base-mainnet'' \<mapsto> \<lparr>vn_chainId = 8453, vn_name = ''base-mainnet'',
        vn_assets = [''usdc'' \<mapsto> \<lparr>va_symbol = ''usdc'', va_contractAddress = ''0xc'', va_decimals = 6,
           va_eip712Version = ''2''\<rparr>]\<rparr>],
      dp_recover = (\<lambda>dm m sg. if sg = ''0x'' @ replicate 130 (CHR ''c'') then Inr (tm_from m)
                             else Inl (plainError ''bad signature'')),
      dp_sha256 = id, dp_issueText = concat\<rparr>"

lemma sample_deps_ok: "verify_payment sample_deps"
  by (simp add: verify_payment_def sample_deps_def mock_redis_store table_of_prisma pg_transactional)

interpretation sample_payment: verify_payment sample_deps
  by (rule sample_deps_ok)

lemmas verify_payment_simps = verifyPayment_def verify_checks_def verify_claimed_def verify_persist_def verify_commit_def
  claimNonce_def claimSignatureHash_def releaseNonce_def releaseSignatureHash_def release_claims_def
  verifyErc3009Signature_def v1_zoom_defs zoom_def seq_def ret_def throw_def fail_def try_catch_def mock_redis_def
  table_of_def pg_transaction_def v1_empty_def sample_deps_def Let_def iso_def

lemma sample_raw_fields:
  "vr_network sample_request = ''base-mainnet''" "vr_asset sample_request = ''usdc''"
  "au_validBefore (vp_authorization (vr_payload sample_request)) = 2000"
  "\<not> (bigint_of (au_value (vp_authorization (vr_payload sample_request))) < bigint_of (vr_requiredAmount sample_request))"
  "toLowerCase (au_to (vp_authorization (vr_payload sample_request))) = toLowerCase (vr_recipient sample_request)"
  "vp_signature (vr_payload sample_request) = ''0x'' @ replicate 130 (CHR ''c'')"
  by code_simp+

lemma sample_iso: "\<exists>s. toISOString 2000000 = Some s" "\<exists>s. toISOString 1000500 = Some s"
  by (simp_all add: toISOString_Some_iff valid_time_def)

lemma sample_verifies:
  "\<exists>res w'. verifyPayment sample_deps (encode_request sample_request) ''r'' ''v'' 1000000 1000500 v1_empty = (Inr res, w')"
  using sample_iso
  by (auto simp: verify_payment_simps parse_sample sample_raw_fields simp del: not_less)

theorem verifyPayment_sound_witness:
  "\<exists>res w'. verifyPayment sample_deps (encode_request sample_request) ''r'' ''v'' 1000000 1000500 v1_empty
       = (Inr res, w') \<and> vw_keys w' (nonce_of sample_request) = Some 1"
proof -
  obtain res w' where run:
    "verifyPayment sample_deps (encode_request sample_request) ''r'' ''v'' 1000000 1000500 v1_empty = (Inr res, w')"
    using sample_verifies by blast
  from verifyPayment_sound [OF sample_deps_ok run] have "vw_keys w' (nonce_of sample_request) = Some 1"
    by (auto simp: parse_sample nonce_of_def sig_of_def)
  with run show ?thesis by blast
qed

text \<open>C14. All or nothing, as long as Redis answers every command and the clock and the expiry of the
  proof are in the range of \<open>Date\<close>: a call that throws, for whatever reason and at whatever
  step, leaves Redis, the database and the chain exactly as they were, so the payment can be
  presented again. (A \<open>DEL\<close> that fails can leave a claim behind.)\<close>

theorem verifyPayment_rollback:
  assumes "verify_payment D" and "redis_answers (dp_redis D)" and "valid_time clock"
    and "\<And>req. parseVerifyRequest raw = Inr req \<Longrightarrow>
      valid_time (au_validBefore (vp_authorization (vr_payload req)) * 1000)"
    and "verifyPayment D raw rid vid now clock w = (Inl e, w')"
  shows "w' = w"
  using verify_payment.error_restores [OF assms(1,5,2,3,4)] .

theorem verifyPayment_rollback_witness:
  "snd (verifyPayment (sample_deps\<lparr>dp_recover := \<lambda>_ _ _. Inr ''0xother''\<rparr>) (encode_request sample_request) ''r'' ''v''
     1000000 1000500 v1_empty) = v1_empty"
proof -
  let ?D = "sample_deps\<lparr>dp_recover := \<lambda>_ _ _. Inr ''0xother''\<rparr>"
  have ok: "verify_payment ?D" using sample_deps_ok by (simp add: verify_payment_def)
  have r: "redis_answers (dp_redis ?D)" by (simp add: sample_deps_def mock_answers)
  have t: "valid_time (au_validBefore (vp_authorization (vr_payload req)) * 1000)"
    if "parseVerifyRequest (encode_request sample_request) = Inr req" for req
    using that parse_sample by (auto simp: sample_raw_fields valid_time_def)
  have a: "toLowerCase ''0xother'' \<noteq> toLowerCase (au_from (vp_authorization (vr_payload sample_request)))"
    by code_simp
  have "\<exists>e w'. verifyPayment ?D (encode_request sample_request) ''r'' ''v'' 1000000 1000500 v1_empty = (Inl e, w')"
    using sample_iso a
    by (auto simp: verify_payment_simps parse_sample sample_raw_fields simp del: not_less)
  then obtain e w' where run:
    "verifyPayment ?D (encode_request sample_request) ''r'' ''v'' 1000000 1000500 v1_empty = (Inl e, w')" by blast
  show ?thesis
    using verifyPayment_rollback [OF ok r _ t run] run by (simp add: valid_time_def)
qed

text \<open>C13. No replay in any spelling: while the claim of an accepted payment lasts, a request with
  the same nonce or the same signature, whatever the case of its hexadecimal digits, is not
  accepted.\<close>

theorem verifyPayment_no_replay:
  assumes "verify_payment D"
    and "verifyPayment D raw rid vid now clock w = (Inr res, w1)" and "parseVerifyRequest raw = Inr req"
    and "vw_keys w2 (nonce_of req) = vw_keys w1 (nonce_of req)"
    and "vw_keys w2 (sig_of req) = vw_keys w1 (sig_of req)"
    and "parseVerifyRequest raw' = Inr req'"
    and "toLowerCase (au_nonce (vp_authorization (vr_payload req'))) =
           toLowerCase (au_nonce (vp_authorization (vr_payload req))) \<or>
         toLowerCase (vp_signature (vr_payload req')) = toLowerCase (vp_signature (vr_payload req))"
  shows "verifyPayment D raw' rid' vid' now' clock' w2 \<noteq> (Inr res', w3)"
proof
  assume again: "verifyPayment D raw' rid' vid' now' clock' w2 = (Inr res', w3)"
  have held: "vw_keys w1 (nonce_of req) \<noteq> None" "vw_keys w1 (sig_of req) \<noteq> None"
    using verifyPayment_held [OF assms(1-3)] by simp_all
  have "nonce_of req' = nonce_of req \<or> sig_of req' = sig_of req"
    using assms(7) by (auto simp: nonce_of_def sig_of_def)
  with verifyPayment_fresh [OF assms(1) again assms(6)] held assms(4,5) show False by auto
qed

theorem verifyPayment_no_replay_witness:
  "\<exists>res w1. verifyPayment sample_deps (encode_request sample_request) ''r'' ''v'' 1000000 1000500 v1_empty
       = (Inr res, w1) \<and>
     (\<forall>res' w3. verifyPayment sample_deps (encode_request sample_request) ''r2'' ''v2'' 1000000 1000500 w1
        \<noteq> (Inr res', w3))"
proof -
  obtain res w1 where run:
    "verifyPayment sample_deps (encode_request sample_request) ''r'' ''v'' 1000000 1000500 v1_empty = (Inr res, w1)"
    using sample_verifies by blast
  from verifyPayment_no_replay [OF sample_deps_ok run parse_sample refl refl parse_sample] run show ?thesis by blast
qed

end
