(* ===== verification/FeeEngine.thy ===== *)
theory FeeEngine
  imports Domain "HOL-Library.Multiset"
begin

text \<open>
  \<open>src/settlement/fee-engine.ts\<close> (the platform fee, the developer share, the free and the
  premium tiers) and \<open>src/settlement/referral-service.ts\<close> (their sums). A \<open>bigint\<close> and a
  \<open>number\<close> of basis points are integers; \<open>now\<close> is \<open>new Date()\<close> in milliseconds.
\<close>

section \<open>The engine\<close>

record premium_tier =
  pt_sellerAddress :: string
  pt_feeBps :: int
  pt_expiresAt :: "int option"

record fee_config =
  fc_platformFeeBps :: int
  fc_developerShareBps :: int
  fc_freeTierMonthlyUnits :: int
  fc_premiumTiers :: "premium_tier list"

record fee_breakdown =
  fb_grossAmount :: int
  fb_platformFee :: int
  fb_developerShare :: int
  fb_netToSeller :: int
  fb_effectiveFeeBps :: int
  fb_freeTierApplied :: bool
  fb_referralCode :: "string option"

definition BPS_DENOMINATOR :: int where
  "BPS_DENOMINATOR = 10000"

definition resolveFeeBps :: "fee_config \<Rightarrow> int \<Rightarrow> string \<Rightarrow> int" where
  "resolveFeeBps cfg now sellerAddress =
     (case List.find (\<lambda>t. toLowerCase (pt_sellerAddress t) = toLowerCase sellerAddress \<and>
              (case pt_expiresAt t of None \<Rightarrow> True | Some e \<Rightarrow> e > now)) (fc_premiumTiers cfg) of
        Some t \<Rightarrow> pt_feeBps t
      | None \<Rightarrow> fc_platformFeeBps cfg)"

text \<open>An empty referral code is falsy.\<close>

definition truthy :: "string option \<Rightarrow> bool" where
  "truthy v = (v \<noteq> None \<and> v \<noteq> Some [])"

definition fee_compute ::
  "fee_config \<Rightarrow> int \<Rightarrow> int \<Rightarrow> string \<Rightarrow> string option \<Rightarrow> int \<Rightarrow> fee_breakdown" where
  "fee_compute cfg now grossAmount sellerAddress referralCode monthlyVolumeToDate =
     (if fc_freeTierMonthlyUnits cfg > 0 \<and> monthlyVolumeToDate < fc_freeTierMonthlyUnits cfg
      then \<lparr>fb_grossAmount = grossAmount, fb_platformFee = 0, fb_developerShare = 0,
            fb_netToSeller = grossAmount, fb_effectiveFeeBps = 0, fb_freeTierApplied = True,
            fb_referralCode = referralCode\<rparr>
      else
        let effectiveFeeBps = resolveFeeBps cfg now sellerAddress;
            platformFee = bigint_div (grossAmount * effectiveFeeBps) BPS_DENOMINATOR;
            developerShare = (if truthy referralCode
              then bigint_div (platformFee * fc_developerShareBps cfg) BPS_DENOMINATOR else 0)
        in \<lparr>fb_grossAmount = grossAmount, fb_platformFee = platformFee,
            fb_developerShare = developerShare, fb_netToSeller = grossAmount - platformFee,
            fb_effectiveFeeBps = effectiveFeeBps, fb_freeTierApplied = False,
            fb_referralCode = referralCode\<rparr>)"

definition fee_format :: "fee_breakdown \<Rightarrow> json" where
  "fee_format b = JObj
     [(''grossAmount'', JStr (int_str (fb_grossAmount b))),
      (''platformFee'', JStr (int_str (fb_platformFee b))),
      (''developerShare'', JStr (int_str (fb_developerShare b))),
      (''netToSeller'', JStr (int_str (fb_netToSeller b))),
      (''effectiveFeeBps'', JNum (fb_effectiveFeeBps b)),
      (''freeTierApplied'', JBool (fb_freeTierApplied b)),
      (''referralCode'', null_or_str (fb_referralCode b))]"

definition createFeeEngine ::
  "int \<Rightarrow> int \<Rightarrow> int option \<Rightarrow> premium_tier list option \<Rightarrow> fee_config" where
  "createFeeEngine platformFeeBps developerShareBps freeTierMonthlyUnits premiumTiers =
     \<lparr>fc_platformFeeBps = platformFeeBps, fc_developerShareBps = developerShareBps,
      fc_freeTierMonthlyUnits = (case freeTierMonthlyUnits of Some u \<Rightarrow> u | None \<Rightarrow> 0),
      fc_premiumTiers = (case premiumTiers of Some t \<Rightarrow> t | None \<Rightarrow> [])\<rparr>"

section \<open>Referral statistics\<close>

text \<open>
  The settlements come with their request; the query orders them by creation. The second
  query filters on a column \<open>seller\<close> of the request that the schema does not have, so the
  request's seller is the argument \<open>seller_of\<close>, and the bounds of the month, local times,
  are arguments.
\<close>

record referral_stats =
  rs_referralCode :: string
  rs_totalSettlements :: nat
  rs_totalGrossVolume :: int
  rs_totalPlatformFee :: int
  rs_totalDeveloperShare :: int
  rs_firstUsedAt :: "int option"
  rs_lastUsedAt :: "int option"

definition or_zero :: "string option \<Rightarrow> int" where
  "or_zero v = bigint_of (case v of Some s \<Rightarrow> s | None \<Rightarrow> ''0'')"

definition request_amount :: "payment_request list \<Rightarrow> payment_settlement \<Rightarrow> int" where
  "request_amount reqs s =
     or_zero (map_option pr_amount (List.find (\<lambda>r. pr_id r = ps_requestId s) reqs))"

definition getReferralStats ::
  "payment_request list \<Rightarrow> payment_settlement list \<Rightarrow> string \<Rightarrow> referral_stats" where
  "getReferralStats reqs rows referralCode =
     (let found = sort_key ps_createdAt
            (filter (\<lambda>s. ps_referralCode s = Some referralCode \<and> ps_status s = SConfirmed) rows) in
      \<lparr>rs_referralCode = referralCode,
       rs_totalSettlements = length found,
       rs_totalGrossVolume = foldl (\<lambda>acc s. acc + request_amount reqs s) 0 found,
       rs_totalPlatformFee = foldl (\<lambda>acc s. acc + or_zero (ps_feeAmount s)) 0 found,
       rs_totalDeveloperShare = foldl (\<lambda>acc s. acc + or_zero (ps_developerShare s)) 0 found,
       rs_firstUsedAt = (case found of [] \<Rightarrow> None | s # _ \<Rightarrow> Some (ps_createdAt s)),
       rs_lastUsedAt = (if found = [] then None else Some (ps_createdAt (last found)))\<rparr>)"

definition getMonthlyVolumeForSeller ::
  "(payment_request \<Rightarrow> string) \<Rightarrow> payment_request list \<Rightarrow> payment_settlement list \<Rightarrow> string \<Rightarrow> int \<Rightarrow> int \<Rightarrow> int" where
  "getMonthlyVolumeForSeller seller_of reqs rows seller from to =
     foldl (\<lambda>acc s. acc + request_amount reqs s) 0
       (filter (\<lambda>s. ps_status s = SConfirmed \<and> from \<le> ps_createdAt s \<and> ps_createdAt s < to \<and>
          (\<exists>r\<in>set reqs. pr_id r = ps_requestId s \<and> seller_of r = seller)) rows)"

section \<open>Lemmas\<close>

lemma foldl_sum: "foldl (\<lambda>acc x. acc + f x) (a::int) xs = a + sum_list (map f xs)"
  by (induction xs arbitrary: a) auto

lemma or_zero_nonneg: "(\<And>s. v = Some s \<Longrightarrow> decimal s) \<Longrightarrow> 0 \<le> or_zero v"
proof -
  have "decimal ''0''" by code_simp
  then show "(\<And>s. v = Some s \<Longrightarrow> decimal s) \<Longrightarrow> 0 \<le> or_zero v"
    by (cases v) (auto simp: or_zero_def bigint_of_nonneg)
qed

lemma sum_list_map_sort_key: "sum_list (map f (sort_key k xs)) = (sum_list (map f xs) :: int)"
proof -
  have "mset (map f (sort_key k xs)) = mset (map f xs)" by simp
  then show ?thesis by (metis sum_mset_sum_list)
qed

lemma div_10000:
  fixes a b :: int
  shows "a div 10000 * 10000 \<le> a" and "a < (a div 10000 + 1) * 10000"
    and "a div 10000 + b div 10000 \<le> (a + b) div 10000"
    and "(a + b) div 10000 \<le> a div 10000 + b div 10000 + 1"
proof -
  have lo: "x div 10000 * 10000 \<le> x" and hi: "x < x div 10000 * 10000 + 10000" for x :: int
    by linarith+
  show "a div 10000 * 10000 \<le> a" by (rule lo)
  show "a < (a div 10000 + 1) * 10000" using hi [of a] by (simp add: distrib_right)
  show "a div 10000 + b div 10000 \<le> (a + b) div 10000"
    using lo [of a] lo [of b] hi [of "a + b"] by linarith
  show "(a + b) div 10000 \<le> a div 10000 + b div 10000 + 1"
    using lo [of "a + b"] hi [of a] hi [of b] by linarith
qed

text \<open>The configuration the service validates at start: shares between 0 and 10000 basis points.\<close>

definition valid_fee_config :: "fee_config \<Rightarrow> bool" where
  "valid_fee_config cfg \<longleftrightarrow>
     0 \<le> fc_platformFeeBps cfg \<and> fc_platformFeeBps cfg \<le> 10000 \<and>
     0 \<le> fc_developerShareBps cfg \<and> fc_developerShareBps cfg \<le> 10000 \<and>
     (\<forall>t\<in>set (fc_premiumTiers cfg). 0 \<le> pt_feeBps t \<and> pt_feeBps t \<le> 10000)"

lemma resolve_bounds:
  assumes "valid_fee_config cfg"
  shows "0 \<le> resolveFeeBps cfg now seller" and "resolveFeeBps cfg now seller \<le> 10000"
proof -
  have "0 \<le> resolveFeeBps cfg now seller \<and> resolveFeeBps cfg now seller \<le> 10000"
  proof (cases "List.find (\<lambda>t. toLowerCase (pt_sellerAddress t) = toLowerCase seller \<and>
          (case pt_expiresAt t of None \<Rightarrow> True | Some e \<Rightarrow> e > now)) (fc_premiumTiers cfg)")
    case None
    then show ?thesis using assms by (simp add: resolveFeeBps_def valid_fee_config_def)
  next
    case (Some t)
    then have "t \<in> set (fc_premiumTiers cfg)" using find_first_Some by fast
    then show ?thesis using assms Some by (simp add: resolveFeeBps_def valid_fee_config_def)
  qed
  then show "0 \<le> resolveFeeBps cfg now seller" and "resolveFeeBps cfg now seller \<le> 10000"
    by simp_all
qed

lemma bps_share_bounds:
  assumes "0 \<le> (x::int)" and "0 \<le> b" and "b \<le> 10000"
  shows "0 \<le> x * b div 10000" and "x * b div 10000 \<le> x"
proof -
  show "0 \<le> x * b div 10000" using assms by (simp add: pos_imp_zdiv_nonneg_iff)
  have "x * b \<le> x * 10000" using assms by (intro mult_left_mono)
  then have "x * b div 10000 \<le> (x * 10000) div 10000" by (rule zdiv_mono1) simp
  then show "x * b div 10000 \<le> x" by simp
qed

text \<open>C29. Fees conserve the payment: with a valid configuration and a non-negative amount, what
  the seller receives plus the platform fee is the gross amount, the fee is between 0 and the
  gross amount, and the developer share is between 0 and the fee and is 0 without a referral
  code.\<close>

theorem fee_conservation:
  assumes "valid_fee_config cfg" and "0 \<le> gross"
    and b_def: "b = fee_compute cfg now gross seller ref volume"
  shows "fb_netToSeller b + fb_platformFee b = gross \<and> 0 \<le> fb_platformFee b \<and>
    fb_platformFee b \<le> gross \<and> 0 \<le> fb_developerShare b \<and> fb_developerShare b \<le> fb_platformFee b \<and>
    (\<not> truthy ref \<longrightarrow> fb_developerShare b = 0)"
proof -
  let ?bps = "resolveFeeBps cfg now seller"
  let ?fee = "gross * ?bps div 10000"
  note bps = resolve_bounds [OF assms(1), of now seller]
  have fee: "0 \<le> ?fee" "?fee \<le> gross" using bps_share_bounds [OF assms(2) bps] .
  have dev: "0 \<le> ?fee * fc_developerShareBps cfg div 10000" "?fee * fc_developerShareBps cfg div 10000 \<le> ?fee"
    using bps_share_bounds [OF fee(1)] assms(1) by (simp_all add: valid_fee_config_def)
  have "0 \<le> gross * ?bps" "0 \<le> ?fee * fc_developerShareBps cfg"
    using assms(1,2) bps fee(1) by (simp_all add: valid_fee_config_def)
  then show ?thesis
    using fee dev assms(2) by (auto simp: b_def fee_compute_def Let_def BPS_DENOMINATOR_def)
qed

definition sample_fee_config :: fee_config where
  "sample_fee_config = createFeeEngine 50 2000 None
     (Some [\<lparr>pt_sellerAddress = ''0xAB'', pt_feeBps = 10, pt_expiresAt = Some 500\<rparr>])"

theorem fee_conservation_witness:
  "fb_netToSeller (fee_compute sample_fee_config 1000 1000000 ''0xab'' (Some ''dev'') 0) +
     fb_platformFee (fee_compute sample_fee_config 1000 1000000 ''0xab'' (Some ''dev'') 0) = 1000000 \<and>
   fb_platformFee (fee_compute sample_fee_config 1000 1000000 ''0xab'' (Some ''dev'') 0) = 5000 \<and>
   fb_developerShare (fee_compute sample_fee_config 1000 1000000 ''0xab'' (Some ''dev'') 0) = 1000"
proof -
  have v: "valid_fee_config sample_fee_config"
    by (simp add: valid_fee_config_def sample_fee_config_def createFeeEngine_def)
  have "fb_platformFee (fee_compute sample_fee_config 1000 1000000 ''0xab'' (Some ''dev'') 0) = 5000"
    "fb_developerShare (fee_compute sample_fee_config 1000 1000000 ''0xab'' (Some ''dev'') 0) = 1000"
    by code_simp+
  then show ?thesis
    using fee_conservation [OF v _ refl, where gross = 1000000 and now = 1000 and seller = "''0xab''"
        and ref = "Some ''dev''" and volume = 0] by simp
qed

text \<open>The fee is the exact share rounded down, and rounding never favours the platform:
  charging two payments apart costs at most what charging their sum costs, and the sum costs
  at most one unit more.\<close>

theorem fee_rounding:
  assumes "valid_fee_config cfg" and "0 \<le> x" and "0 \<le> y" and "fc_freeTierMonthlyUnits cfg \<le> 0"
    and fee_def: "fee = (\<lambda>g. fb_platformFee (fee_compute cfg now g seller ref volume))"
  shows "fee x * 10000 \<le> x * resolveFeeBps cfg now seller \<and>
     x * resolveFeeBps cfg now seller < (fee x + 1) * 10000 \<and>
     fee x + fee y \<le> fee (x + y) \<and> fee (x + y) \<le> fee x + fee y + 1"
proof -
  let ?bps = "resolveFeeBps cfg now seller"
  have bps: "0 \<le> ?bps" using resolve_bounds [OF assms(1)] by simp
  have fee: "fee g = g * ?bps div 10000" if "0 \<le> g" for g
    using that bps assms(4) by (simp add: fee_def fee_compute_def Let_def BPS_DENOMINATOR_def)
  have "fee x = x * ?bps div 10000" "fee y = y * ?bps div 10000" "fee (x + y) = (x * ?bps + y * ?bps) div 10000"
    using fee [of x] fee [of y] fee [of "x + y"] assms(2,3) by (simp_all add: distrib_right)
  then show ?thesis using div_10000(1,2) [of "x * ?bps"] div_10000(3,4) [of "x * ?bps" "y * ?bps"] by simp
qed

theorem fee_rounding_witness:
  "fb_platformFee (fee_compute sample_fee_config 0 199 ''0xcd'' None 0) = 0 \<and>
   fb_platformFee (fee_compute sample_fee_config 0 (199 + 1) ''0xcd'' None 0) \<le> 0 + 0 + 1"
proof -
  have v: "valid_fee_config sample_fee_config"
    by (simp add: valid_fee_config_def sample_fee_config_def createFeeEngine_def)
  have f: "fc_freeTierMonthlyUnits sample_fee_config \<le> 0"
    by (simp add: sample_fee_config_def createFeeEngine_def)
  have z: "fb_platformFee (fee_compute sample_fee_config 0 199 ''0xcd'' None 0) = 0"
    "fb_platformFee (fee_compute sample_fee_config 0 1 ''0xcd'' None 0) = 0"
    by code_simp+
  show ?thesis
    using fee_rounding [OF v _ _ f refl, where x = 199 and y = 1 and now = 0 and seller = "''0xcd''"
        and ref = None and volume = 0] z by simp
qed

text \<open>The referral totals are the sums over the confirmed settlements of the code, in any
  order of the rows, and when every stored amount is a decimal string and no stored share
  exceeds its fee, the total developer share is at most the total fee.\<close>

theorem referral_totals:
  assumes "\<And>s. s \<in> set rows \<Longrightarrow> or_zero (ps_developerShare s) \<le> or_zero (ps_feeAmount s)"
    and mine_def: "mine = filter (\<lambda>s. ps_referralCode s = Some code \<and> ps_status s = SConfirmed) rows"
  shows "rs_totalSettlements (getReferralStats reqs rows code) = length mine \<and>
    rs_totalPlatformFee (getReferralStats reqs rows code) = sum_list (map (\<lambda>s. or_zero (ps_feeAmount s)) mine) \<and>
    rs_totalGrossVolume (getReferralStats reqs rows code) = sum_list (map (request_amount reqs) mine) \<and>
    rs_totalDeveloperShare (getReferralStats reqs rows code) \<le> rs_totalPlatformFee (getReferralStats reqs rows code)"
proof -
  have sums: "sum_list (map f (sort_key ps_createdAt mine)) = sum_list (map f mine)"
    for f :: "payment_settlement \<Rightarrow> int"
    by (rule sum_list_map_sort_key)
  have "sum_list (map (\<lambda>s. or_zero (ps_developerShare s)) mine) \<le> sum_list (map (\<lambda>s. or_zero (ps_feeAmount s)) mine)"
    using assms(1) by (intro sum_list_mono) (auto simp: mine_def)
  then show ?thesis
    by (simp add: getReferralStats_def Let_def foldl_sum mine_def [symmetric] sums)
qed

theorem referral_totals_witness:
  "rs_totalDeveloperShare (getReferralStats [] [\<lparr>ps_id = ''s'', ps_requestId = ''r'', ps_status = SConfirmed,
      ps_settlementId = None, ps_txHash = None, ps_feeAmount = Some ''50'', ps_referralCode = Some ''dev'',
      ps_developerShare = Some ''10'', ps_confirmedAt = None, ps_createdAt = 0\<rparr>] ''dev'') \<le> 50"
proof -
  let ?s = "\<lparr>ps_id = ''s'', ps_requestId = ''r'', ps_status = SConfirmed,
      ps_settlementId = None, ps_txHash = None, ps_feeAmount = Some ''50'', ps_referralCode = Some ''dev'',
      ps_developerShare = Some ''10'', ps_confirmedAt = None, ps_createdAt = 0\<rparr>"
  have z: "or_zero (Some ''10'') = 10" "or_zero (Some ''50'') = 50" by code_simp+
  have "or_zero (ps_developerShare s) \<le> or_zero (ps_feeAmount s)" if "s \<in> set [?s]" for s
    using that z by simp
  from referral_totals [where rows = "[?s]" and code = "''dev''" and reqs = "[]", OF this refl] show ?thesis using z by simp
qed

end
