(* ===== verification/SettlePayment.thy ===== *)
theory SettlePayment
  imports VerifyPayment FeeEngine
begin

text \<open>
  \<open>src/settlement/settle-payment.ts\<close>: the settle use case of the first version, which locks a
  request, submits the transfer and records settlement and receipt. The stores, the endpoints
  and the identifiers are parameters; \<open>now\<close> is the reading of the clock after the submission.
\<close>

section \<open>The use case\<close>

record settle_deps =
  sd_redis :: redis_api
  sd_request :: "v1_request delegate"
  sd_verification :: "payment_verification delegate"
  sd_settlement :: "v1_settlement delegate"
  sd_receipt :: "v1_receipt delegate"
  sd_tx :: "(v1_db, unit) transact"
  sd_getNetwork :: "network_ref \<Rightarrow> v1_network_config option"
  sd_chain :: chain_api
  sd_rpcUrl :: string
  sd_rpcUrlFallback :: "string option"
  sd_platformFeeBps :: int
  sd_developerShareBps :: int

record settle_result =
  sr_settlementId :: string
  sr_requestId :: string
  sr_txHash :: string
  sr_receiptId :: string
  sr_idempotent :: bool

record settle_pending_result =
  sp_requestId :: string
  sp_code :: string
  sp_message :: string

datatype settle_outcome = SettledV1 settle_result | PendingV1 settle_pending_result

definition SETTLE_LOCK_PREFIX :: string where
  "SETTLE_LOCK_PREFIX = ''settle_lock:''"

definition SETTLE_LOCK_TTL :: int where
  "SETTLE_LOCK_TTL = 120"

definition v1_lock_key :: "string \<Rightarrow> string" where
  "v1_lock_key paymentRequestId = SETTLE_LOCK_PREFIX @ paymentRequestId"

definition or_empty :: "string option \<Rightarrow> string" where
  "or_empty v = (case v of Some s \<Rightarrow> s | None \<Rightarrow> '''')"

definition network_text :: "network_ref \<Rightarrow> string" where
  "network_text n = (case n of ByName s \<Rightarrow> s | ByChain c \<Rightarrow> int_str c)"

text \<open>Steps 1 to 3: the request, its first accepted verification, and the confirmed settlement
  if there is one.\<close>

definition settle_load ::
  "settle_deps \<Rightarrow> string \<Rightarrow> (v1_world, exn, v1_request \<times> payment_verification \<times> settle_outcome option) prog" where
  "settle_load D paymentRequestId =
     seq (v1_in_db (at_requests (db_find (sd_request D) (\<lambda>r. vq_id r = paymentRequestId)))) (\<lambda>found.
     case found of
       None \<Rightarrow> fail ''verification_required'' (''No payment request found: '' @ paymentRequestId) (Some paymentRequestId)
     | Some paymentRequest \<Rightarrow>
     seq (v1_in_db (at_verifications (db_findMany (sd_verification D)
            (\<lambda>v. pv_requestId v = paymentRequestId \<and> pv_status v = VAccepted)))) (\<lambda>accepted.
     case accepted of
       [] \<Rightarrow> fail ''verification_required'' ''Payment has not been verified (accepted) yet'' (Some paymentRequestId)
     | verification # _ \<Rightarrow>
     seq (v1_in_db (at_settlements (db_find (sd_settlement D)
            (\<lambda>s. vs_requestId s = paymentRequestId \<and> vs_status s = SConfirmed)))) (\<lambda>existing.
     case existing of
       None \<Rightarrow> ret (paymentRequest, verification, None)
     | Some s \<Rightarrow>
     seq (v1_in_db (at_receipts (db_find (sd_receipt D) (\<lambda>r. vc_settlementId r = Some (vs_id s))))) (\<lambda>receipt.
     ret (paymentRequest, verification, Some (SettledV1
       \<lparr>sr_settlementId = vs_id s, sr_requestId = paymentRequestId, sr_txHash = or_empty (vs_txHash s),
        sr_receiptId = (case receipt of Some r \<Rightarrow> vc_id r | None \<Rightarrow> ''''), sr_idempotent = True\<rparr>))))))"

text \<open>Step 7: \<open>splitSignature\<close> takes \<open>slice(2)\<close> of the stored signature, a \<open>TypeError\<close> on \<open>null\<close>.\<close>

definition v1_submit ::
  "settle_deps \<Rightarrow> v1_request \<Rightarrow> payment_verification \<Rightarrow> v1_asset_config \<Rightarrow> (v1_world, exn, onchain_result) prog" where
  "v1_submit D paymentRequest verification asset =
     (case pv_signatureHash verification of
        None \<Rightarrow> throw (JsError ''TypeError'' (''Cannot read properties of null (reading '' @ quoted ''slice'' @ '')''))
      | Some signature \<Rightarrow> v1_chain (submitOnChain (sd_chain D)
          \<lparr>oc_from = vq_buyer paymentRequest, oc_to = Some (vq_seller paymentRequest),
           oc_value = vq_amount paymentRequest, oc_validAfter = 0,
           oc_validBefore = vq_expiresAt paymentRequest div 1000, oc_nonce = pv_nonce verification,
           oc_signature = signature, oc_assetAddress = va_contractAddress asset,
           oc_rpcUrl = sd_rpcUrl D, oc_fallbackRpcUrl = sd_rpcUrlFallback D\<rparr>))"

text \<open>Step 9: the body of the transaction.\<close>

definition v1_receipt_payload ::
  "v1_request \<Rightarrow> string \<Rightarrow> fee_breakdown \<Rightarrow> string \<Rightarrow> json" where
  "v1_receipt_payload paymentRequest txHash fees confirmed = JObj
     [(''network'', (case vq_network paymentRequest of ByName s \<Rightarrow> JStr s | ByChain c \<Rightarrow> JNum c)),
      (''asset'', JStr (vq_asset paymentRequest)), (''seller'', JStr (vq_seller paymentRequest)),
      (''buyer'', JStr (vq_buyer paymentRequest)), (''amount'', JStr (int_str (vq_amount paymentRequest))),
      (''txHash'', JStr txHash), (''feeAmount'', JStr (int_str (fb_platformFee fees))),
      (''developerShare'', JStr (int_str (fb_developerShare fees))), (''confirmedAt'', JStr confirmed)]"

definition v1_commit ::
  "settle_deps \<Rightarrow> v1_request \<Rightarrow> string \<Rightarrow> string \<Rightarrow> string \<Rightarrow> string \<Rightarrow> fee_breakdown \<Rightarrow> int \<Rightarrow> (v1_db, exn, unit) prog" where
  "v1_commit D paymentRequest paymentRequestId settlementId receiptId txHash fees now =
     seq (at_settlements (db_update (sd_settlement D) (\<lambda>s. vs_id s = settlementId)
            (\<lambda>s. s\<lparr>vs_status := SConfirmed, vs_txHash := Some txHash, vs_feeAmount := Some (fb_platformFee fees),
                  vs_developerShare := Some (fb_developerShare fees), vs_confirmedAt := Some now\<rparr>))) (\<lambda>_.
     seq (iso now) (\<lambda>confirmed.
     seq (at_receipts (db_create (sd_receipt D)
            \<lparr>vc_id = receiptId, vc_requestId = paymentRequestId, vc_settlementId = Some settlementId,
             vc_protocolVersion = ''1'', vc_responsePayload = v1_receipt_payload paymentRequest txHash fees confirmed\<rparr>))
       (\<lambda>_. ret ())))"

text \<open>Steps 6 to 9, the \<open>try\<close> block.\<close>

definition v1_execute ::
  "settle_deps \<Rightarrow> v1_request \<Rightarrow> payment_verification \<Rightarrow> string \<Rightarrow> string option \<Rightarrow> string \<Rightarrow> string \<Rightarrow> int \<Rightarrow>
   (v1_world, exn, settle_outcome) prog" where
  "v1_execute D paymentRequest verification paymentRequestId referralCode settlementId receiptId now =
     (case sd_getNetwork D (vq_network paymentRequest) of
        None \<Rightarrow> throw (plainError (''Unknown network: '' @ network_text (vq_network paymentRequest)))
      | Some network \<Rightarrow>
     (case vn_assets network (vq_asset paymentRequest) of
        None \<Rightarrow> throw (plainError (''Unknown asset: '' @ vq_asset paymentRequest))
      | Some asset \<Rightarrow>
     seq (v1_submit D paymentRequest verification asset) (\<lambda>onChainResult.
     let feeEngine = createFeeEngine (sd_platformFeeBps D) (sd_developerShareBps D) None None;
         fees = fee_compute feeEngine now (vq_amount paymentRequest) (vq_seller paymentRequest) referralCode 0 in
     seq (v1_in_db (sd_tx D (v1_commit D paymentRequest paymentRequestId settlementId receiptId
            (or_txHash onChainResult) fees now))) (\<lambda>_.
     ret (SettledV1
       \<lparr>sr_settlementId = settlementId, sr_requestId = paymentRequestId, sr_txHash = or_txHash onChainResult,
        sr_receiptId = receiptId, sr_idempotent = False\<rparr>)))))"

text \<open>Step 10: the \<open>catch\<close> block, whatever the error.\<close>

definition v1_failed ::
  "settle_deps \<Rightarrow> string \<Rightarrow> string \<Rightarrow> (v1_world, exn, settle_outcome) prog" where
  "v1_failed D paymentRequestId settlementId =
     seq (v1_in_db (at_settlements (db_update (sd_settlement D) (\<lambda>s. vs_id s = settlementId)
            (\<lambda>s. s\<lparr>vs_status := SFailed\<rparr>)))) (\<lambda>_.
     seq (v1_keys (redis_del (sd_redis D) (v1_lock_key paymentRequestId))) (\<lambda>_.
     fail ''settlement_failed'' ''The on-chain transaction failed. No funds were moved.'' (Some paymentRequestId)))"

text \<open>Steps 4 to 10.\<close>

definition v1_locked ::
  "settle_deps \<Rightarrow> v1_request \<Rightarrow> payment_verification \<Rightarrow> string \<Rightarrow> string option \<Rightarrow> string \<Rightarrow> string \<Rightarrow> int \<Rightarrow>
   (v1_world, exn, settle_outcome) prog" where
  "v1_locked D paymentRequest verification paymentRequestId referralCode settlementId receiptId now =
     seq (v1_keys (redis_set_nx (sd_redis D) (v1_lock_key paymentRequestId) SETTLE_LOCK_TTL)) (\<lambda>locked.
     if \<not> locked then
       ret (PendingV1 \<lparr>sp_requestId = paymentRequestId, sp_code = ''settlement_pending'',
              sp_message = ''Settlement already in progress''\<rparr>)
     else
     seq (v1_in_db (at_settlements (db_create (sd_settlement D)
            \<lparr>vs_id = settlementId, vs_requestId = paymentRequestId, vs_status = SPending, vs_settlementId = None,
             vs_referralCode = referralCode, vs_txHash = None, vs_feeAmount = None, vs_developerShare = None,
             vs_confirmedAt = None, vs_errorReason = None\<rparr>))) (\<lambda>_.
     finally_do
       (try_catch
          (v1_execute D paymentRequest verification paymentRequestId referralCode settlementId receiptId now)
          (\<lambda>err. v1_failed D paymentRequestId settlementId))
       (ignore_errors (v1_keys (redis_del (sd_redis D) (v1_lock_key paymentRequestId))))))"

definition settlePayment ::
  "settle_deps \<Rightarrow> string \<Rightarrow> string option \<Rightarrow> string \<Rightarrow> string \<Rightarrow> int \<Rightarrow> (v1_world, exn, settle_outcome) prog" where
  "settlePayment D paymentRequestId referralCode settlementId receiptId now =
     seq (settle_load D paymentRequestId) (\<lambda>(paymentRequest, verification, settled).
     case settled of
       Some answer \<Rightarrow> ret answer
     | None \<Rightarrow> v1_locked D paymentRequest verification paymentRequestId referralCode settlementId receiptId now)"

section \<open>Lemmas\<close>

lemma submit_v1_log:
  assumes "v1_submit D pr v asset w = (r, w')"
  shows "\<exists>log. w' = w\<lparr>vw_submitted := log\<rparr> \<and> (\<exists>more. log = vw_submitted w @ more)"
proof (cases "pv_signatureHash v")
  case None
  then have "w' = w" using assms unfolding v1_submit_def by (auto simp: run_simps)
  then show ?thesis by (intro exI [of _ "vw_submitted w"]) simp
next
  case (Some a)
  then show ?thesis
    using assms submit_log unfolding v1_submit_def by (fastforce simp: run_simps)
qed

locale settle_payment =
  redis_store "sd_redis D" + Q: prisma_table "sd_request D" v1_request_clash +
  V: prisma_table "sd_verification D" verification_clash +
  S: prisma_table "sd_settlement D" v1_settlement_clash +
  C: prisma_table "sd_receipt D" v1_receipt_clash +
  T: transactional "sd_tx D" for D :: settle_deps
begin

lemma load_same: "settle_load D rid w = (r, w') \<Longrightarrow> w' = w"
  unfolding settle_load_def
  by (cases r) (auto simp: run_simps dest!: Q.find_same V.findMany_same S.find_same C.find_same)

lemma load_Inr:
  assumes "settle_load D rid w = (Inr (pr, v, answer), w')"
  shows "pr \<in> set (vd_requests (vw_db w)) \<and> vq_id pr = rid \<and>
    (\<exists>vs. v # vs = filter (\<lambda>v. pv_requestId v = rid \<and> pv_status v = VAccepted) (vd_verifications (vw_db w))) \<and>
    (case answer of
       None \<Rightarrow> \<forall>s\<in>set (vd_settlements (vw_db w)). \<not> (vs_requestId s = rid \<and> vs_status s = SConfirmed)
     | Some a \<Rightarrow> \<exists>s res. s \<in> set (vd_settlements (vw_db w)) \<and> vs_requestId s = rid \<and> vs_status s = SConfirmed \<and>
         a = SettledV1 res \<and> sr_idempotent res \<and> sr_settlementId res = vs_id s \<and> sr_requestId res = rid \<and>
         sr_txHash res = or_empty (vs_txHash s))"
  using assms unfolding settle_load_def
  by (auto simp: run_simps dest!: Q.find_Some V.findMany_run S.find_Some S.find_None intro!: exI)

lemma commit_v1:
  assumes "sd_tx D (v1_commit D pr rid sid rcid hash fees now) d = (Inr u, d')"
  shows "\<exists>us s vs confirmed. vd_settlements d = us @ s # vs \<and> vs_id s = sid \<and> toISOString now = Some confirmed \<and>
    d' = d\<lparr>vd_settlements := us @ s\<lparr>vs_status := SConfirmed, vs_txHash := Some hash,
        vs_feeAmount := Some (fb_platformFee fees), vs_developerShare := Some (fb_developerShare fees),
        vs_confirmedAt := Some now\<rparr> # vs,
      vd_receipts := vd_receipts d @ [\<lparr>vc_id = rcid, vc_requestId = rid, vc_settlementId = Some sid,
        vc_protocolVersion = ''1'', vc_responsePayload = v1_receipt_payload pr hash fees confirmed\<rparr>]\<rparr>"
  using T.tx_ok [OF assms] unfolding v1_commit_def
  by (fastforce simp: run_simps dest!: S.update_ok C.create_ok)

end

context settle_payment
begin

text \<open>The \<open>try\<close> block either confirms the record and stores the receipt, or changes nothing but the
  history of submissions.\<close>

lemma execute_Inr:
  assumes "v1_execute D pr v rid ref sid rcid now w = (Inr out, w')"
  shows "\<exists>network asset sig res log us s vs confirmed fees.
    sd_getNetwork D (vq_network pr) = Some network \<and> vn_assets network (vq_asset pr) = Some asset \<and>
    pv_signatureHash v = Some sig \<and>
    submitOnChain (sd_chain D)
      \<lparr>oc_from = vq_buyer pr, oc_to = Some (vq_seller pr), oc_value = vq_amount pr, oc_validAfter = 0,
       oc_validBefore = vq_expiresAt pr div 1000, oc_nonce = pv_nonce v, oc_signature = sig,
       oc_assetAddress = va_contractAddress asset, oc_rpcUrl = sd_rpcUrl D,
       oc_fallbackRpcUrl = sd_rpcUrlFallback D\<rparr> (vw_submitted w) = (Inr res, log) \<and>
    fees = fee_compute (createFeeEngine (sd_platformFeeBps D) (sd_developerShareBps D) None None) now
      (vq_amount pr) (vq_seller pr) ref 0 \<and>
    vd_settlements (vw_db w) = us @ s # vs \<and> vs_id s = sid \<and>
    w' = w\<lparr>vw_submitted := log, vw_db := (vw_db w)
      \<lparr>vd_settlements := us @ s\<lparr>vs_status := SConfirmed, vs_txHash := Some (or_txHash res),
          vs_feeAmount := Some (fb_platformFee fees), vs_developerShare := Some (fb_developerShare fees),
          vs_confirmedAt := Some now\<rparr> # vs,
       vd_receipts := vd_receipts (vw_db w) @ [\<lparr>vc_id = rcid, vc_requestId = rid, vc_settlementId = Some sid,
          vc_protocolVersion = ''1'', vc_responsePayload = v1_receipt_payload pr (or_txHash res) fees confirmed\<rparr>]\<rparr>\<rparr> \<and>
    out = SettledV1 \<lparr>sr_settlementId = sid, sr_requestId = rid, sr_txHash = or_txHash res,
      sr_receiptId = rcid, sr_idempotent = False\<rparr>"
proof -
  let ?fees = "fee_compute (createFeeEngine (sd_platformFeeBps D) (sd_developerShareBps D) None None) now
      (vq_amount pr) (vq_seller pr) ref 0"
  from assms obtain network asset res w1 d where
    a: "sd_getNetwork D (vq_network pr) = Some network" "vn_assets network (vq_asset pr) = Some asset" and
    s: "v1_submit D pr v asset w = (Inr res, w1)" and
    c: "sd_tx D (v1_commit D pr rid sid rcid (or_txHash res) ?fees now) (vw_db w1) = (Inr (), d)" and
    r: "w' = w1\<lparr>vw_db := d\<rparr>" "out = SettledV1 \<lparr>sr_settlementId = sid, sr_requestId = rid,
      sr_txHash = or_txHash res, sr_receiptId = rcid, sr_idempotent = False\<rparr>"
    unfolding v1_execute_def Let_def by (auto simp: run_simps)
  from s obtain sig log where l: "pv_signatureHash v = Some sig" "w1 = w\<lparr>vw_submitted := log\<rparr>"
    "submitOnChain (sd_chain D)
      \<lparr>oc_from = vq_buyer pr, oc_to = Some (vq_seller pr), oc_value = vq_amount pr, oc_validAfter = 0,
       oc_validBefore = vq_expiresAt pr div 1000, oc_nonce = pv_nonce v, oc_signature = sig,
       oc_assetAddress = va_contractAddress asset, oc_rpcUrl = sd_rpcUrl D,
       oc_fallbackRpcUrl = sd_rpcUrlFallback D\<rparr> (vw_submitted w) = (Inr res, log)"
    unfolding v1_submit_def by (auto simp: run_simps)
  from commit_v1 [OF c] l(2) obtain us s vs confirmed where
    d: "vd_settlements (vw_db w) = us @ s # vs" "vs_id s = sid"
    "d = (vw_db w)\<lparr>vd_settlements := us @ s\<lparr>vs_status := SConfirmed, vs_txHash := Some (or_txHash res),
        vs_feeAmount := Some (fb_platformFee ?fees), vs_developerShare := Some (fb_developerShare ?fees),
        vs_confirmedAt := Some now\<rparr> # vs,
      vd_receipts := vd_receipts (vw_db w) @ [\<lparr>vc_id = rcid, vc_requestId = rid, vc_settlementId = Some sid,
        vc_protocolVersion = ''1'', vc_responsePayload = v1_receipt_payload pr (or_txHash res) ?fees confirmed\<rparr>]\<rparr>"
    by auto
  show ?thesis
    by (rule exI [of _ network], rule exI [of _ asset], rule exI [of _ sig], rule exI [of _ res],
        rule exI [of _ log], rule exI [of _ us], rule exI [of _ s], rule exI [of _ vs], rule exI [of _ confirmed],
        rule exI [of _ ?fees], intro conjI)
      (use a l r d in simp_all)
qed

lemma execute_Inl:
  assumes "v1_execute D pr v rid ref sid rcid now w = (Inl e, w')"
  shows "\<exists>more. w' = w\<lparr>vw_submitted := vw_submitted w @ more\<rparr>"
proof -
  have id: "\<exists>more. w = w\<lparr>vw_submitted := vw_submitted w @ more\<rparr>" by (rule exI [of _ "[]"]) simp
  show ?thesis
    using assms id unfolding v1_execute_def Let_def
    by (auto simp: run_simps dest!: submit_v1_log T.tx_err)
qed

lemma failed_run:
  assumes "v1_failed D rid sid w = (r, w')"
  shows "vw_submitted w' = vw_submitted w \<and> vd_receipts (vw_db w') = vd_receipts (vw_db w) \<and>
    (\<forall>k. k \<noteq> v1_lock_key rid \<longrightarrow> vw_keys w' k = vw_keys w k) \<and> (\<exists>e. r = Inl e) \<and>
    (vd_settlements (vw_db w') = vd_settlements (vw_db w) \<or>
     (\<exists>us s vs. vd_settlements (vw_db w) = us @ s # vs \<and> vs_id s = sid \<and>
        vd_settlements (vw_db w') = us @ s\<lparr>vs_status := SFailed\<rparr> # vs))"
proof (cases r)
  case (Inl e)
  then show ?thesis using assms del_frame unfolding v1_failed_def
    by (fastforce simp: run_simps dest!: S.update_ok S.update_err)
next
  case (Inr x)
  then show ?thesis using assms unfolding v1_failed_def by (auto simp: run_simps)
qed

end

definition v1_pending :: "string \<Rightarrow> string \<Rightarrow> string option \<Rightarrow> v1_settlement" where
  "v1_pending settlementId requestId referralCode =
     \<lparr>vs_id = settlementId, vs_requestId = requestId, vs_status = SPending, vs_settlementId = None,
      vs_referralCode = referralCode, vs_txHash = None, vs_feeAmount = None, vs_developerShare = None,
      vs_confirmedAt = None, vs_errorReason = None\<rparr>"

lemma v1_pending_simps [simp]:
  "vs_id (v1_pending sid rid ref) = sid" "vs_requestId (v1_pending sid rid ref) = rid"
  "vs_status (v1_pending sid rid ref) = SPending"
  by (simp_all add: v1_pending_def)

text \<open>The state in which the \<open>try\<close> block starts.\<close>

definition v1_lock_world :: "string \<Rightarrow> string \<Rightarrow> string option \<Rightarrow> v1_world \<Rightarrow> v1_world" where
  "v1_lock_world requestId settlementId referralCode w =
     w\<lparr>vw_keys := (vw_keys w)(v1_lock_key requestId \<mapsto> 1),
       vw_db := (vw_db w)\<lparr>vd_settlements := vd_settlements (vw_db w) @ [v1_pending settlementId requestId referralCode]\<rparr>\<rparr>"

lemma v1_lock_world_simps [simp]:
  "vw_submitted (v1_lock_world rid sid ref w) = vw_submitted w"
  "vw_keys (v1_lock_world rid sid ref w) = (vw_keys w)(v1_lock_key rid \<mapsto> 1)"
  "vd_settlements (vw_db (v1_lock_world rid sid ref w)) = vd_settlements (vw_db w) @ [v1_pending sid rid ref]"
  "vd_receipts (vw_db (v1_lock_world rid sid ref w)) = vd_receipts (vw_db w)"
  "vd_requests (vw_db (v1_lock_world rid sid ref w)) = vd_requests (vw_db w)"
  "vd_verifications (vw_db (v1_lock_world rid sid ref w)) = vd_verifications (vw_db w)"
  by (simp_all add: v1_lock_world_def)

context settle_payment
begin

lemma locked_Inr:
  assumes "v1_locked D pr v rid ref sid rcid now w = (Inr out, w')"
  shows "(\<exists>p. out = PendingV1 p \<and> w' = w \<and> vw_keys w (v1_lock_key rid) \<noteq> None) \<or>
    (vw_keys w (v1_lock_key rid) = None \<and> (\<forall>s\<in>set (vd_settlements (vw_db w)). vs_id s \<noteq> sid) \<and>
     (\<exists>w2. v1_execute D pr v rid ref sid rcid now (v1_lock_world rid sid ref w) = (Inr out, w2) \<and>
        w' = w2\<lparr>vw_keys := snd (redis_del (sd_redis D) (v1_lock_key rid) (vw_keys w2))\<rparr>))"
  using assms failed_run unfolding v1_locked_def v1_pending_def [symmetric]
  by (fastforce simp: run_simps v1_lock_world_def v1_settlement_clash_def dest!: set_nx_ok S.create_ok)

lemma locked_Inl:
  assumes "v1_locked D pr v rid ref sid rcid now w = (Inl e, w')"
  shows "(\<exists>k. w' = w\<lparr>vw_keys := k\<rparr>) \<or>
    (vw_keys w (v1_lock_key rid) = None \<and> (\<forall>s\<in>set (vd_settlements (vw_db w)). vs_id s \<noteq> sid) \<and>
     (\<exists>e0 w2 w3. v1_execute D pr v rid ref sid rcid now (v1_lock_world rid sid ref w) = (Inl e0, w2) \<and>
        v1_failed D rid sid w2 = (Inl e, w3) \<and>
        w' = w3\<lparr>vw_keys := snd (redis_del (sd_redis D) (v1_lock_key rid) (vw_keys w3))\<rparr>))"
proof -
  obtain b k where set: "redis_set_nx (sd_redis D) (v1_lock_key rid) SETTLE_LOCK_TTL (vw_keys w) = (b, k)" by fastforce
  show ?thesis
  proof (cases b)
    case (Inl x)
    then show ?thesis using assms set unfolding v1_locked_def by (auto simp: run_simps)
  next
    case (Inr l)
    note lk = set_nx_ok [OF set [unfolded Inr]]
    show ?thesis
    proof (cases l)
      case False
      then show ?thesis using assms set Inr unfolding v1_locked_def by (auto simp: run_simps)
    next
      case True
      obtain c ss where cr: "db_create (sd_settlement D) (v1_pending sid rid ref) (vd_settlements (vw_db w)) = (c, ss)"
        by fastforce
      show ?thesis
      proof (cases c)
        case (Inl x)
        then have "ss = vd_settlements (vw_db w)" using cr S.create_err by blast
        then show ?thesis
          using assms set Inr True Inl cr unfolding v1_locked_def v1_pending_def [symmetric] by (auto simp: run_simps)
      next
        case (Inr x)
        then have "ss = vd_settlements (vw_db w) @ [v1_pending sid rid ref]"
          "\<forall>s\<in>set (vd_settlements (vw_db w)). vs_id s \<noteq> sid"
          using cr S.create_ok [of "v1_pending sid rid ref" _ x ss] by (auto simp: v1_settlement_clash_def)
        moreover have "k = (vw_keys w)(v1_lock_key rid \<mapsto> 1)" "vw_keys w (v1_lock_key rid) = None"
          using lk True by (auto split: if_splits)
        ultimately show ?thesis
          using assms set \<open>b = Inr l\<close> True Inr cr failed_run unfolding v1_locked_def v1_pending_def [symmetric]
          by (cases "v1_execute D pr v rid ref sid rcid now (v1_lock_world rid sid ref w)")
            (auto simp: v1_lock_world_def seq_def finally_do_def try_catch_def ignore_errors_def zoom_def v1_zoom_defs
              split: prod.splits sum.splits)
      qed
    qed
  qed
qed

end

lemma last_entry:
  assumes "xs @ [y] = us @ s # vs" and "\<forall>x\<in>set xs. f x \<noteq> c" and "f s = c"
  shows "us = xs \<and> s = y \<and> vs = []"
  using assms by (cases vs rule: rev_cases) auto

context settle_payment
begin

lemma pay_cases:
  assumes "settlePayment D rid ref sid rcid now w = (r, w')"
  obtains (Refused) e where "settle_load D rid w = (Inl e, w)" "r = Inl e" "w' = w"
    | (Already) pr v a where "settle_load D rid w = (Inr (pr, v, Some a), w)" "r = Inr a" "w' = w"
    | (Locked) pr v where "settle_load D rid w = (Inr (pr, v, None), w)"
        "v1_locked D pr v rid ref sid rcid now w = (r, w')"
proof -
  obtain l w0 where l: "settle_load D rid w = (l, w0)" by fastforce
  have w0: "w0 = w" using load_same [OF l] .
  show thesis
  proof (cases l)
    case (Inl e)
    then show ?thesis using assms l w0 by (intro Refused) (auto simp: settlePayment_def seq_def)
  next
    case (Inr x)
    obtain pr v a where x: "x = (pr, v, a)" by (rule prod_cases3)
    show ?thesis
    proof (cases a)
      case None
      then show ?thesis using assms l w0 Inr x by (intro Locked [of pr v]) (simp_all add: settlePayment_def seq_def)
    next
      case (Some b)
      then show ?thesis
        using assms l w0 Inr x by (intro Already [of pr v b]) (auto simp: settlePayment_def seq_def ret_def)
    qed
  qed
qed

lemma new_settlement_sound:
  assumes "settlePayment D rid ref sid rcid now w = (Inr (SettledV1 res), w')" and "\<not> sr_idempotent res"
  shows "\<exists>pr v network asset sig tx s c fees.
    pr \<in> set (vd_requests (vw_db w)) \<and> vq_id pr = rid \<and>
    v \<in> set (vd_verifications (vw_db w)) \<and> pv_requestId v = rid \<and> pv_status v = VAccepted \<and>
    (\<forall>x\<in>set (vd_settlements (vw_db w)). \<not> (vs_requestId x = rid \<and> vs_status x = SConfirmed)) \<and>
    vw_keys w (v1_lock_key rid) = None \<and>
    sd_getNetwork D (vq_network pr) = Some network \<and> vn_assets network (vq_asset pr) = Some asset \<and>
    pv_signatureHash v = Some sig \<and>
    submitOnChain (sd_chain D)
      \<lparr>oc_from = vq_buyer pr, oc_to = Some (vq_seller pr), oc_value = vq_amount pr, oc_validAfter = 0,
       oc_validBefore = vq_expiresAt pr div 1000, oc_nonce = pv_nonce v, oc_signature = sig,
       oc_assetAddress = va_contractAddress asset, oc_rpcUrl = sd_rpcUrl D,
       oc_fallbackRpcUrl = sd_rpcUrlFallback D\<rparr> (vw_submitted w) = (Inr tx, vw_submitted w') \<and>
    sr_txHash res = or_txHash tx \<and>
    fees = fee_compute (createFeeEngine (sd_platformFeeBps D) (sd_developerShareBps D) None None) now
      (vq_amount pr) (vq_seller pr) ref 0 \<and>
    vd_settlements (vw_db w') = vd_settlements (vw_db w) @ [s] \<and> vs_id s = sr_settlementId res \<and>
    vs_requestId s = rid \<and> vs_status s = SConfirmed \<and> vs_txHash s = Some (or_txHash tx) \<and>
    vs_feeAmount s = Some (fb_platformFee fees) \<and> vs_developerShare s = Some (fb_developerShare fees) \<and>
    vd_receipts (vw_db w') = vd_receipts (vw_db w) @ [c] \<and> vc_id c = sr_receiptId res \<and>
    vc_settlementId c = Some (vs_id s)"
proof -
  from assms(1) obtain pr v where l: "settle_load D rid w = (Inr (pr, v, None), w)" and
    k: "v1_locked D pr v rid ref sid rcid now w = (Inr (SettledV1 res), w')"
  proof (cases rule: pay_cases)
    case (Already pr v a)
    then show ?thesis using assms(2) load_Inr [OF Already(1)] by auto
  qed simp
  from locked_Inr [OF k] obtain w2 where
    free: "vw_keys w (v1_lock_key rid) = None" "\<forall>s\<in>set (vd_settlements (vw_db w)). vs_id s \<noteq> sid" and
    e: "v1_execute D pr v rid ref sid rcid now (v1_lock_world rid sid ref w) = (Inr (SettledV1 res), w2)" and
    w': "w' = w2\<lparr>vw_keys := snd (redis_del (sd_redis D) (v1_lock_key rid) (vw_keys w2))\<rparr>" by auto
  have v: "v \<in> set (vd_verifications (vw_db w)) \<and> pv_requestId v = rid \<and> pv_status v = VAccepted"
    using load_Inr [OF l] by (metis (mono_tags, lifting) list.set_intros(1) mem_Collect_eq set_filter)
  from execute_Inr [OF e] show ?thesis
  proof (elim exE conjE, goal_cases)
    case (1 network asset sig tx log us s vs confirmed fees)
    from 1(6) have "us = vd_settlements (vw_db w) \<and> s = v1_pending sid rid ref \<and> vs = []"
      using last_entry [of "vd_settlements (vw_db w)" "v1_pending sid rid ref" us s vs vs_id sid] free(2) 1(7) by simp
    with 1 load_Inr [OF l] v free(1) w' show ?case
      by (intro exI [of _ pr] exI [of _ v] exI [of _ network] exI [of _ asset] exI [of _ sig] exI [of _ tx]
          exI [of _ "(v1_pending sid rid ref)\<lparr>vs_status := SConfirmed, vs_txHash := Some (or_txHash tx),
            vs_feeAmount := Some (fb_platformFee fees), vs_developerShare := Some (fb_developerShare fees),
            vs_confirmedAt := Some now\<rparr>"] exI [of _ "\<lparr>vc_id = rcid, vc_requestId = rid, vc_settlementId = Some sid,
            vc_protocolVersion = ''1'', vc_responsePayload = v1_receipt_payload pr (or_txHash tx) fees confirmed\<rparr>"]
          exI [of _ fees]) simp
  qed
qed


end

lemma update_first_last:
  "\<forall>x\<in>set xs. \<not> p x \<Longrightarrow> p y \<Longrightarrow> update_first p f (xs @ [y]) = Some (f y, xs @ [f y])"
  by (induction xs) auto

section \<open>Properties\<close>

text \<open>C7. A settlement that \<open>settlePayment\<close> makes is for a request with an accepted verification and no
  confirmed settlement; the transfer it submitted is the request's (payer, payee, amount, nonce
  and signature), succeeded on chain, and one confirmed record with its hash and the fees of
  the fee engine, and one receipt, are stored.\<close>

theorem settlePayment_sound:
  assumes "settle_payment D"
    and "settlePayment D rid ref sid rcid now w = (Inr (SettledV1 res), w')" and "\<not> sr_idempotent res"
  shows "\<exists>pr v network asset sig tx s c fees.
    pr \<in> set (vd_requests (vw_db w)) \<and> vq_id pr = rid \<and>
    v \<in> set (vd_verifications (vw_db w)) \<and> pv_requestId v = rid \<and> pv_status v = VAccepted \<and>
    (\<forall>x\<in>set (vd_settlements (vw_db w)). \<not> (vs_requestId x = rid \<and> vs_status x = SConfirmed)) \<and>
    vw_keys w (v1_lock_key rid) = None \<and>
    sd_getNetwork D (vq_network pr) = Some network \<and> vn_assets network (vq_asset pr) = Some asset \<and>
    pv_signatureHash v = Some sig \<and>
    submitOnChain (sd_chain D)
      \<lparr>oc_from = vq_buyer pr, oc_to = Some (vq_seller pr), oc_value = vq_amount pr, oc_validAfter = 0,
       oc_validBefore = vq_expiresAt pr div 1000, oc_nonce = pv_nonce v, oc_signature = sig,
       oc_assetAddress = va_contractAddress asset, oc_rpcUrl = sd_rpcUrl D,
       oc_fallbackRpcUrl = sd_rpcUrlFallback D\<rparr> (vw_submitted w) = (Inr tx, vw_submitted w') \<and>
    sr_txHash res = or_txHash tx \<and>
    fees = fee_compute (createFeeEngine (sd_platformFeeBps D) (sd_developerShareBps D) None None) now
      (vq_amount pr) (vq_seller pr) ref 0 \<and>
    vd_settlements (vw_db w') = vd_settlements (vw_db w) @ [s] \<and> vs_id s = sr_settlementId res \<and>
    vs_requestId s = rid \<and> vs_status s = SConfirmed \<and> vs_txHash s = Some (or_txHash tx) \<and>
    vs_feeAmount s = Some (fb_platformFee fees) \<and> vs_developerShare s = Some (fb_developerShare fees) \<and>
    vd_receipts (vw_db w') = vd_receipts (vw_db w) @ [c] \<and> vc_id c = sr_receiptId res \<and>
    vc_settlementId c = Some (vs_id s)"
  using settle_payment.new_settlement_sound [OF assms] .

context settle_payment
begin

lemma confirmed_answered:
  assumes "s \<in> set (vd_settlements (vw_db w))" and "vs_requestId s = rid" and "vs_status s = SConfirmed"
    and "settlePayment D rid ref sid rcid now w = (r, w')"
  shows "w' = w" and "r = Inr out \<Longrightarrow> \<exists>res. out = SettledV1 res \<and> sr_idempotent res"
proof -
  have "w' = w \<and> (\<forall>out. r = Inr out \<longrightarrow> (\<exists>res. out = SettledV1 res \<and> sr_idempotent res))"
    using assms(4)
  proof (cases rule: pay_cases)
    case (Already pr v a)
    then show ?thesis using load_Inr [OF Already(1)] by auto
  next
    case (Locked pr v)
    then show ?thesis using load_Inr [OF Locked(1)] assms(1-3) by auto
  qed simp
  then show "w' = w" and "r = Inr out \<Longrightarrow> \<exists>res. out = SettledV1 res \<and> sr_idempotent res" by simp_all
qed

lemma settled_has_record:
  assumes "settlePayment D rid ref sid rcid now w = (Inr (SettledV1 res), w')"
  shows "\<exists>s\<in>set (vd_settlements (vw_db w')). vs_requestId s = rid \<and> vs_status s = SConfirmed"
  using assms
proof (cases rule: pay_cases)
  case (Already pr v a)
  then show ?thesis using load_Inr [OF Already(1)] by auto
next
  case (Locked pr v)
  have "\<not> sr_idempotent res"
    using locked_Inr [OF Locked(2)] execute_Inr by fastforce
  from new_settlement_sound [OF assms this] show ?thesis by (elim exE conjE) simp
qed simp

lemma error_cases:
  assumes "settlePayment D rid ref sid rcid now w = (Inl e, w')"
  obtains (Unchanged) k where "w' = w\<lparr>vw_keys := k\<rparr>"
    | (Failed) more st where "vw_submitted w' = vw_submitted w @ more"
        "vd_receipts (vw_db w') = vd_receipts (vw_db w)"
        "vd_settlements (vw_db w') = vd_settlements (vw_db w) @ [(v1_pending sid rid ref)\<lparr>vs_status := st\<rparr>]"
        "st = SPending \<or> st = SFailed"
        "redis_answers (sd_redis D) \<Longrightarrow> vw_keys w' (v1_lock_key rid) = None"
  using assms
proof (cases rule: pay_cases)
  case (Refused e0)
  then show ?thesis using Unchanged [of "vw_keys w"] by simp
next
  case (Locked pr v)
  from locked_Inl [OF Locked(2)] show ?thesis
  proof (elim disjE exE conjE, goal_cases)
    case (1 k)
    then show ?case by (rule Unchanged)
  next
    case (2 e0 w2 w3)
    from execute_Inl [OF 2(3)] obtain more where
      w2: "w2 = (v1_lock_world rid sid ref w)\<lparr>vw_submitted := vw_submitted w @ more\<rparr>" by auto
    note f = failed_run [OF 2(4)]
    have "\<exists>st. vd_settlements (vw_db w3) = vd_settlements (vw_db w) @ [(v1_pending sid rid ref)\<lparr>vs_status := st\<rparr>] \<and>
        (st = SPending \<or> st = SFailed)"
    proof (cases "vd_settlements (vw_db w3) = vd_settlements (vw_db w2)")
      case True
      then show ?thesis using w2 by (intro exI [of _ SPending]) (simp add: v1_pending_def)
    next
      case False
      then obtain us s vs where u: "vd_settlements (vw_db w2) = us @ s # vs" "vs_id s = sid"
        "vd_settlements (vw_db w3) = us @ s\<lparr>vs_status := SFailed\<rparr> # vs" using f by blast
      have "vd_settlements (vw_db w) @ [v1_pending sid rid ref] = us @ s # vs" using u(1) w2 by simp
      from last_entry [OF this 2(2) u(2)]
      have "us = vd_settlements (vw_db w) \<and> s = v1_pending sid rid ref \<and> vs = []" .
      with u(3) show ?thesis by (intro exI [of _ SFailed]) simp
    qed
    moreover have "vw_keys w' (v1_lock_key rid) = None" if "redis_answers (sd_redis D)"
    proof -
      obtain k where k: "redis_del (sd_redis D) (v1_lock_key rid) (vw_keys w3) = (Inr (), k)"
        using \<open>redis_answers (sd_redis D)\<close> unfolding redis_answers_def by blast
      then show ?thesis using 2(5) del_ok [OF k] by simp
    qed
    ultimately show ?case using f 2(5) w2 Failed [of more] by auto
  qed
qed simp

end

text \<open>C8. Settled once: after a call that answered that a request is settled, and as long as its
  confirmed record stays in the table, no later call changes Redis, the database or the chain,
  and every answer is the idempotent one.\<close>

theorem settlePayment_once:
  assumes "settle_payment D" and "settlePayment D rid ref sid rcid now w = (Inr (SettledV1 res), w1)"
    and "\<And>s. s \<in> set (vd_settlements (vw_db w1)) \<Longrightarrow> vs_requestId s = rid \<Longrightarrow> vs_status s = SConfirmed \<Longrightarrow>
      s \<in> set (vd_settlements (vw_db w2))"
    and "settlePayment D rid ref' sid' rcid' now' w2 = (r, w3)"
  shows "w3 = w2 \<and> (\<forall>out. r = Inr out \<longrightarrow> (\<exists>res'. out = SettledV1 res' \<and> sr_idempotent res'))"
proof -
  have "\<exists>s\<in>set (vd_settlements (vw_db w1)). vs_requestId s = rid \<and> vs_status s = SConfirmed"
    by (rule settle_payment.settled_has_record [OF assms(1,2)])
  then obtain s where s: "s \<in> set (vd_settlements (vw_db w2))" "vs_requestId s = rid" "vs_status s = SConfirmed"
    using assms(3) by blast
  show ?thesis using settle_payment.confirmed_answered [OF assms(1) s assms(4)] by blast
qed

text \<open>C20. With a Redis that answers every command, a call that throws confirms nothing: it adds no
  receipt and no confirmed record, and the records it found are untouched. If it submitted
  anything it has left a record of the attempt; a call that left a record has freed the lock of
  the request; a call that left none changed nothing except perhaps Redis (when only the insertion
  of the pending record is refused, the lock stays until it expires).\<close>

theorem settlePayment_error:
  assumes "settle_payment D" and "redis_answers (sd_redis D)"
    and "settlePayment D rid ref sid rcid now w = (Inl e, w')"
  shows "vd_receipts (vw_db w') = vd_receipts (vw_db w) \<and>
    (\<exists>new. vd_settlements (vw_db w') = vd_settlements (vw_db w) @ new \<and>
       (\<forall>s\<in>set new. vs_requestId s = rid \<and> vs_status s \<noteq> SConfirmed \<and> vs_txHash s = None)) \<and>
    (vw_submitted w' \<noteq> vw_submitted w \<longrightarrow>
       vw_keys w' (v1_lock_key rid) = None \<and> vd_settlements (vw_db w') \<noteq> vd_settlements (vw_db w)) \<and>
    (vd_settlements (vw_db w') \<noteq> vd_settlements (vw_db w) \<longrightarrow> vw_keys w' (v1_lock_key rid) = None) \<and>
    (vd_settlements (vw_db w') = vd_settlements (vw_db w) \<longrightarrow> w' = w\<lparr>vw_keys := vw_keys w'\<rparr>)"
  using assms(3)
proof (cases rule: settle_payment.error_cases [OF assms(1), consumes 1, case_names Unchanged Failed])
  case (Unchanged k)
  then show ?thesis by (intro conjI exI [of _ "[]"]) simp_all
next
  case (Failed more st)
  then show ?thesis using assms(2)
    by (intro conjI exI [of _ "[(v1_pending sid rid ref)\<lparr>vs_status := st\<rparr>]"]) (auto simp: v1_pending_def)
qed

text \<open>The message of a failure can be wrong: when the transfer is confirmed on chain and only the
  transaction that records it fails, the caller is told that the on-chain transaction failed and
  that no funds were moved.\<close>

theorem settlePayment_misreports:
  assumes "sd_redis D = mock_redis" and "sd_settlement D = table_of v1_settlement_clash"
    and "settle_load D rid w = (Inr (pr, v, None), w)" and "vw_keys w (v1_lock_key rid) = None"
    and "\<And>s. s \<in> set (vd_settlements (vw_db w)) \<Longrightarrow> vs_id s \<noteq> sid"
    and "sd_getNetwork D (vq_network pr) = Some network" and "vn_assets network (vq_asset pr) = Some asset"
    and "v1_submit D pr v asset (v1_lock_world rid sid ref w) = (Inr tx, w1)"
    and "\<And>body d. \<exists>err. sd_tx D body d = (Inl err, d)"
  shows "\<exists>w'. settlePayment D rid ref sid rcid now w =
      (Inl (Facilitator (createError ''settlement_failed''
         (Some ''The on-chain transaction failed. No funds were moved.'') (Some rid))), w') \<and>
    vw_submitted w' = vw_submitted w1"
proof -
  obtain log where w1: "w1 = (v1_lock_world rid sid ref w)\<lparr>vw_submitted := log\<rparr>"
    using submit_v1_log [OF assms(8)] by blast
  let ?fees = "fee_compute (createFeeEngine (sd_platformFeeBps D) (sd_developerShareBps D) None None) now
      (vq_amount pr) (vq_seller pr) ref 0"
  obtain err where tx: "sd_tx D (v1_commit D pr rid sid rcid (or_txHash tx) ?fees now) (vw_db w1) = (Inl err, vw_db w1)"
    using assms(9) by blast
  have ex: "v1_execute D pr v rid ref sid rcid now (v1_lock_world rid sid ref w) = (Inl err, w1)"
    using assms(6,7,8) tx unfolding v1_execute_def Let_def by (simp add: seq_def v1_zoom_defs zoom_def)
  have "\<not> list_ex (v1_settlement_clash (v1_pending sid rid ref)) (vd_settlements (vw_db w))"
    using assms(5) by (auto simp: list_ex_iff v1_settlement_clash_def v1_pending_def)
  moreover have "update_first (\<lambda>s. vs_id s = sid) (\<lambda>s. s\<lparr>vs_status := SFailed\<rparr>)
      (vd_settlements (vw_db w) @ [v1_pending sid rid ref]) =
      Some ((v1_pending sid rid ref)\<lparr>vs_status := SFailed\<rparr>,
        vd_settlements (vw_db w) @ [(v1_pending sid rid ref)\<lparr>vs_status := SFailed\<rparr>])"
    by (rule update_first_last) (use assms(5) in auto)
  ultimately show ?thesis
    using assms(1-4) ex w1 unfolding settlePayment_def v1_locked_def v1_failed_def v1_pending_def [symmetric]
    by (simp add: seq_def v1_zoom_defs zoom_def mock_redis_def table_of_def finally_do_def try_catch_def
        ignore_errors_def fail_def throw_def v1_lock_world_def)
qed

section \<open>Witnesses\<close>

definition sample_v1 :: settle_deps where
  "sample_v1 =
     \<lparr>sd_redis = mock_redis, sd_request = table_of v1_request_clash,
      sd_verification = table_of verification_clash, sd_settlement = table_of v1_settlement_clash,
      sd_receipt = table_of v1_receipt_clash, sd_tx = pg_transaction,
      sd_getNetwork = (\<lambda>n. if n = ByName ''base-mainnet'' then Some \<lparr>vn_chainId = 8453, vn_name = ''base-mainnet'',
        vn_assets = [''usdc'' \<mapsto> \<lparr>va_symbol = ''usdc'', va_contractAddress = ''0xc'', va_decimals = 6,
           va_eip712Version = ''2''\<rparr>]\<rparr> else None),
      sd_chain = sample_chain, sd_rpcUrl = ''up'', sd_rpcUrlFallback = None,
      sd_platformFeeBps = 50, sd_developerShareBps = 2000\<rparr>"

definition sample_row :: v1_request where
  "sample_row = \<lparr>vq_id = ''r'', vq_seller = ''0xs'', vq_buyer = ''0xb'', vq_network = ByName ''base-mainnet'',
     vq_asset = ''usdc'', vq_amount = 1000000, vq_invoiceId = ''i'', vq_scheme = ''exact'', vq_expiresAt = 2000000\<rparr>"

definition sample_accepted :: payment_verification where
  "sample_accepted = \<lparr>pv_id = ''v'', pv_requestId = ''r'', pv_status = VAccepted, pv_errorCode = None, pv_reason = None,
     pv_signatureHash = Some ''0x'', pv_nonce = Some ''0xn'', pv_payloadHash = None, pv_createdAt = 0\<rparr>"

definition verified_world :: v1_world where
  "verified_world = v1_empty\<lparr>vw_db := (vw_db v1_empty)\<lparr>vd_requests := [sample_row], vd_verifications := [sample_accepted]\<rparr>\<rparr>"

lemma sample_v1_ok: "settle_payment sample_v1"
  by (simp add: settle_payment_def sample_v1_def mock_redis_store table_of_prisma pg_transactional)

interpretation sample_settling: settle_payment sample_v1
  by (rule sample_v1_ok)

lemmas settle_payment_simps = settlePayment_def settle_load_def v1_locked_def v1_execute_def v1_submit_def
  v1_commit_def v1_failed_def submitOnChain_def of_sum_def rpc_urls_def rpc_attempt_def sample_chain_def writeContract_def
  waitForTransactionReceipt_def v1_zoom_defs zoom_def seq_def ret_def throw_def fail_def try_catch_def finally_do_def
  ignore_errors_def mock_redis_def table_of_def pg_transaction_def v1_empty_def sample_v1_def sample_row_def
  sample_accepted_def verified_world_def Let_def iso_def v1_settlement_clash_def v1_receipt_clash_def v1_lock_key_def

lemma sample_iso_0: "\<exists>s. toISOString 1000 = Some s"
  by (simp add: toISOString_Some_iff valid_time_def)

lemma sample_v1_settles:
  "\<exists>w'. settlePayment sample_v1 ''r'' None ''s'' ''c'' 1000 verified_world =
     (Inr (SettledV1 \<lparr>sr_settlementId = ''s'', sr_requestId = ''r'', sr_txHash = ''0xhash'', sr_receiptId = ''c'',
        sr_idempotent = False\<rparr>), w')"
  using sample_iso_0 by (auto simp: settle_payment_simps)

theorem settlePayment_sound_witness:
  "\<exists>res w'. settlePayment sample_v1 ''r'' None ''s'' ''c'' 1000 verified_world = (Inr (SettledV1 res), w') \<and>
     (\<exists>s. vd_settlements (vw_db w') = [s] \<and> vs_status s = SConfirmed \<and> vs_requestId s = ''r'')"
proof -
  obtain w' where run: "settlePayment sample_v1 ''r'' None ''s'' ''c'' 1000 verified_world =
     (Inr (SettledV1 \<lparr>sr_settlementId = ''s'', sr_requestId = ''r'', sr_txHash = ''0xhash'', sr_receiptId = ''c'',
        sr_idempotent = False\<rparr>), w')" using sample_v1_settles by blast
  have "vd_settlements (vw_db verified_world) = []" by (simp add: verified_world_def v1_empty_def)
  with settlePayment_sound [OF sample_v1_ok run] have
    "\<exists>s. vd_settlements (vw_db w') = [s] \<and> vs_status s = SConfirmed \<and> vs_requestId s = ''r''" by fastforce
  with run show ?thesis by blast
qed

theorem settlePayment_once_witness:
  "\<exists>res w1. settlePayment sample_v1 ''r'' None ''s'' ''c'' 1000 verified_world = (Inr (SettledV1 res), w1) \<and>
     snd (settlePayment sample_v1 ''r'' None ''s2'' ''c2'' 2000 w1) = w1"
proof -
  obtain res w1 where run: "settlePayment sample_v1 ''r'' None ''s'' ''c'' 1000 verified_world =
     (Inr (SettledV1 res), w1)" using sample_v1_settles by blast
  obtain r w3 where again: "settlePayment sample_v1 ''r'' None ''s2'' ''c2'' 2000 w1 = (r, w3)" by fastforce
  from settlePayment_once [OF sample_v1_ok run _ again] run again show ?thesis by auto
qed

theorem settlePayment_error_witness:
  "\<exists>e w'. settlePayment (sample_v1\<lparr>sd_rpcUrl := ''down''\<rparr>) ''r'' None ''s'' ''c'' 1000 verified_world = (Inl e, w') \<and>
     vd_receipts (vw_db w') = [] \<and> vw_submitted w' \<noteq> [] \<and> vw_keys w' (v1_lock_key ''r'') = None"
proof -
  let ?D = "sample_v1\<lparr>sd_rpcUrl := ''down''\<rparr>"
  have ok: "settle_payment ?D" using sample_v1_ok by (simp add: settle_payment_def)
  have a: "redis_answers (sd_redis ?D)" by (simp add: sample_v1_def mock_answers)
  have "\<exists>e w'. settlePayment ?D ''r'' None ''s'' ''c'' 1000 verified_world = (Inl e, w') \<and> vw_submitted w' \<noteq> []"
    by (simp add: settle_payment_simps)
  then obtain e w' where run: "settlePayment ?D ''r'' None ''s'' ''c'' 1000 verified_world = (Inl e, w')"
    "vw_submitted w' \<noteq> []" by blast
  have "vd_receipts (vw_db verified_world) = []" "vw_submitted verified_world = []"
    by (simp_all add: verified_world_def v1_empty_def)
  with settlePayment_error [OF ok a run(1)] run show ?thesis by auto
qed

theorem settlePayment_misreports_witness:
  "\<exists>w'. settlePayment (sample_v1\<lparr>sd_tx := \<lambda>body d. (Inl (plainError ''connection lost''), d)\<rparr>) ''r'' None ''s'' ''c'' 1000
      verified_world =
      (Inl (Facilitator (createError ''settlement_failed''
         (Some ''The on-chain transaction failed. No funds were moved.'') (Some ''r''))), w') \<and>
    length (vw_submitted w') = 1"
proof -
  let ?D = "sample_v1\<lparr>sd_tx := \<lambda>body d. (Inl (plainError ''connection lost''), d)\<rparr>"
  have load: "settle_load ?D ''r'' verified_world = (Inr (sample_row, sample_accepted, None), verified_world)"
    by (simp add: settle_payment_simps)
  obtain network asset where n: "sd_getNetwork ?D (vq_network sample_row) = Some network"
    "vn_assets network (vq_asset sample_row) = Some asset" by (simp add: sample_v1_def sample_row_def)
  have "\<exists>tx w1. v1_submit ?D sample_row sample_accepted asset (v1_lock_world ''r'' ''s'' None verified_world) = (Inr tx, w1) \<and>
      length (vw_submitted w1) = 1"
    by (simp add: settle_payment_simps v1_lock_world_def)
  then obtain tx w1 where s: "v1_submit ?D sample_row sample_accepted asset (v1_lock_world ''r'' ''s'' None verified_world)
      = (Inr tx, w1)" "length (vw_submitted w1) = 1" by blast
  have k: "sd_redis ?D = mock_redis" "sd_settlement ?D = table_of v1_settlement_clash"
    "vw_keys verified_world (v1_lock_key ''r'') = None" "\<And>x. x \<in> set (vd_settlements (vw_db verified_world)) \<Longrightarrow> vs_id x \<noteq> ''s''"
    "\<And>body d. \<exists>err. sd_tx ?D body d = (Inl err, d)"
    by (simp_all add: sample_v1_def verified_world_def v1_empty_def)
  from settlePayment_misreports [OF k(1,2) load k(3,4) n s(1) k(5), where rcid = "''c''" and now = 1000] s(2) show ?thesis by auto
qed

end
