(* ===== verification/CircuitBreaker.thy ===== *)
theory CircuitBreaker
  imports Errors
begin

text \<open>
  \<open>src/infrastructure/circuit-breaker.ts\<close> and \<open>src/infrastructure/rpc-client.ts\<close>: the
  circuit breaker as a state with its four methods, one call of \<open>execute\<close>, the breaker with
  several calls in flight, and the client that fails over from the primary to the fallback
  endpoint. The Prometheus counters are not modelled. Times are milliseconds; a call of the
  guarded function is its outcome and its duration.
\<close>

section \<open>The breaker\<close>

datatype circuit_state = CLOSED | OPEN | HALF_OPEN

record breaker_options =
  bo_name :: string
  bo_failureThreshold :: nat
  bo_successThreshold :: nat
  bo_resetTimeoutMs :: int
  bo_callTimeoutMs :: int

definition breaker_defaults ::
  "string \<Rightarrow> nat option \<Rightarrow> nat option \<Rightarrow> int option \<Rightarrow> int option \<Rightarrow> breaker_options" where
  "breaker_defaults name ft st rt ct =
     \<lparr>bo_name = name,
      bo_failureThreshold = (case ft of Some x \<Rightarrow> x | None \<Rightarrow> 5),
      bo_successThreshold = (case st of Some x \<Rightarrow> x | None \<Rightarrow> 2),
      bo_resetTimeoutMs = (case rt of Some x \<Rightarrow> x | None \<Rightarrow> 30000),
      bo_callTimeoutMs = (case ct of Some x \<Rightarrow> x | None \<Rightarrow> 10000)\<rparr>"

record breaker =
  br_state :: circuit_state
  br_failures :: nat
  br_successes :: nat
  br_lastOpenedAt :: "int option"

definition breaker_init :: breaker where
  "breaker_init = \<lparr>br_state = CLOSED, br_failures = 0, br_successes = 0, br_lastOpenedAt = None\<rparr>"

fun transitionTo :: "int \<Rightarrow> circuit_state \<Rightarrow> breaker \<Rightarrow> breaker" where
  "transitionTo now OPEN b = b\<lparr>br_state := OPEN, br_lastOpenedAt := Some now, br_failures := 0\<rparr>"
| "transitionTo now HALF_OPEN b = b\<lparr>br_state := HALF_OPEN, br_successes := 0\<rparr>"
| "transitionTo now CLOSED b = b\<lparr>br_state := CLOSED, br_failures := 0, br_successes := 0\<rparr>"

definition isOpen :: "breaker_options \<Rightarrow> int \<Rightarrow> breaker \<Rightarrow> bool \<times> breaker" where
  "isOpen opts now b =
     (if br_state b = OPEN then
        let elapsed = now - (case br_lastOpenedAt b of Some t \<Rightarrow> t | None \<Rightarrow> 0) in
        if elapsed \<ge> bo_resetTimeoutMs opts then (False, transitionTo now HALF_OPEN b)
        else (True, b)
      else (False, b))"

definition breaker_onSuccess :: "breaker_options \<Rightarrow> int \<Rightarrow> breaker \<Rightarrow> breaker" where
  "breaker_onSuccess opts now b =
     (if br_state b = HALF_OPEN then
        let b1 = b\<lparr>br_successes := br_successes b + 1\<rparr> in
        if br_successes b1 \<ge> bo_successThreshold opts then transitionTo now CLOSED b1 else b1
      else b\<lparr>br_failures := 0\<rparr>)"

definition breaker_onFailure :: "breaker_options \<Rightarrow> int \<Rightarrow> breaker \<Rightarrow> breaker" where
  "breaker_onFailure opts now b =
     (let b1 = b\<lparr>br_failures := br_failures b + 1, br_successes := 0\<rparr> in
      if br_state b1 = HALF_OPEN \<or> br_failures b1 \<ge> bo_failureThreshold opts
      then transitionTo now OPEN b1 else b1)"

definition breaker_reset :: "breaker \<Rightarrow> breaker" where
  "breaker_reset b = \<lparr>br_state = CLOSED, br_failures = 0, br_successes = 0, br_lastOpenedAt = None\<rparr>"

definition CircuitOpenError :: "string \<Rightarrow> exn" where
  "CircuitOpenError name =
     JsError ''CircuitOpenError'' (''Circuit breaker ['' @ name @ ''] is OPEN. Calls blocked.'')"

definition is_CircuitOpenError :: "exn \<Rightarrow> bool" where
  "is_CircuitOpenError e = (exn_name e = ''CircuitOpenError'')"

text \<open>The outcome of a call and how long it takes.\<close>

type_synonym 'a timed_call = "(exn + 'a) \<times> int"

definition withTimeout :: "breaker_options \<Rightarrow> 'a timed_call \<Rightarrow> exn + 'a" where
  "withTimeout opts call =
     (if snd call < bo_callTimeoutMs opts then fst call
      else Inl (plainError (''Circuit breaker ['' @ bo_name opts @ ''] call timeout ('' @
              int_str (bo_callTimeoutMs opts) @ ''ms)'')))"

definition settle_time :: "breaker_options \<Rightarrow> int \<Rightarrow> 'a timed_call \<Rightarrow> int" where
  "settle_time opts now call = now + min (snd call) (bo_callTimeoutMs opts)"

text \<open>
  \<open>execute\<close>, with no other call in flight: the result, whether the function was called, and
  the breaker afterwards.
\<close>

definition breaker_execute ::
  "breaker_options \<Rightarrow> int \<Rightarrow> 'a timed_call \<Rightarrow> breaker \<Rightarrow> (exn + 'a) \<times> bool \<times> breaker" where
  "breaker_execute opts now call b =
     (case isOpen opts now b of
        (True, b1) \<Rightarrow> (Inl (CircuitOpenError (bo_name opts)), False, b1)
      | (False, b1) \<Rightarrow>
          (case withTimeout opts call of
             Inr x \<Rightarrow> (Inr x, True, breaker_onSuccess opts (settle_time opts now call) b1)
           | Inl e \<Rightarrow>
               if is_CircuitOpenError e then (Inl e, True, b1)
               else (Inl e, True, breaker_onFailure opts (settle_time opts now call) b1)))"

section \<open>Several calls in flight\<close>

record flying =
  fl_breaker :: breaker
  fl_inflight :: nat
  fl_now :: int

text \<open>
  A call is admitted by \<open>isOpen\<close>; later it succeeds or fails, or ends in a \<open>CircuitOpenError\<close>
  (of a breaker inside it), which \<open>execute\<close> passes on without counting it; an operator may reset
  the breaker; time passes.
\<close>

inductive breaker_step :: "breaker_options \<Rightarrow> flying \<Rightarrow> flying \<Rightarrow> bool" for opts where
  admit: "isOpen opts (fl_now s) (fl_breaker s) = (False, b) \<Longrightarrow>
    breaker_step opts s (s\<lparr>fl_breaker := b, fl_inflight := fl_inflight s + 1\<rparr>)"
| block: "isOpen opts (fl_now s) (fl_breaker s) = (True, b) \<Longrightarrow>
    breaker_step opts s (s\<lparr>fl_breaker := b\<rparr>)"
| succeed: "0 < fl_inflight s \<Longrightarrow>
    breaker_step opts s (s\<lparr>fl_breaker := breaker_onSuccess opts (fl_now s) (fl_breaker s),
      fl_inflight := fl_inflight s - 1\<rparr>)"
| fail: "0 < fl_inflight s \<Longrightarrow>
    breaker_step opts s (s\<lparr>fl_breaker := breaker_onFailure opts (fl_now s) (fl_breaker s),
      fl_inflight := fl_inflight s - 1\<rparr>)"
| passed_on: "0 < fl_inflight s \<Longrightarrow> breaker_step opts s (s\<lparr>fl_inflight := fl_inflight s - 1\<rparr>)"
| operator: "breaker_step opts s (s\<lparr>fl_breaker := breaker_reset (fl_breaker s)\<rparr>)"
| tick: "0 \<le> d \<Longrightarrow> breaker_step opts s (s\<lparr>fl_now := fl_now s + d\<rparr>)"

definition flying_init :: "int \<Rightarrow> flying" where
  "flying_init t = \<lparr>fl_breaker = breaker_init, fl_inflight = 0, fl_now = t\<rparr>"

text \<open>Counters stay below their thresholds, and an open breaker knows since when.\<close>

definition breaker_inv :: "breaker_options \<Rightarrow> flying \<Rightarrow> bool" where
  "breaker_inv opts s \<longleftrightarrow>
     br_failures (fl_breaker s) < bo_failureThreshold opts \<and>
     br_successes (fl_breaker s) < bo_successThreshold opts \<and>
     (br_state (fl_breaker s) = OPEN \<longrightarrow> (\<exists>t. br_lastOpenedAt (fl_breaker s) = Some t \<and> t \<le> fl_now s)) \<and>
     (\<forall>t. br_lastOpenedAt (fl_breaker s) = Some t \<longrightarrow> t \<le> fl_now s)"

lemma breaker_inv_step:
  assumes "breaker_step opts s s'" and "breaker_inv opts s"
    and "0 < bo_failureThreshold opts" and "0 < bo_successThreshold opts"
  shows "breaker_inv opts s'"
  using assms
  by (cases rule: breaker_step.cases)
     (auto simp: breaker_inv_def isOpen_def breaker_onSuccess_def breaker_onFailure_def breaker_reset_def Let_def
        split: if_splits)

lemma breaker_inv_reach:
  assumes "(breaker_step opts)\<^sup>*\<^sup>* s s'" and "breaker_inv opts s"
    and "0 < bo_failureThreshold opts" and "0 < bo_successThreshold opts"
  shows "breaker_inv opts s'"
  using assms by (induction rule: rtranclp_induct) (auto intro: breaker_inv_step)

text \<open>C32. However many calls are in flight and however they end, the breaker started closed
  keeps its failure and success counters strictly below their thresholds, and when it is open
  it was opened at a time not in the future.\<close>

theorem breaker_invariant:
  assumes "(breaker_step opts)\<^sup>*\<^sup>* (flying_init t0) s"
    and "0 < bo_failureThreshold opts" and "0 < bo_successThreshold opts"
  shows "br_failures (fl_breaker s) < bo_failureThreshold opts \<and>
     br_successes (fl_breaker s) < bo_successThreshold opts \<and>
     (br_state (fl_breaker s) = OPEN \<longrightarrow> (\<exists>t. br_lastOpenedAt (fl_breaker s) = Some t \<and> t \<le> fl_now s))"
proof -
  have "breaker_inv opts (flying_init t0)"
    using assms(2,3) by (simp add: breaker_inv_def flying_init_def breaker_init_def)
  from breaker_inv_reach [OF assms(1) this assms(2,3)] show ?thesis by (simp add: breaker_inv_def)
qed

definition default_breaker :: breaker_options where
  "default_breaker = breaker_defaults ''rpc'' None None None None"

theorem breaker_invariant_witness:
  "\<exists>s. (breaker_step default_breaker)\<^sup>*\<^sup>* (flying_init 0) s \<and> fl_inflight s = 1 \<and>
     br_failures (fl_breaker s) < 5"
proof -
  let ?s = "(flying_init 0)\<lparr>fl_inflight := 1\<rparr>"
  have "breaker_step default_breaker (flying_init 0) ?s"
    using admit [of default_breaker "flying_init 0" breaker_init]
    by (simp add: flying_init_def breaker_init_def isOpen_def)
  then have r: "(breaker_step default_breaker)\<^sup>*\<^sup>* (flying_init 0) ?s" by blast
  from breaker_invariant [OF this] have "br_failures (fl_breaker ?s) < 5"
    by (simp add: default_breaker_def breaker_defaults_def)
  with r show ?thesis by (intro exI [of _ ?s]) simp
qed

section \<open>Opening and recovery\<close>

lemma execute_open:
  assumes "br_state b = OPEN" and "br_lastOpenedAt b = Some t" and "now - t < bo_resetTimeoutMs opts"
  shows "breaker_execute opts now call b = (Inl (CircuitOpenError (bo_name opts)), False, b)"
  using assms by (simp add: breaker_execute_def isOpen_def)

text \<open>A run of calls made one after the other, at given times.\<close>

fun execute_all ::
  "breaker_options \<Rightarrow> (int \<times> 'a timed_call) list \<Rightarrow> breaker \<Rightarrow> bool list \<times> breaker" where
  "execute_all opts [] b = ([], b)"
| "execute_all opts ((now, call) # cs) b =
     (case breaker_execute opts now call b of (_, called, b1) \<Rightarrow>
        (case execute_all opts cs b1 of (calleds, b2) \<Rightarrow> (called # calleds, b2)))"

text \<open>A failing call of the guarded function, by error or by timeout.\<close>

definition fails :: "breaker_options \<Rightarrow> 'a timed_call \<Rightarrow> bool" where
  "fails opts call = (case withTimeout opts call of Inl e \<Rightarrow> \<not> is_CircuitOpenError e | Inr _ \<Rightarrow> False)"

lemma execute_fails_closed:
  assumes "br_state b = CLOSED" and "fails opts call"
  shows "\<exists>e. breaker_execute opts now call b =
    (Inl e, True, breaker_onFailure opts (settle_time opts now call) b)"
  using assms by (auto simp: breaker_execute_def isOpen_def fails_def split: sum.splits)

lemma failures_count:
  assumes "br_state b = CLOSED" and "\<forall>(now, call)\<in>set cs. fails opts call"
    and "br_failures b + length cs < bo_failureThreshold opts"
  shows "\<exists>b'. execute_all opts cs b = (replicate (length cs) True, b') \<and> br_state b' = CLOSED \<and>
    br_failures b' = br_failures b + length cs"
  using assms
proof (induction cs arbitrary: b)
  case Nil
  then show ?case by simp
next
  case (Cons c cs)
  obtain now call where c: "c = (now, call)" by (rule prod.exhaust)
  let ?b1 = "breaker_onFailure opts (settle_time opts now call) b"
  have b1: "br_state ?b1 = CLOSED" "br_failures ?b1 = br_failures b + 1"
    using Cons.prems by (auto simp: breaker_onFailure_def Let_def)
  obtain e where "breaker_execute opts now call b = (Inl e, True, ?b1)"
    using execute_fails_closed Cons.prems c by fastforce
  moreover from Cons.IH [OF b1(1)] b1(2) Cons.prems obtain b' where
    "execute_all opts cs ?b1 = (replicate (length cs) True, b')" "br_state b' = CLOSED"
    "br_failures b' = br_failures b + 1 + length cs" by auto
  ultimately show ?case using c by simp
qed

lemma execute_all_append:
  "execute_all opts (xs @ ys) b =
     (case execute_all opts xs b of (f, b1) \<Rightarrow> (case execute_all opts ys b1 of (g, b2) \<Rightarrow> (f @ g, b2)))"
  by (induction xs arbitrary: b) (auto split: prod.splits)

lemma open_blocks_all:
  assumes "br_state b = OPEN" and "br_lastOpenedAt b = Some t"
    and "\<forall>(now, call)\<in>set cs. now - t < bo_resetTimeoutMs opts"
  shows "execute_all opts cs b = (replicate (length cs) False, b)"
  using assms(3)
proof (induction cs)
  case (Cons c cs)
  obtain now call where c: "c = (now, call)" by (rule prod.exhaust)
  then have "breaker_execute opts now call b = (Inl (CircuitOpenError (bo_name opts)), False, b)"
    using Cons.prems by (intro execute_open [OF assms(1,2)]) simp
  then show ?case using Cons c by simp
qed simp

text \<open>C31. A closed breaker with no recorded failure opens after exactly \<open>failureThreshold\<close>
  consecutive failures, all of which reached the endpoint, and then lets no call through
  until \<open>resetTimeoutMs\<close> have passed.\<close>

theorem breaker_opens:
  assumes "br_state b = CLOSED" and "br_failures b = 0"
    and "length cs + 1 = bo_failureThreshold opts" and "\<forall>(now, call)\<in>set cs. fails opts call"
    and "fails opts call" and "t = settle_time opts now call"
    and "\<forall>(now', call')\<in>set later. now' - t < bo_resetTimeoutMs opts"
  shows "\<exists>b'. execute_all opts (cs @ (now, call) # later) b =
      (replicate (length cs + 1) True @ replicate (length later) False, b') \<and>
    br_state b' = OPEN \<and> br_lastOpenedAt b' = Some t"
proof -
  obtain b1 where b1: "execute_all opts cs b = (replicate (length cs) True, b1)" "br_state b1 = CLOSED"
    "br_failures b1 = length cs"
    using failures_count [OF assms(1,4)] assms(2,3) by auto
  let ?b2 = "breaker_onFailure opts t b1"
  obtain e where e: "breaker_execute opts now call b1 = (Inl e, True, ?b2)"
    using execute_fails_closed [OF b1(2) assms(5)] assms(6) by fastforce
  have b2: "br_state ?b2 = OPEN" "br_lastOpenedAt ?b2 = Some t"
    using b1(3) assms(3) by (simp_all add: breaker_onFailure_def Let_def)
  have "execute_all opts later ?b2 = (replicate (length later) False, ?b2)"
    using open_blocks_all [OF b2 assms(7)] .
  then have "execute_all opts (cs @ (now, call) # later) b =
      (replicate (length cs + 1) True @ replicate (length later) False, ?b2)"
    using b1(1) e by (simp add: execute_all_append replicate_append_same [symmetric])
  with b2 show ?thesis by blast
qed

theorem breaker_opens_witness:
  "\<exists>b'. execute_all default_breaker
      (replicate 4 (0, (Inl (plainError ''down''), 1)) @ (0, (Inl (plainError ''down''), 1)) #
       [(20000, (Inr (), 1)), (30000, (Inr (), 1))]) breaker_init =
      (replicate (4 + 1) True @ [False, False], b') \<and> br_state b' = OPEN"
proof -
  have f: "fails default_breaker (Inl (plainError ''down'') :: exn + unit, 1)"
    by (simp add: fails_def withTimeout_def default_breaker_def breaker_defaults_def is_CircuitOpenError_def
        plainError_def)
  have "\<exists>b'. execute_all default_breaker
      (replicate 4 (0, (Inl (plainError ''down''), 1)) @ (0, (Inl (plainError ''down''), 1)) #
       [(20000, (Inr (), 1)), (30000, (Inr (), 1))]) breaker_init =
      (replicate (length (replicate 4 (0::int, (Inl (plainError ''down'') :: exn + unit, 1::int))) + 1) True @
       replicate (length [(20000::int, (Inr () :: exn + unit, 1::int)), (30000, (Inr (), 1))]) False, b') \<and>
      br_state b' = OPEN \<and> br_lastOpenedAt b' = Some 1"
    by (rule breaker_opens)
       (use f in \<open>auto simp: breaker_init_def default_breaker_def breaker_defaults_def settle_time_def\<close>)
  then show ?thesis by auto
qed

text \<open>The comment at the top of the file says that one successful probe closes the breaker.\<close>

lemma probe_success:
  assumes "br_state b = HALF_OPEN" and "withTimeout opts call = Inr x"
  shows "breaker_execute opts now call b = (Inr x, True, breaker_onSuccess opts (settle_time opts now call) b)"
  using assms by (simp add: breaker_execute_def isOpen_def)

lemma probes_close:
  assumes "br_state b = HALF_OPEN" and "\<forall>(now, call)\<in>set cs. \<exists>x. withTimeout opts call = Inr x"
    and "br_successes b + length cs \<le> bo_successThreshold opts" and "cs \<noteq> []"
  shows "\<exists>b'. execute_all opts cs b = (replicate (length cs) True, b') \<and>
    br_state b' = (if br_successes b + length cs = bo_successThreshold opts then CLOSED else HALF_OPEN)"
  using assms
proof (induction cs arbitrary: b)
  case (Cons c cs)
  obtain now call where c: "c = (now, call)" by (rule prod.exhaust)
  obtain x where x: "withTimeout opts call = Inr x" using Cons.prems c by auto
  let ?b1 = "breaker_onSuccess opts (settle_time opts now call) b"
  note run = probe_success [OF Cons.prems(1) x, of now]
  show ?case
  proof (cases "cs = []")
    case True
    then show ?thesis using run c Cons.prems by (auto simp: breaker_onSuccess_def Let_def)
  next
    case False
    then obtain c' cs' where "cs = c' # cs'" by (cases cs) auto
    then have "br_successes b + 1 < bo_successThreshold opts" using Cons.prems(3) by simp
    then have b1: "br_state ?b1 = HALF_OPEN" "br_successes ?b1 = br_successes b + 1"
      using Cons.prems(1) by (auto simp: breaker_onSuccess_def Let_def)
    have "\<forall>(now, call)\<in>set cs. \<exists>x. withTimeout opts call = Inr x" using Cons.prems(2) by simp
    then obtain b' where "execute_all opts cs ?b1 = (replicate (length cs) True, b')"
      "br_state b' = (if br_successes b + 1 + length cs = bo_successThreshold opts then CLOSED else HALF_OPEN)"
      using Cons.IH [OF b1(1)] b1(2) Cons.prems(3) False by auto
    then show ?thesis using run c by simp
  qed
qed simp

text \<open>Recovery: an open breaker whose reset timeout has passed lets calls through again, stays
  half-open while they succeed, and closes at exactly the \<open>successThreshold\<close>-th consecutive
  success (the second by default, not the first, as the comment has it); a failure on the way
  opens it again at once.\<close>

theorem breaker_recovers:
  assumes "br_state b = OPEN" and "br_lastOpenedAt b = Some t"
    and "bo_resetTimeoutMs opts \<le> now - t" and "withTimeout opts call = Inr x"
    and "\<forall>(now, call)\<in>set cs. \<exists>x. withTimeout opts call = Inr x"
    and "1 + length cs \<le> bo_successThreshold opts" and "fails opts bad"
  shows "\<exists>b'. execute_all opts ((now, call) # cs) b = (replicate (1 + length cs) True, b') \<and>
    br_state b' = (if 1 + length cs = bo_successThreshold opts then CLOSED else HALF_OPEN) \<and>
    (1 + length cs < bo_successThreshold opts \<longrightarrow>
       (\<exists>b2. execute_all opts ((now, call) # cs @ [(now2, bad)]) b = (replicate (2 + length cs) True, b2) \<and>
         br_state b2 = OPEN \<and> br_lastOpenedAt b2 = Some (settle_time opts now2 bad)))"
proof -
  let ?h = "b\<lparr>br_state := HALF_OPEN, br_successes := 0\<rparr>"
  have ex: "breaker_execute opts now c b = breaker_execute opts now c ?h" for c :: "'a timed_call"
    using assms(1-3) by (simp add: breaker_execute_def isOpen_def)
  then have all: "execute_all opts ((now, call) # cs) b = execute_all opts ((now, call) # cs) ?h"
    "execute_all opts ((now, call) # cs @ [(now2, bad)]) b = execute_all opts ((now, call) # cs @ [(now2, bad)]) ?h"
    by simp_all
  from probes_close [of ?h "(now, call) # cs" opts] assms(4-6) obtain b' where
    b': "execute_all opts ((now, call) # cs) ?h = (replicate (1 + length cs) True, b')"
    "br_state b' = (if 1 + length cs = bo_successThreshold opts then CLOSED else HALF_OPEN)"
    by (auto simp del: execute_all.simps)
  have "\<exists>b2. execute_all opts ((now, call) # cs @ [(now2, bad)]) ?h = (replicate (2 + length cs) True, b2) \<and>
         br_state b2 = OPEN \<and> br_lastOpenedAt b2 = Some (settle_time opts now2 bad)"
    if "1 + length cs < bo_successThreshold opts"
  proof -
    have half: "br_state b' = HALF_OPEN" using b'(2) that by simp
    obtain e where "withTimeout opts bad = Inl e" "\<not> is_CircuitOpenError e"
      using assms(7) by (auto simp: fails_def split: sum.splits)
    then have "breaker_execute opts now2 bad b' = (Inl e, True, breaker_onFailure opts (settle_time opts now2 bad) b')"
      using half by (simp add: breaker_execute_def isOpen_def)
    then have last: "execute_all opts [(now2, bad)] b' =
        ([True], breaker_onFailure opts (settle_time opts now2 bad) b')" by simp
    have "execute_all opts (((now, call) # cs) @ [(now2, bad)]) ?h =
      (replicate (1 + length cs) True @ [True], breaker_onFailure opts (settle_time opts now2 bad) b')"
      unfolding execute_all_append b'(1) prod.case last by (rule refl)
    also have "replicate (1 + length cs) True @ [True] = replicate (2 + length cs) True"
      using replicate_append_same [of "1 + length cs" True] by simp
    finally have "execute_all opts ((now, call) # cs @ [(now2, bad)]) ?h =
      (replicate (2 + length cs) True, breaker_onFailure opts (settle_time opts now2 bad) b')"
      by (simp del: execute_all.simps)
    moreover have "br_state (breaker_onFailure opts (settle_time opts now2 bad) b') = OPEN"
      "br_lastOpenedAt (breaker_onFailure opts (settle_time opts now2 bad) b') = Some (settle_time opts now2 bad)"
      using half by (simp_all add: breaker_onFailure_def Let_def)
    ultimately show ?thesis by blast
  qed
  then show ?thesis using all b' by auto
qed

theorem breaker_recovers_witness:
  "\<exists>b'. execute_all default_breaker [(40000, (Inr (), 1)), (40001, (Inr (), 1))]
      \<lparr>br_state = OPEN, br_failures = 0, br_successes = 0, br_lastOpenedAt = Some 0\<rparr> =
      ([True, True], b') \<and> br_state b' = CLOSED"
proof -
  have f: "fails default_breaker (Inl (plainError ''down'') :: exn + unit, 1)"
    by (simp add: fails_def withTimeout_def default_breaker_def breaker_defaults_def is_CircuitOpenError_def
        plainError_def)
  have ok: "withTimeout default_breaker (Inr () :: exn + unit, 1) = Inr ()"
    by (simp add: withTimeout_def default_breaker_def breaker_defaults_def)
  have th: "bo_successThreshold default_breaker = 2" "bo_resetTimeoutMs default_breaker = 30000"
    by (simp_all add: default_breaker_def breaker_defaults_def)
  let ?b = "\<lparr>br_state = OPEN, br_failures = 0, br_successes = 0, br_lastOpenedAt = Some 0\<rparr>"
  have "\<exists>b'. execute_all default_breaker ((40000, (Inr (), 1)) # [(40001, (Inr () :: exn + unit, 1))]) ?b =
      (replicate (1 + length [(40001::int, (Inr () :: exn + unit, 1::int))]) True, b') \<and>
      br_state b' = (if 1 + length [(40001::int, (Inr () :: exn + unit, 1::int))] = bo_successThreshold default_breaker
        then CLOSED else HALF_OPEN)"
    using breaker_recovers [of ?b 0 default_breaker 40000 "(Inr (), 1)" "()" "[(40001, (Inr (), 1))]", OF _ _ _ ok _ _ f]
      ok th by auto
  then show ?thesis using th by (simp del: execute_all.simps)
qed

section \<open>\<open>src/infrastructure/rpc-client.ts\<close>\<close>

record rpc_client =
  rl_primary :: breaker
  rl_fallback :: breaker

record rpc_client_config =
  rg_primaryUrl :: string
  rg_fallbackUrl :: string
  rg_primary :: breaker_options
  rg_fallback :: breaker_options

definition RpcUnavailableError :: "string \<Rightarrow> exn" where
  "RpcUnavailableError m = JsError ''RpcUnavailableError'' m"

text \<open>The client's two breakers, from the validated configuration.\<close>

definition mk_rpc_client_config ::
  "string \<Rightarrow> string \<Rightarrow> nat \<Rightarrow> int \<Rightarrow> int \<Rightarrow> rpc_client_config" where
  "mk_rpc_client_config primaryUrl fallbackUrl failureThreshold resetTimeoutMs callTimeoutMs =
     \<lparr>rg_primaryUrl = primaryUrl, rg_fallbackUrl = fallbackUrl,
      rg_primary = breaker_defaults ''rpc-primary'' (Some failureThreshold) None (Some resetTimeoutMs) (Some callTimeoutMs),
      rg_fallback = breaker_defaults ''rpc-fallback'' (Some failureThreshold) None (Some resetTimeoutMs) (Some callTimeoutMs)\<rparr>"

text \<open>
  The endpoints called, in order, are part of the result. \<open>call url\<close> is the outcome of the
  guarded function on an endpoint; \<open>later\<close> is the clock when the fallback is tried.
\<close>

definition withFallback ::
  "rpc_client_config \<Rightarrow> int \<Rightarrow> (string \<Rightarrow> 'a timed_call) \<Rightarrow> rpc_client \<Rightarrow>
   (exn + 'a) \<times> string list \<times> rpc_client" where
  "withFallback cfg later call s =
     (if rg_fallbackUrl cfg = '''' then
        (Inl (RpcUnavailableError ''No fallback RPC configured and primary is unavailable''), [], s)
      else
        (case breaker_execute (rg_fallback cfg) later (call (rg_fallbackUrl cfg)) (rl_fallback s) of
           (Inr x, called, b) \<Rightarrow> (Inr x, if called then [rg_fallbackUrl cfg] else [], s\<lparr>rl_fallback := b\<rparr>)
         | (Inl e, called, b) \<Rightarrow>
             (Inl (RpcUnavailableError ''Both primary and fallback RPC are unavailable''),
              if called then [rg_fallbackUrl cfg] else [], s\<lparr>rl_fallback := b\<rparr>)))"

definition withPrimary ::
  "rpc_client_config \<Rightarrow> int \<Rightarrow> int \<Rightarrow> (string \<Rightarrow> 'a timed_call) \<Rightarrow> rpc_client \<Rightarrow>
   (exn + 'a) \<times> string list \<times> rpc_client" where
  "withPrimary cfg now later call s =
     (case breaker_execute (rg_primary cfg) now (call (rg_primaryUrl cfg)) (rl_primary s) of
        (Inr x, called, b) \<Rightarrow> (Inr x, [rg_primaryUrl cfg], s\<lparr>rl_primary := b\<rparr>)
      | (Inl e, called, b) \<Rightarrow>
          (case withFallback cfg later call (s\<lparr>rl_primary := b\<rparr>) of
             (r, urls, s2) \<Rightarrow> (r, (if called then [rg_primaryUrl cfg] else []) @ urls, s2)))"

definition getCircuitStates :: "rpc_client \<Rightarrow> circuit_state \<times> circuit_state" where
  "getCircuitStates s = (br_state (rl_primary s), br_state (rl_fallback s))"

definition resetCircuits :: "rpc_client \<Rightarrow> rpc_client" where
  "resetCircuits s = \<lparr>rl_primary = breaker_reset (rl_primary s), rl_fallback = breaker_reset (rl_fallback s)\<rparr>"

lemma execute_result:
  assumes "breaker_execute opts now call b = (r, called, b')"
  shows "(\<forall>x. r = Inr x \<longrightarrow> called \<and> fst call = Inr x \<and> snd call < bo_callTimeoutMs opts) \<and>
    (called \<longrightarrow> r = withTimeout opts call) \<and>
    (\<not> called \<longrightarrow> br_state b = OPEN)"
  using assms unfolding breaker_execute_def isOpen_def withTimeout_def
  by (auto simp: Let_def split: if_splits prod.splits sum.splits)

lemma fallback_result:
  assumes "withFallback cfg later call s = (r, urls, s')"
  shows "(\<forall>x. r = Inr x \<longrightarrow> urls = [rg_fallbackUrl cfg] \<and> fst (call (rg_fallbackUrl cfg)) = Inr x) \<and>
    (\<forall>e. r = Inl e \<longrightarrow> exn_name e = ''RpcUnavailableError'') \<and> urls \<in> {[], [rg_fallbackUrl cfg]}"
proof -
  obtain r2 c2 b2 where 2: "breaker_execute (rg_fallback cfg) later (call (rg_fallbackUrl cfg)) (rl_fallback s) = (r2, c2, b2)"
    by (rule prod_cases3)
  show ?thesis
    using assms conjunct1 [OF execute_result [OF 2]] unfolding withFallback_def 2
    by (cases r2) (auto simp: RpcUnavailableError_def split: if_splits)
qed

text \<open>C33. Failover: a call returns only what an endpoint returned in time; each endpoint is called
  at most once, the primary first; the fallback is called only when the primary failed or its
  circuit is open; and the only error a caller sees is \<open>RpcUnavailableError\<close>.\<close>

theorem rpc_failover:
  assumes "withPrimary cfg now later call s = (r, urls, s')"
  shows "(\<forall>x. r = Inr x \<longrightarrow> urls \<noteq> [] \<and> fst (call (last urls)) = Inr x) \<and>
    (\<forall>e. r = Inl e \<longrightarrow> exn_name e = ''RpcUnavailableError'') \<and>
    (\<exists>us vs. urls = us @ vs \<and> us \<in> {[], [rg_primaryUrl cfg]} \<and> vs \<in> {[], [rg_fallbackUrl cfg]}) \<and>
    (length urls = 2 \<longrightarrow> (\<exists>e. withTimeout (rg_primary cfg) (call (rg_primaryUrl cfg)) = Inl e))"
proof -
  obtain r1 c1 b1 where 1: "breaker_execute (rg_primary cfg) now (call (rg_primaryUrl cfg)) (rl_primary s) = (r1, c1, b1)"
    by (rule prod_cases3)
  show ?thesis
  proof (cases r1)
    case (Inr x)
    then have "r = Inr x" "urls = [rg_primaryUrl cfg]" using assms unfolding withPrimary_def 1 by auto
    then show ?thesis using execute_result [OF 1] Inr by (auto intro: exI [of _ "[]"])
  next
    case (Inl e)
    obtain r2 vs s2 where 2: "withFallback cfg later call (s\<lparr>rl_primary := b1\<rparr>) = (r2, vs, s2)"
      by (rule prod_cases3)
    have out: "r = r2" "urls = (if c1 then [rg_primaryUrl cfg] else []) @ vs"
      using assms Inl 2 unfolding withPrimary_def 1 by auto
    have "length urls = 2 \<longrightarrow> c1" using fallback_result [OF 2] out by (auto split: if_splits)
    moreover have "\<exists>us vs. urls = us @ vs \<and> us \<in> {[], [rg_primaryUrl cfg]} \<and> vs \<in> {[], [rg_fallbackUrl cfg]}"
      using fallback_result [OF 2] out by (intro exI [of _ "if c1 then [rg_primaryUrl cfg] else []"] exI [of _ vs]) auto
    moreover have "\<forall>x. r = Inr x \<longrightarrow> urls \<noteq> [] \<and> fst (call (last urls)) = Inr x"
      using fallback_result [OF 2] out by auto
    ultimately show ?thesis using fallback_result [OF 2] out execute_result [OF 1] Inl by blast
  qed
qed

theorem rpc_failover_witness:
  "\<exists>s'. withPrimary (mk_rpc_client_config ''p'' ''f'' 5 30000 10000) 0 0
     (\<lambda>url. (if url = ''f'' then Inr (7::int) else Inl (plainError ''down''), 1))
     \<lparr>rl_primary = breaker_init, rl_fallback = breaker_init\<rparr> = (Inr 7, [''p'', ''f''], s') \<and>
     fst (if ''f'' = ''f'' then Inr (7::int) else Inl (plainError ''down''), 1::int) = Inr 7"
proof -
  let ?call = "\<lambda>url. (if url = ''f'' then Inr (7::int) else Inl (plainError ''down''), 1::int)"
  obtain s' where run: "withPrimary (mk_rpc_client_config ''p'' ''f'' 5 30000 10000) 0 0 ?call
     \<lparr>rl_primary = breaker_init, rl_fallback = breaker_init\<rparr> = (Inr 7, [''p'', ''f''], s')"
    by (simp add: withPrimary_def withFallback_def mk_rpc_client_config_def breaker_execute_def isOpen_def breaker_init_def
        breaker_defaults_def withTimeout_def is_CircuitOpenError_def plainError_def)
  from rpc_failover [OF run] have "fst (?call (last [''p'', ''f''])) = Inr 7" by blast
  with run show ?thesis by auto
qed

end
