(* ===== verification/RpcBreaker.thy ===== *)
theory RpcBreaker
  imports CircuitBreaker
begin

text \<open>
  \<open>src/infrastructure/rpc-circuit-breaker.ts\<close> (a breaker with retries and exponential
  backoff) and \<open>src/infrastructure/rpc-failover.ts\<close> (two of them). The guarded function is
  the outcome of its n-th invocation, \<open>clock n\<close> the time when that invocation ended, and
  \<open>jitter n\<close> the random part of the wait after it.
\<close>

section \<open>The retrying breaker\<close>

record rpc_breaker_config =
  rb_failureThreshold :: nat
  rb_successThreshold :: nat
  rb_openDurationMs :: int
  rb_maxRetries :: nat
  rb_baseDelayMs :: int

definition rpc_breaker_defaults ::
  "nat option \<Rightarrow> nat option \<Rightarrow> int option \<Rightarrow> nat option \<Rightarrow> int option \<Rightarrow> rpc_breaker_config" where
  "rpc_breaker_defaults ft st od mr bd =
     \<lparr>rb_failureThreshold = (case ft of Some x \<Rightarrow> x | None \<Rightarrow> 5),
      rb_successThreshold = (case st of Some x \<Rightarrow> x | None \<Rightarrow> 2),
      rb_openDurationMs = (case od of Some x \<Rightarrow> x | None \<Rightarrow> 30000),
      rb_maxRetries = (case mr of Some x \<Rightarrow> x | None \<Rightarrow> 3),
      rb_baseDelayMs = (case bd of Some x \<Rightarrow> x | None \<Rightarrow> 200)\<rparr>"

record rpc_breaker =
  rb_state :: circuit_state
  rb_failureCount :: nat
  rb_successCount :: nat
  rb_lastOpenedAt :: int

definition rpc_breaker_init :: rpc_breaker where
  "rpc_breaker_init = \<lparr>rb_state = CLOSED, rb_failureCount = 0, rb_successCount = 0, rb_lastOpenedAt = 0\<rparr>"

definition NON_RETRYABLE_PATTERNS :: "string list" where
  "NON_RETRYABLE_PATTERNS =
     [''insufficient funds'', ''nonce too low'', ''execution reverted'', ''gas required exceeds'',
      ''already known'']"

definition isRetryable :: "exn \<Rightarrow> bool" where
  "isRetryable err =
     (\<not> list_ex (\<lambda>p. str_includes (toLowerCase (exn_message err)) p) NON_RETRYABLE_PATTERNS)"

definition trip :: "int \<Rightarrow> rpc_breaker \<Rightarrow> rpc_breaker" where
  "trip now b = b\<lparr>rb_state := OPEN, rb_lastOpenedAt := now, rb_failureCount := 0\<rparr>"

definition rpc_breaker_reset :: "rpc_breaker \<Rightarrow> rpc_breaker" where
  "rpc_breaker_reset b = b\<lparr>rb_state := CLOSED, rb_failureCount := 0, rb_successCount := 0\<rparr>"

definition maybeTransitionFromOpen :: "rpc_breaker_config \<Rightarrow> int \<Rightarrow> rpc_breaker \<Rightarrow> rpc_breaker" where
  "maybeTransitionFromOpen cfg now b =
     (if rb_state b \<noteq> OPEN then b
      else if now - rb_lastOpenedAt b \<ge> rb_openDurationMs cfg
      then b\<lparr>rb_state := HALF_OPEN, rb_successCount := 0\<rparr> else b)"

definition rpc_onSuccess :: "rpc_breaker_config \<Rightarrow> rpc_breaker \<Rightarrow> rpc_breaker" where
  "rpc_onSuccess cfg b =
     (if rb_state b = HALF_OPEN then
        let b1 = b\<lparr>rb_successCount := rb_successCount b + 1\<rparr> in
        if rb_successCount b1 \<ge> rb_successThreshold cfg then rpc_breaker_reset b1 else b1
      else b\<lparr>rb_failureCount := rb_failureCount b - 1\<rparr>)"

definition rpc_onFailure :: "rpc_breaker_config \<Rightarrow> int \<Rightarrow> rpc_breaker \<Rightarrow> rpc_breaker" where
  "rpc_onFailure cfg now b =
     (if rb_state b = HALF_OPEN then trip now b
      else
        let b1 = b\<lparr>rb_failureCount := rb_failureCount b + 1\<rparr> in
        if rb_failureCount b1 \<ge> rb_failureThreshold cfg then trip now b1 else b1)"

definition circuit_open_error :: exn where
  "circuit_open_error = CodedError ''circuit_open''
     (''RPC circuit breaker is OPEN '' @ [CHR 0xE2, CHR 0x80, CHR 0x94] @ '' fast-fail'')"

record 'a rpc_outcome =
  rp_result :: "exn option + 'a"
  rp_calls :: nat
  rp_waits :: "int list"
  rp_breaker :: rpc_breaker

text \<open>
  The \<open>for\<close> loop from invocation \<open>attempt\<close> on, with \<open>left\<close> attempts left; \<open>lastErr\<close> is
  \<open>undefined\<close> before the first failure.
\<close>

fun rpc_attempts ::
  "rpc_breaker_config \<Rightarrow> (nat \<Rightarrow> exn + 'a) \<Rightarrow> (nat \<Rightarrow> int) \<Rightarrow> (nat \<Rightarrow> int) \<Rightarrow> nat \<Rightarrow> nat \<Rightarrow> exn option \<Rightarrow>
   rpc_breaker \<Rightarrow> 'a rpc_outcome" where
  "rpc_attempts cfg fn clock jitter attempt 0 lastErr b =
     \<lparr>rp_result = Inl lastErr, rp_calls = 0, rp_waits = [], rp_breaker = b\<rparr>"
| "rpc_attempts cfg fn clock jitter attempt (Suc left) lastErr b =
     (case fn attempt of
        Inr x \<Rightarrow> \<lparr>rp_result = Inr x, rp_calls = 1, rp_waits = [], rp_breaker = rpc_onSuccess cfg b\<rparr>
      | Inl err \<Rightarrow>
          if \<not> isRetryable err
          then \<lparr>rp_result = Inl (Some err), rp_calls = 1, rp_waits = [], rp_breaker = b\<rparr>
          else
            let b1 = rpc_onFailure cfg (clock attempt) b;
                rest = rpc_attempts cfg fn clock jitter (Suc attempt) left (Some err) b1
            in rest\<lparr>rp_calls := Suc (rp_calls rest),
                    rp_waits := (if 0 < left then [rb_baseDelayMs cfg * 2 ^ attempt + jitter attempt] else []) @
                                rp_waits rest\<rparr>)"

definition rpc_call ::
  "rpc_breaker_config \<Rightarrow> (nat \<Rightarrow> exn + 'a) \<Rightarrow> int \<Rightarrow> (nat \<Rightarrow> int) \<Rightarrow> (nat \<Rightarrow> int) \<Rightarrow> rpc_breaker \<Rightarrow> 'a rpc_outcome" where
  "rpc_call cfg fn now clock jitter b0 =
     (let b = maybeTransitionFromOpen cfg now b0 in
      if rb_state b = OPEN
      then \<lparr>rp_result = Inl (Some circuit_open_error), rp_calls = 0, rp_waits = [], rp_breaker = b\<rparr>
      else rpc_attempts cfg fn clock jitter 0
             (if rb_state b = HALF_OPEN then 1 else rb_maxRetries cfg) None b)"

section \<open>\<open>src/infrastructure/rpc-failover.ts\<close>\<close>

record failover_client =
  fo_primary :: rpc_breaker
  fo_fallback :: "rpc_breaker option"

definition failover_init :: "string option \<Rightarrow> failover_client" where
  "failover_init fallbackUrl =
     \<lparr>fo_primary = rpc_breaker_init,
      fo_fallback = (case fallbackUrl of Some (c # cs) \<Rightarrow> Some rpc_breaker_init | _ \<Rightarrow> None)\<rparr>"

text \<open>
  \<open>fn url n\<close> is the n-th invocation on \<open>url\<close>; \<open>None\<close> is \<open>undefined\<close>. The field
  \<open>_fallbackUrl\<close> that \<open>call\<close> reads is assigned nowhere.
\<close>

definition failover_call ::
  "rpc_breaker_config \<Rightarrow> string \<Rightarrow> (string option \<Rightarrow> nat \<Rightarrow> exn + 'a) \<Rightarrow> int \<Rightarrow> int \<Rightarrow> (nat \<Rightarrow> int) \<Rightarrow>
   (nat \<Rightarrow> int) \<Rightarrow> failover_client \<Rightarrow> (exn option + 'a) \<times> string option list \<times> failover_client" where
  "failover_call cfg primaryUrl fn now later clock jitter s =
     (let p = rpc_call cfg (fn (Some primaryUrl)) now clock jitter (fo_primary s);
          s1 = s\<lparr>fo_primary := rp_breaker p\<rparr>;
          urls1 = replicate (rp_calls p) (Some primaryUrl)
      in case rp_result p of
           Inr x \<Rightarrow> (Inr x, urls1, s1)
         | Inl primaryErr \<Rightarrow>
             (case fo_fallback s of
                None \<Rightarrow> (Inl primaryErr, urls1, s1)
              | Some fb \<Rightarrow>
                  let fallbackUrl = None;
                      q = rpc_call cfg (fn fallbackUrl) later clock jitter fb
                  in (rp_result q, urls1 @ replicate (rp_calls q) fallbackUrl,
                      s1\<lparr>fo_fallback := Some (rp_breaker q)\<rparr>)))"

definition failover_getStates :: "failover_client \<Rightarrow> circuit_state \<times> circuit_state option" where
  "failover_getStates s = (rb_state (fo_primary s), map_option rb_state (fo_fallback s))"

section \<open>Lemmas\<close>

lemma attempts_bound: "rp_calls (rpc_attempts cfg fn clock jitter a n le b) \<le> n"
  by (induction n arbitrary: a le b) (auto simp: Let_def split: sum.splits)

lemma attempts_ok:
  "rp_result (rpc_attempts cfg fn clock jitter a n le b) = Inr x \<Longrightarrow>
     \<exists>k. rp_calls (rpc_attempts cfg fn clock jitter a n le b) = Suc k \<and> fn (a + k) = Inr x \<and>
       (\<forall>i<k. \<exists>e. fn (a + i) = Inl e \<and> isRetryable e)"
proof (induction n arbitrary: a le b)
  case 0
  then show ?case by simp
next
  case (Suc n)
  show ?case
  proof (cases "fn a")
    case (Inr y)
    then show ?thesis using Suc.prems by (intro exI [of _ 0]) simp
  next
    case (Inl e)
    with Suc.prems have r: "isRetryable e"
      "rp_result (rpc_attempts cfg fn clock jitter (Suc a) n (Some e) (rpc_onFailure cfg (clock a) b)) = Inr x"
      by (auto simp: Let_def split: if_splits)
    from Suc.IH [OF r(2)] obtain k where k:
      "rp_calls (rpc_attempts cfg fn clock jitter (Suc a) n (Some e) (rpc_onFailure cfg (clock a) b)) = Suc k"
      "fn (Suc a + k) = Inr x" "\<forall>i<k. \<exists>e. fn (Suc a + i) = Inl e \<and> isRetryable e" by blast
    have "\<exists>e. fn (a + i) = Inl e \<and> isRetryable e" if "i < Suc k" for i
      using that k(3) Inl r(1) by (cases i) auto
    then show ?thesis using Inl r(1) k(1,2) by (intro exI [of _ "Suc k"]) (simp add: Let_def)
  qed
qed

text \<open>A call invokes the endpoint at most \<open>maxRetries\<close> times, once when half-open and not at
  all while the circuit is open; what it returns is what the last invocation returned, and
  all invocations before it failed with retryable errors.\<close>

theorem rpc_call_bounds:
  assumes "c = rpc_call cfg fn now clock jitter b"
  shows "rp_calls c \<le> max 1 (rb_maxRetries cfg) \<and>
    (rb_state b = OPEN \<and> now - rb_lastOpenedAt b < rb_openDurationMs cfg \<longrightarrow> rp_calls c = 0) \<and>
    (rb_state b \<noteq> CLOSED \<longrightarrow> rp_calls c \<le> 1) \<and>
    (\<forall>x. rp_result c = Inr x \<longrightarrow> (\<exists>k. rp_calls c = Suc k \<and> fn k = Inr x \<and>
       (\<forall>i<k. \<exists>e. fn i = Inl e \<and> isRetryable e)))"
proof -
  let ?b = "maybeTransitionFromOpen cfg now b"
  have st: "rb_state b = OPEN \<longrightarrow> rb_state ?b = OPEN \<or> rb_state ?b = HALF_OPEN"
    "rb_state b = HALF_OPEN \<longrightarrow> rb_state ?b = HALF_OPEN"
    "rb_state b = OPEN \<and> now - rb_lastOpenedAt b < rb_openDurationMs cfg \<longrightarrow> rb_state ?b = OPEN"
    by (auto simp: maybeTransitionFromOpen_def)
  show ?thesis
  proof (cases "rb_state ?b = OPEN")
    case True
    then show ?thesis using assms by (simp add: rpc_call_def Let_def)
  next
    case False
    let ?n = "if rb_state ?b = HALF_OPEN then 1 else rb_maxRetries cfg"
    have c: "c = rpc_attempts cfg fn clock jitter 0 ?n None ?b" using assms False by (simp add: rpc_call_def Let_def)
    have "rp_calls c \<le> ?n" unfolding c by (rule attempts_bound)
    moreover have "rb_state b \<noteq> CLOSED \<longrightarrow> rb_state ?b = HALF_OPEN" using st False by (cases "rb_state b") auto
    moreover have "\<forall>x. rp_result c = Inr x \<longrightarrow> (\<exists>k. rp_calls c = Suc k \<and> fn k = Inr x \<and>
       (\<forall>i<k. \<exists>e. fn i = Inl e \<and> isRetryable e))"
      using attempts_ok [of cfg fn clock jitter 0 ?n None ?b] c by auto
    ultimately show ?thesis using st False by (auto split: if_splits)
  qed
qed

theorem rpc_call_bounds_witness:
  "rp_calls (rpc_call (rpc_breaker_defaults None None None None None)
     (\<lambda>n. if n = 1 then Inr () else Inl (plainError ''timeout'')) 0 (\<lambda>_. 0) (\<lambda>_. 0) rpc_breaker_init) \<le> 3"
  by (rule order_trans [OF conjunct1 [OF rpc_call_bounds [OF refl]]]) (simp add: rpc_breaker_defaults_def)

text \<open>The circuit does not stop a call that is under way: when a failure opens the circuit,
  the loop goes on to the next attempt, against the comment that an open circuit makes no
  call, and a success of that attempt leaves the circuit open.\<close>

theorem open_circuit_keeps_calling:
  assumes "rb_state b = CLOSED" and "rb_failureCount b + 1 = rb_failureThreshold cfg"
    and "2 \<le> rb_maxRetries cfg" and "fn 0 = Inl e" and "isRetryable e" and "fn 1 = Inr x"
  shows "rp_result (rpc_call cfg fn now clock jitter b) = Inr x \<and>
    rp_calls (rpc_call cfg fn now clock jitter b) = 2 \<and>
    rb_state (rp_breaker (rpc_call cfg fn now clock jitter b)) = OPEN"
proof -
  obtain n where n: "rb_maxRetries cfg = Suc (Suc n)"
    using assms(3) by (metis add_2_eq_Suc le_Suc_ex)
  have "rpc_onFailure cfg (clock 0) b = trip (clock 0) (b\<lparr>rb_failureCount := rb_failureThreshold cfg\<rparr>)"
    using assms(1,2) by (simp add: rpc_onFailure_def Let_def)
  then show ?thesis
    using assms n by (simp add: rpc_call_def maybeTransitionFromOpen_def Let_def rpc_onSuccess_def trip_def)
qed

theorem open_circuit_keeps_calling_witness:
  "rb_state (rp_breaker (rpc_call (rpc_breaker_defaults (Some 1) None None None None)
     (\<lambda>n. if n = 1 then Inr () else Inl (plainError ''timeout'')) 0 (\<lambda>_. 0) (\<lambda>_. 0) rpc_breaker_init)) = OPEN"
proof -
  have "isRetryable (plainError ''timeout'')" by code_simp
  from open_circuit_keeps_calling [OF _ _ _ _ this, of rpc_breaker_init
      "rpc_breaker_defaults (Some 1) None None None None"
      "\<lambda>n. if n = 1 then Inr () else Inl (plainError ''timeout'')" "()"]
  show ?thesis by (simp add: rpc_breaker_init_def rpc_breaker_defaults_def)
qed

text \<open>The configured fallback endpoint is never called: every invocation of a failover client
  is on the primary URL or on \<open>undefined\<close>.\<close>

theorem failover_never_calls_fallback:
  assumes "failover_call cfg primaryUrl fn now later clock jitter s = (r, urls, s')"
  shows "set urls \<subseteq> {Some primaryUrl, None}"
  using assms unfolding failover_call_def
  by (auto simp: Let_def split: sum.splits option.splits)

theorem failover_never_calls_fallback_witness:
  "\<exists>r urls s'. failover_call (rpc_breaker_defaults None None None (Some 1) None) ''p''
      (\<lambda>url n. if url = Some ''p'' then Inl (plainError ''down'') else Inr ()) 0 0 (\<lambda>_. 0) (\<lambda>_. 0)
      (failover_init (Some ''fallback'')) = (r, urls, s') \<and> Some ''fallback'' \<notin> set urls"
proof -
  obtain r urls s' where run: "failover_call (rpc_breaker_defaults None None None (Some 1) None) ''p''
      (\<lambda>url n. if url = Some ''p'' then Inl (plainError ''down'') else Inr ()) 0 0 (\<lambda>_. 0) (\<lambda>_. 0)
      (failover_init (Some ''fallback'')) = (r, urls, s')"
    by (rule prod_cases3)
  from failover_never_calls_fallback [OF run] have "Some ''fallback'' \<notin> set urls" by auto
  with run show ?thesis by blast
qed

end
