(* ===== verification/Http.thy ===== *)
theory Http
  imports Errors
begin

text \<open>
  What the HTTP handlers share: replies, the bearer token of an \<open>Authorization\<close> header and the
  comparison of secrets (\<open>src/infrastructure/safe-compare.ts\<close>).
\<close>

lemma mk_reply_simps [simp]: "reply_status (mk_reply s b) = Some s" "reply_body (mk_reply s b) = b"
  by (simp_all add: mk_reply_def)

text \<open>\<open>{code, reason, message}\<close>; an \<open>undefined\<close> message is not written.\<close>

definition error_body :: "string \<Rightarrow> string \<Rightarrow> string option \<Rightarrow> json" where
  "error_body code reason message = JObj ([(''code'', JStr code), (''reason'', JStr reason)] @
     (case message of Some m \<Rightarrow> [(''message'', JStr m)] | None \<Rightarrow> []))"

definition extractBearerToken :: "string option \<Rightarrow> string option" where
  "extractBearerToken authHeader = (case authHeader of
     None \<Rightarrow> None
   | Some h \<Rightarrow> if startsWith h ''Bearer '' then Some (drop 7 h) else None)"

lemma bearer_iff: "extractBearerToken h = Some t \<longleftrightarrow> h = Some (''Bearer '' @ t)"
proof
  assume "extractBearerToken h = Some t"
  then obtain s where s: "h = Some s" "startsWith s ''Bearer ''" "t = drop 7 s"
    by (auto simp: extractBearerToken_def split: option.splits if_splits)
  from s(2) obtain u where "s = ''Bearer '' @ u" unfolding startsWith_iff by blast
  with s show "h = Some (''Bearer '' @ t)" by simp
next
  assume "h = Some (''Bearer '' @ t)"
  then show "extractBearerToken h = Some t" by (simp add: extractBearerToken_def startsWith_def)
qed

text \<open>Both sides must be non-empty; buffers of different lengths are unequal.\<close>

definition safeEqual :: "string \<Rightarrow> string \<Rightarrow> bool" where
  "safeEqual a b = (a \<noteq> '''' \<and> b \<noteq> '''' \<and> length a = length b \<and> a = b)"

lemma safeEqual_iff: "safeEqual a b \<longleftrightarrow> a = b \<and> a \<noteq> ''''"
  by (auto simp: safeEqual_def)

text \<open>\<open>String.prototype.trim\<close> leaves nothing.\<close>

definition blank :: "string \<Rightarrow> bool" where
  "blank s = list_all is_space s"

end
