(* ===== verification/Webhooks.thy ===== *)
theory Webhooks
  imports Domain Json
begin

text \<open>
  Outbound webhooks: the SSRF guard and \<open>dispatchWebhook\<close> (\<open>webhook-dispatcher.ts\<close>), the
  verification of signatures (\<open>infrastructure/webhook-verify.ts\<close> and the SDK's copy),
  \<open>WebhookService.notify\<close>, the queue (\<open>webhook-queue.ts\<close>) and the two delivery workers
  (\<open>webhook-worker.ts\<close>, \<open>workers/webhook.worker.ts\<close>). The WHATWG URL parser, DNS, single HTTP exchanges,
  HMAC-SHA256 and the queue are parameters. A request that was sent is an entry of a history.
\<close>

section \<open>The network\<close>

record url_parts =
  up_protocol :: string
  up_hostname :: string
  up_port :: string

record fetch_request =
  hr_method :: string
  hr_url :: string
  hr_headers :: "(string \<times> string) list"
  hr_body :: string

record http_response =
  hp_status :: int
  hp_location :: "string option"
  hp_text :: "exn + string"

type_synonym http_log = "fetch_request list"

record net_api =
  na_parse_url :: "string \<Rightarrow> url_parts option"
  na_resolve4 :: "string \<Rightarrow> exn + string list"
  na_resolve6 :: "string \<Rightarrow> exn + string list"
  na_join_url :: "string \<Rightarrow> string \<Rightarrow> string option"
  na_exchange :: "http_log \<Rightarrow> fetch_request \<Rightarrow> exn + http_response"
  na_hmac :: "string \<Rightarrow> string \<Rightarrow> string"

definition http_exchange :: "net_api \<Rightarrow> fetch_request \<Rightarrow> (http_log, exn, http_response) prog" where
  "http_exchange N req = (\<lambda>log. (na_exchange N log req, log @ [req]))"

text \<open>
  \<open>fetch\<close> follows redirects, as its option \<open>redirect\<close> says by default: an answer with a redirect status
  and a \<open>Location\<close> is followed, up to twenty times. \<open>na_join_url\<close> is the URL a \<open>Location\<close> stands for,
  when it is one of HTTP or HTTPS. A \<open>POST\<close> becomes a \<open>GET\<close> without a body after 301, 302 and 303, and is
  repeated with its body after 307 and 308; all other headers are sent again.
\<close>

definition redirect_statuses :: "int list" where
  "redirect_statuses = [301, 302, 303, 307, 308]"

definition becomes_get :: "fetch_request \<Rightarrow> int \<Rightarrow> bool" where
  "becomes_get req status \<longleftrightarrow> (status = 301 \<or> status = 302) \<and> hr_method req = ''POST'' \<or>
     status = 303 \<and> hr_method req \<noteq> ''GET'' \<and> hr_method req \<noteq> ''HEAD''"

definition body_headers :: "string list" where
  "body_headers = [''Content-Encoding'', ''Content-Language'', ''Content-Location'', ''Content-Type'', ''Content-Length'']"

definition redirected :: "fetch_request \<Rightarrow> int \<Rightarrow> string \<Rightarrow> fetch_request" where
  "redirected req status url =
     (if becomes_get req status
      then \<lparr>hr_method = ''GET'', hr_url = url,
            hr_headers = filter (\<lambda>(k, v). k \<notin> set body_headers) (hr_headers req), hr_body = ''''\<rparr>
      else req\<lparr>hr_url := url\<rparr>)"

definition fetch_failed :: exn where
  "fetch_failed = JsError ''TypeError'' ''fetch failed''"

text \<open>What follows an answer: nothing, an error, or the next request.\<close>

definition next_hop :: "net_api \<Rightarrow> fetch_request \<Rightarrow> http_response \<Rightarrow> (exn + fetch_request) option" where
  "next_hop N req response =
     (case hp_location response of
        Some location \<Rightarrow>
          if hp_status response \<in> set redirect_statuses then
            Some (case na_join_url N (hr_url req) location of
                    None \<Rightarrow> Inl fetch_failed
                  | Some url \<Rightarrow> Inr (redirected req (hp_status response) url))
          else None
      | None \<Rightarrow> None)"

primrec fetch_following :: "net_api \<Rightarrow> nat \<Rightarrow> fetch_request \<Rightarrow> (http_log, exn, http_response) prog" where
  "fetch_following N 0 req =
     seq (http_exchange N req) (\<lambda>response. case next_hop N req response of
        None \<Rightarrow> ret response
      | Some _ \<Rightarrow> throw fetch_failed)"
| "fetch_following N (Suc n) req =
     seq (http_exchange N req) (\<lambda>response. case next_hop N req response of
        None \<Rightarrow> ret response
      | Some (Inl e) \<Rightarrow> throw e
      | Some (Inr req') \<Rightarrow> fetch_following N n req')"

definition max_redirects :: nat where
  "max_redirects = 20"

definition http_fetch :: "net_api \<Rightarrow> fetch_request \<Rightarrow> (http_log, exn, http_response) prog" where
  "http_fetch N req = fetch_following N max_redirects req"

text \<open>\<open>response.ok\<close>.\<close>

definition response_ok :: "http_response \<Rightarrow> bool" where
  "response_ok r = (200 \<le> hp_status r \<and> hp_status r \<le> 299)"

section \<open>The SSRF guard\<close>

definition blockedPorts :: "int list" where
  "blockedPorts = [5432, 5433, 6379, 6380, 3306, 27017, 9200, 9300, 2379, 2380]"

text \<open>\<open>/^172\.(1[6-9]|2\d|3[01])\./\<close>\<close>

definition class_b :: "string \<Rightarrow> bool" where
  "class_b host = (startsWith host ''172.'' \<and>
     (case drop 4 host of
        a # b # d # _ \<Rightarrow> d = CHR ''.'' \<and>
          (a = CHR ''1'' \<and> b \<in> set ''6789'' \<or> a = CHR ''2'' \<and> is_digit b \<or> a = CHR ''3'' \<and> b \<in> set ''01'')
      | _ \<Rightarrow> False))"

text \<open>\<open>/^fd[0-9a-f]{2}:/i\<close>\<close>

definition unique_local :: "string \<Rightarrow> bool" where
  "unique_local host = (case host of
     f # d # a # b # c # _ \<Rightarrow>
       toLowerCase [f, d] = ''fd'' \<and> is_hex a \<and> is_hex b \<and> c = CHR '':''
   | _ \<Rightarrow> False)"

definition isPrivateOrReservedIp :: "string \<Rightarrow> bool" where
  "isPrivateOrReservedIp host =
     (startsWith host ''127.'' \<or> startsWith host ''10.'' \<or> class_b host \<or>
      startsWith host ''192.168.'' \<or> startsWith host ''169.254.'' \<or> host = ''::1'' \<or>
      startsWith (toLowerCase host) ''fc00:'' \<or> unique_local host \<or> startsWith (toLowerCase host) ''fe80:'' \<or>
      host = ''0.0.0.0'' \<or> toLowerCase host = ''localhost'' \<or> endsWith (toLowerCase host) ''.local'' \<or>
      endsWith (toLowerCase host) ''.internal'' \<or> toLowerCase host = ''metadata.google.internal'' \<or>
      host = ''169.254.169.254'')"

text \<open>\<open>.catch(() => [])\<close>\<close>

definition or_none :: "exn + string list \<Rightarrow> string list" where
  "or_none r = (case r of Inl e \<Rightarrow> [] | Inr xs \<Rightarrow> xs)"

definition url_port :: "url_parts \<Rightarrow> int" where
  "url_port u = (if up_port u = '''' then 443 else bigint_of (up_port u))"

definition resolved :: "net_api \<Rightarrow> string \<Rightarrow> string list" where
  "resolved N host = or_none (na_resolve4 N host) @ or_none (na_resolve6 N host)"

definition assertSafeWebhookUrl :: "net_api \<Rightarrow> string \<Rightarrow> exn + unit" where
  "assertSafeWebhookUrl N rawUrl =
     (case na_parse_url N rawUrl of
        None \<Rightarrow> Inl (plainError ''SSRF: invalid URL'')
      | Some parsed \<Rightarrow>
          if up_protocol parsed \<noteq> ''https:'' then
            Inl (plainError ''SSRF: only HTTPS webhook URLs are allowed'')
          else if url_port parsed \<in> set blockedPorts then
            Inl (plainError (''SSRF: port '' @ int_str (url_port parsed) @ '' is not allowed''))
          else if isPrivateOrReservedIp (up_hostname parsed) then
            Inl (plainError ''SSRF: private or reserved IP address not allowed'')
          else
            (case List.find isPrivateOrReservedIp (resolved N (up_hostname parsed)) of
               Some addr \<Rightarrow> Inl (plainError (''SSRF: hostname resolves to private IP ('' @ addr @ '')''))
             | None \<Rightarrow> Inr ()))"

section \<open>Dispatch\<close>

record hook_subscription =
  hs_subscriptionId :: string
  hs_url :: string
  hs_secret :: string
  hs_events :: "string list"

record dispatch_result =
  dr_delivered :: bool
  dr_httpStatus :: "int option"
  dr_error :: "string option"

definition dispatch_request ::
  "net_api \<Rightarrow> hook_subscription \<Rightarrow> string \<Rightarrow> string \<Rightarrow> fetch_request" where
  "dispatch_request N subscription event body =
     \<lparr>hr_method = ''POST'', hr_url = hs_url subscription,
      hr_headers = [(''Content-Type'', ''application/json''), (''X-Facilitator-Event'', event),
        (''X-Facilitator-Signature'', ''sha256='' @ na_hmac N (hs_secret subscription) body),
        (''X-Facilitator-Subscription-Id'', hs_subscriptionId subscription),
        (''User-Agent'', ''facilitatorx402/1.0'')],
      hr_body = body\<rparr>"

definition dispatch_body :: "string \<Rightarrow> string \<Rightarrow> json \<Rightarrow> string" where
  "dispatch_body event timestamp payload =
     js_stringify (JObj [(''event'', JStr event), (''timestamp'', JStr timestamp), (''data'', payload)])"

definition dispatchWebhook ::
  "net_api \<Rightarrow> hook_subscription \<Rightarrow> string \<Rightarrow> json \<Rightarrow> int \<Rightarrow> (http_log, exn, dispatch_result) prog" where
  "dispatchWebhook N subscription event payload clock =
     (case assertSafeWebhookUrl N (hs_url subscription) of
        Inl err \<Rightarrow> ret \<lparr>dr_delivered = False, dr_httpStatus = None, dr_error = Some (exn_message err)\<rparr>
      | Inr _ \<Rightarrow>
          seq (iso clock) (\<lambda>timestamp.
          try_catch
            (seq (http_fetch N (dispatch_request N subscription event (dispatch_body event timestamp payload)))
              (\<lambda>response.
               if response_ok response then
                 ret \<lparr>dr_delivered = True, dr_httpStatus = Some (hp_status response), dr_error = None\<rparr>
               else
                 ret \<lparr>dr_delivered = False, dr_httpStatus = Some (hp_status response),
                      dr_error = Some (''HTTP '' @ int_str (hp_status response) @ '': '' @
                        take 200 (case hp_text response of Inr t \<Rightarrow> t | Inl _ \<Rightarrow> ''''))\<rparr>))
            (\<lambda>err. ret \<lparr>dr_delivered = False, dr_httpStatus = None,
               dr_error = Some (if exn_name err = ''AbortError'' then ''timeout after 10s'' else exn_message err)\<rparr>)))"

section \<open>Signatures\<close>

definition signPayload :: "net_api \<Rightarrow> string \<Rightarrow> string \<Rightarrow> string" where
  "signPayload N secret body = ''sha256='' @ na_hmac N secret body"

text \<open>\<open>crypto.timingSafeEqual\<close> throws when the lengths differ.\<close>

definition timingSafeEqual :: "string \<Rightarrow> string \<Rightarrow> exn + bool" where
  "timingSafeEqual a b = (if length a \<noteq> length b
     then Inl (CodedError ''ERR_CRYPTO_TIMING_SAFE_EQUAL_LENGTH'' ''Input buffers must have the same byte length'')
     else Inr (a = b))"

definition verifyWebhookSignature :: "net_api \<Rightarrow> string \<Rightarrow> string \<Rightarrow> string option \<Rightarrow> exn + bool" where
  "verifyWebhookSignature N rawBody secret header =
     (case header of
        Some (c # cs) \<Rightarrow> timingSafeEqual (''sha256='' @ na_hmac N secret rawBody) (c # cs)
      | _ \<Rightarrow> Inr False)"

text \<open>The copy in the SDK (\<open>sdk/src/webhook-verify.ts\<close>).\<close>

definition sdk_verifyWebhookSignature :: "net_api \<Rightarrow> string \<Rightarrow> string \<Rightarrow> string option \<Rightarrow> bool" where
  "sdk_verifyWebhookSignature N rawBody secret header =
     (case header of
        Some (c # cs) \<Rightarrow>
          if secret = '''' then False
          else (case timingSafeEqual (''sha256='' @ na_hmac N secret rawBody) (c # cs) of
                  Inr b \<Rightarrow> b
                | Inl _ \<Rightarrow> False)
      | _ \<Rightarrow> False)"

section \<open>The queue\<close>

datatype webhook_event = PaymentVerified | PaymentSettled | PaymentFailed

definition event_name :: "webhook_event \<Rightarrow> string" where
  "event_name e = (case e of PaymentVerified \<Rightarrow> ''payment.verified'' | PaymentSettled \<Rightarrow> ''payment.settled''
     | PaymentFailed \<Rightarrow> ''payment.failed'')"

record webhook_payload =
  wp_event :: webhook_event
  wp_requestId :: string
  wp_verificationId :: "string option"
  wp_settlementId :: "string option"
  wp_txHash :: "string option"
  wp_receiptId :: "string option"
  wp_network :: "string option"
  wp_asset :: "string option"
  wp_amount :: "string option"
  wp_feeAmount :: "string option"
  wp_sellerId :: "string option"
  wp_timestamp :: string

text \<open>A property that is \<open>undefined\<close> is not written.\<close>

definition opt_member :: "string \<Rightarrow> string option \<Rightarrow> (string \<times> json) list" where
  "opt_member k v = (case v of Some s \<Rightarrow> [(k, JStr s)] | None \<Rightarrow> [])"

definition payload_json :: "webhook_payload \<Rightarrow> json" where
  "payload_json p = JObj ([(''event'', JStr (event_name (wp_event p))), (''requestId'', JStr (wp_requestId p))] @
     opt_member ''verificationId'' (wp_verificationId p) @ opt_member ''settlementId'' (wp_settlementId p) @
     opt_member ''txHash'' (wp_txHash p) @ opt_member ''receiptId'' (wp_receiptId p) @
     opt_member ''network'' (wp_network p) @ opt_member ''asset'' (wp_asset p) @
     opt_member ''amount'' (wp_amount p) @ opt_member ''feeAmount'' (wp_feeAmount p) @
     opt_member ''sellerId'' (wp_sellerId p) @ [(''timestamp'', JStr (wp_timestamp p))])"

record webhook_job =
  wj_webhookUrl :: string
  wj_webhookSecret :: string
  wj_payload :: webhook_payload

record queue_options =
  qo_attempts :: nat
  qo_delay :: nat
  qo_removeOnComplete :: nat
  qo_removeOnFail :: nat

definition webhookQueue_options :: queue_options where
  "webhookQueue_options = \<lparr>qo_attempts = 5, qo_delay = 2000, qo_removeOnComplete = 500, qo_removeOnFail = 200\<rparr>"

text \<open>\<open>queue.add(name, data, {jobId})\<close> on the jobs of the queue, with their identifiers.\<close>

type_synonym job_list = "(string \<times> webhook_job) list"

type_synonym queue_add = "string \<Rightarrow> string \<Rightarrow> webhook_job \<Rightarrow> (job_list, exn, unit) prog"

text \<open>A job whose identifier is in the queue is not added again.\<close>

locale job_queue =
  fixes add :: queue_add
  assumes add_ok: "add name jid job q = (Inr u, q') \<Longrightarrow>
      q' = (if jid \<in> fst ` set q then q else q @ [(jid, job)])"
    and add_err: "add name jid job q = (Inl e, q') \<Longrightarrow> q' = q"

definition bull_add :: queue_add where
  "bull_add name jid job = (\<lambda>q. (Inr (), if jid \<in> fst ` set q then q else q @ [(jid, job)]))"

interpretation bull: job_queue bull_add
  by unfold_locales (auto simp: bull_add_def split: if_splits)

lemma bull_queue: "job_queue bull_add"
  by (rule bull.job_queue_axioms)

definition enqueueWebhook ::
  "queue_add \<Rightarrow> int \<Rightarrow> string \<Rightarrow> string \<Rightarrow> string \<Rightarrow> webhook_payload \<Rightarrow> (job_list, exn, unit) prog" where
  "enqueueWebhook add now sellerId webhookUrl webhookSecret payload =
     (if webhookUrl = '''' then ret ()
      else add (event_name (wp_event payload))
             (event_name (wp_event payload) @ '':'' @ wp_requestId payload @ '':'' @ int_str now)
             \<lparr>wj_webhookUrl = webhookUrl, wj_webhookSecret = webhookSecret, wj_payload = payload\<rparr>)"

section \<open>\<open>WebhookService.notify\<close>\<close>

record notify_options =
  no_sellerId :: string
  no_event :: webhook_event
  no_requestId :: string
  no_verificationId :: "string option"
  no_settlementId :: "string option"
  no_txHash :: "string option"
  no_receiptId :: "string option"
  no_network :: "string option"
  no_asset :: "string option"
  no_amount :: "string option"
  no_feeAmount :: "string option"

record hook_state =
  hk_subscriptions :: "webhook_subscription list"
  hk_deliveries :: "webhook_delivery list"
  hk_jobs :: job_list

definition on_subs :: "(webhook_subscription list, exn, 'a) prog \<Rightarrow> (hook_state, exn, 'a) prog" where
  "on_subs = zoom hk_subscriptions (\<lambda>x h. h\<lparr>hk_subscriptions := x\<rparr>)"

definition on_dels :: "(webhook_delivery list, exn, 'a) prog \<Rightarrow> (hook_state, exn, 'a) prog" where
  "on_dels = zoom hk_deliveries (\<lambda>x h. h\<lparr>hk_deliveries := x\<rparr>)"

definition on_jobs :: "(job_list, exn, 'a) prog \<Rightarrow> (hook_state, exn, 'a) prog" where
  "on_jobs = zoom hk_jobs (\<lambda>x h. h\<lparr>hk_jobs := x\<rparr>)"

lemmas hook_zoom_defs = on_subs_def on_dels_def on_jobs_def

declare on_subs_def [run_simps] on_dels_def [run_simps] on_jobs_def [run_simps]

record notify_env =
  nt_subscription :: "webhook_subscription delegate"
  nt_delivery :: "webhook_delivery delegate"
  nt_add :: queue_add

definition notify_payload :: "notify_options \<Rightarrow> string \<Rightarrow> webhook_payload" where
  "notify_payload opts timestamp =
     \<lparr>wp_event = no_event opts, wp_requestId = no_requestId opts, wp_verificationId = no_verificationId opts,
      wp_settlementId = no_settlementId opts, wp_txHash = no_txHash opts, wp_receiptId = no_receiptId opts,
      wp_network = no_network opts, wp_asset = no_asset opts, wp_amount = no_amount opts,
      wp_feeAmount = no_feeAmount opts, wp_sellerId = Some (no_sellerId opts), wp_timestamp = timestamp\<rparr>"

text \<open>\<open>deliveryId\<close> is the default identifier of the row; \<open>clock\<close> and \<open>later\<close> are the two readings.\<close>

definition notify ::
  "notify_env \<Rightarrow> notify_options \<Rightarrow> string \<Rightarrow> int \<Rightarrow> int \<Rightarrow> (hook_state, exn, unit) prog" where
  "notify E opts deliveryId clock later =
     seq (on_subs (db_find (nt_subscription E)
            (\<lambda>s. ws_sellerId s = no_sellerId opts \<and> ws_active s \<and> event_name (no_event opts) \<in> set (ws_events s))))
       (\<lambda>found. case found of
          None \<Rightarrow> ret ()
        | Some subscription \<Rightarrow>
            seq (iso clock) (\<lambda>timestamp.
            seq (on_dels (db_create (nt_delivery E)
                   \<lparr>wd_id = deliveryId, wd_subscriptionId = ws_id subscription,
                    wd_event = event_name (no_event opts), wd_payload = payload_json (notify_payload opts timestamp),
                    wd_attempt = 1, wd_status = ''pending'', wd_httpStatus = None, wd_responseBody = None,
                    wd_deliveredAt = None, wd_createdAt = clock\<rparr>)) (\<lambda>delivery.
            on_jobs (enqueueWebhook (nt_add E) later (no_sellerId opts) (ws_url subscription)
              (ws_secret subscription) (notify_payload opts timestamp)))))"

section \<open>The delivery workers\<close>

definition delivery_request :: "net_api \<Rightarrow> webhook_job \<Rightarrow> fetch_request" where
  "delivery_request N job = (let body = js_stringify (payload_json (wj_payload job)) in
     \<lparr>hr_method = ''POST'', hr_url = wj_webhookUrl job,
      hr_headers = [(''Content-Type'', ''application/json''),
        (''X-Webhook-Signature'', signPayload N (wj_webhookSecret job) body),
        (''X-Webhook-Event'', event_name (wp_event (wj_payload job))),
        (''X-Facilitator-Version'', ''x402-v2'')],
      hr_body = body\<rparr>)"

definition deliverWebhook :: "net_api \<Rightarrow> webhook_job \<Rightarrow> (http_log, exn, unit) prog" where
  "deliverWebhook N job =
     seq (http_fetch N (delivery_request N job)) (\<lambda>response.
     if response_ok response then ret ()
     else throw (plainError (''Webhook delivery failed: HTTP '' @ int_str (hp_status response) @ '' from '' @
            wj_webhookUrl job)))"

text \<open>The other worker: its jobs come from \<open>infrastructure/queue.ts\<close>.\<close>

record webhook_job_data =
  wi_deliveryId :: string
  wi_url :: string
  wi_secret :: string
  wi_event :: string
  wi_payload :: json
  wi_sellerId :: string
  wi_attempt :: nat

text \<open>Its queue: one job for a delivery.\<close>

definition webhookQueue_v2_options :: queue_options where
  "webhookQueue_v2_options = \<lparr>qo_attempts = 5, qo_delay = 1000, qo_removeOnComplete = 2000, qo_removeOnFail = 10000\<rparr>"

definition enqueueDelivery ::
  "(string \<Rightarrow> string \<Rightarrow> webhook_job_data \<Rightarrow> ('q, exn, unit) prog) \<Rightarrow> webhook_job_data \<Rightarrow> ('q, exn, unit) prog" where
  "enqueueDelivery add data = add (''webhook:'' @ wi_event data @ '':'' @ wi_deliveryId data) (wi_deliveryId data) data"

record delivery_update =
  du_status :: string
  du_httpStatus :: int
  du_responseBody :: string
  du_attempts :: nat
  du_deliveredAt :: "int option"

definition worker_body :: "webhook_job_data \<Rightarrow> int \<Rightarrow> string" where
  "worker_body job now = js_stringify (JObj [(''event'', JStr (wi_event job)), (''payload'', wi_payload job),
     (''timestamp'', JNum now)])"

definition worker_request :: "net_api \<Rightarrow> webhook_job_data \<Rightarrow> int \<Rightarrow> fetch_request" where
  "worker_request N job now = (let body = worker_body job now in
     \<lparr>hr_method = ''POST'', hr_url = wi_url job,
      hr_headers = [(''Content-Type'', ''application/json''),
        (''X-Facilitator-Signature'', ''sha256='' @ na_hmac N (wi_secret job) (int_str now @ ''.'' @ body)),
        (''X-Facilitator-Timestamp'', int_str now), (''X-Facilitator-Event'', wi_event job),
        (''User-Agent'', ''facilitatorx402/1.0'')],
      hr_body = body\<rparr>)"

text \<open>The state is the history of requests and the updates of delivery rows that succeeded; an update
  that fails (the parameter \<open>save\<close>) is logged and ignored.\<close>

definition webhookWorker_process ::
  "net_api \<Rightarrow> (string \<Rightarrow> delivery_update \<Rightarrow> exn + unit) \<Rightarrow> webhook_job_data \<Rightarrow> nat \<Rightarrow> int \<Rightarrow> int \<Rightarrow>
   (http_log \<times> (string \<times> delivery_update) list, exn, unit) prog" where
  "webhookWorker_process N save job attemptsMade now later =
     seq (try_catch
            (seq (zoom fst (\<lambda>x (_, y). (x, y)) (http_fetch N (worker_request N job now))) (\<lambda>response.
             ret (hp_status response, (case hp_text response of Inr t \<Rightarrow> t | Inl _ \<Rightarrow> ''''), response_ok response)))
            (\<lambda>err. ret (0, exn_message err, False)))
       (\<lambda>(httpStatus, responseBody, delivered).
     let update = \<lparr>du_status = (if delivered then ''delivered'' else ''failed''), du_httpStatus = httpStatus,
                   du_responseBody = take 2000 responseBody, du_attempts = attemptsMade + 1,
                   du_deliveredAt = (if delivered then Some later else None)\<rparr> in
     seq (ignore_errors (case save (wi_deliveryId job) update of
            Inl e \<Rightarrow> throw e
          | Inr _ \<Rightarrow> (\<lambda>(log, rows). (Inr (), (log, rows @ [(wi_deliveryId job, update)]))))) (\<lambda>_.
     if delivered then ret ()
     else throw (plainError (''Webhook delivery failed: HTTP '' @ int_str httpStatus @
            '' '' @ [CHR 0xE2, CHR 0x80, CHR 0x94] @ '' '' @ take 200 responseBody))))"

section \<open>Lemmas\<close>

lemma assertSafe_Inr:
  "assertSafeWebhookUrl N url = Inr u \<longleftrightarrow>
     (\<exists>p. na_parse_url N url = Some p \<and> up_protocol p = ''https:'' \<and> url_port p \<notin> set blockedPorts \<and>
        \<not> isPrivateOrReservedIp (up_hostname p) \<and>
        (\<forall>a\<in>set (resolved N (up_hostname p)). \<not> isPrivateOrReservedIp a))"
  by (auto simp: assertSafeWebhookUrl_def find_None_iff split: option.splits dest: find_first_Some)

lemma startsWith_field:
  assumes "c \<notin> set s" and "c \<notin> set p"
  shows "startsWith (s @ c # r) (p @ [c]) \<longleftrightarrow> s = p"
proof
  assume "startsWith (s @ c # r) (p @ [c])"
  then obtain t where "s @ c # r = p @ c # t" by (auto simp: startsWith_iff)
  with assms show "s = p"
  proof (induction s arbitrary: p)
    case Nil
    then show ?case by (cases p) auto
  next
    case (Cons a s)
    then show ?case by (cases p) auto
  qed
qed (auto simp: startsWith_iff)

lemma nat_digits_inj: "nat_digits m = nat_digits n \<longleftrightarrow> m = n"
  by (metis bigint_of_nat_digits of_nat_eq_iff)

lemma dot_no_digit: "\<not> is_digit (CHR ''.'')"
  by (simp add: is_digit_def)

lemma digits_no_dot: "CHR ''.'' \<notin> set (nat_digits n)"
  using nat_digits_decimal [of n] dot_no_digit by (auto simp: decimal_def list_all_iff)

text \<open>The text of an IPv4 address.\<close>

definition dotted :: "nat \<Rightarrow> nat \<Rightarrow> nat \<Rightarrow> nat \<Rightarrow> string" where
  "dotted a b c d = nat_digits a @ CHR ''.'' # nat_digits b @ CHR ''.'' # nat_digits c @ CHR ''.'' # nat_digits d"

lemma dotted_prefix:
  assumes "p = nat_digits k"
  shows "startsWith (dotted a b c d) (p @ ''.'') \<longleftrightarrow> a = k"
  using startsWith_field [OF digits_no_dot digits_no_dot] by (simp add: dotted_def assms nat_digits_inj)

lemma startsWith_append_both: "startsWith (p @ s) (p @ q) \<longleftrightarrow> startsWith s q"
  by (auto simp: startsWith_iff)

lemma dotted_prefix2:
  assumes "p = nat_digits k" and "q = nat_digits l"
  shows "startsWith (dotted a b c d) (p @ ''.'' @ q @ ''.'') \<longleftrightarrow> a = k \<and> b = l"
proof (cases "a = k")
  case True
  have "startsWith (dotted a b c d) (p @ ''.'' @ q @ ''.'') \<longleftrightarrow>
      startsWith (nat_digits b @ CHR ''.'' # nat_digits c @ CHR ''.'' # nat_digits d) (q @ ''.'')"
    using startsWith_append_both [of "nat_digits a @ ''.''"] by (simp add: dotted_def True assms(1))
  then show ?thesis using True startsWith_field [OF digits_no_dot digits_no_dot] by (simp add: assms(2) nat_digits_inj)
next
  case False
  have "startsWith (dotted a b c d) (p @ ''.'' @ q @ ''.'') \<Longrightarrow> startsWith (dotted a b c d) (p @ ''.'')"
    by (auto simp: startsWith_iff)
  then show ?thesis using False dotted_prefix [OF assms(1)] by blast
qed

lemma digits_1: "n < 10 \<Longrightarrow> nat_digits n = [char_of (48 + n)]"
  by (simp add: nat_digits.simps)

lemma digits_2: "10 \<le> n \<Longrightarrow> n < 100 \<Longrightarrow> nat_digits n = [char_of (48 + n div 10), char_of (48 + n mod 10)]"
  by (simp add: nat_digits.simps [of n] digits_1)

lemma digits_3: "100 \<le> n \<Longrightarrow> n < 1000 \<Longrightarrow>
    nat_digits n = [char_of (48 + n div 100), char_of (48 + n div 10 mod 10), char_of (48 + n mod 10)]"
  by (simp add: nat_digits.simps [of n] digits_2 div_mult2_eq [symmetric])

lemma digit_code: "(n::nat) < 10 \<Longrightarrow> of_char (char_of (48 + n) :: char) = 48 + n"
  by (simp add: of_char_of)

lemma digit_char_eq: "(n::nat) < 10 \<Longrightarrow> char_of (48 + n) = c \<longleftrightarrow> 48 + n = (of_char c :: nat)"
  by (metis char_of_char digit_code)

lemma digit_chars:
  "char_of (48::nat) = CHR ''0''" "char_of (49::nat) = CHR ''1''" "char_of (50::nat) = CHR ''2''"
  "char_of (52::nat) = CHR ''4''" "char_of (53::nat) = CHR ''5''" "char_of (54::nat) = CHR ''6''"
  "char_of (55::nat) = CHR ''7''" "char_of (56::nat) = CHR ''8''" "char_of (57::nat) = CHR ''9''"
  using digit_char_eq [of 0 "CHR ''0''"] digit_char_eq [of 1 "CHR ''1''"] digit_char_eq [of 2 "CHR ''2''"]
    digit_char_eq [of 4 "CHR ''4''"] digit_char_eq [of 5 "CHR ''5''"] digit_char_eq [of 6 "CHR ''6''"]
    digit_char_eq [of 7 "CHR ''7''"] digit_char_eq [of 8 "CHR ''8''"] digit_char_eq [of 9 "CHR ''9''"] by simp_all

lemma digit_is: "(n::nat) < 10 \<Longrightarrow> is_digit (char_of (48 + n))"
  by (simp add: digit_char)

text \<open>What \<open>class_b\<close> asks of the second field.\<close>

definition second_field :: "string \<Rightarrow> bool" where
  "second_field s = (case s of
     a # b # d # _ \<Rightarrow> d = CHR ''.'' \<and>
       (a = CHR ''1'' \<and> b \<in> set ''6789'' \<or> a = CHR ''2'' \<and> is_digit b \<or> a = CHR ''3'' \<and> b \<in> set ''01'')
   | _ \<Rightarrow> False)"

lemma field_range:
  "(y::nat) < 10 \<Longrightarrow> (x = 1 \<and> (y = 6 \<or> y = 7 \<or> y = 8 \<or> y = 9) \<or> x = 2 \<or> x = 3 \<and> (y = 0 \<or> y = 1)) \<longleftrightarrow>
     16 \<le> 10 * x + y \<and> 10 * x + y \<le> 31"
  by presburger

lemma second_field_digits:
  assumes "b < 256"
  shows "second_field (nat_digits b @ CHR ''.'' # r) \<longleftrightarrow> 16 \<le> b \<and> b \<le> 31"
proof -
  have dot: "CHR ''.'' \<noteq> char_of (48 + n)" if "n < 10" for n :: nat
    using digit_is [OF that] dot_no_digit by metis
  consider "b < 10" | "10 \<le> b" "b < 100" | "100 \<le> b" "b < 256" using assms by linarith
  then show ?thesis
  proof cases
    case 1
    have "\<not> is_digit (CHR ''.'')" "CHR ''.'' \<notin> set ''6789''" "CHR ''.'' \<notin> set ''01''" using dot_no_digit by auto
    then show ?thesis using 1 by (cases r) (auto simp: second_field_def digits_1)
  next
    case 2
    let ?x = "b div 10" and ?y = "b mod 10"
    have d: "?x < 10" "?y < 10" using 2 by auto
    have "second_field (nat_digits b @ CHR ''.'' # r) \<longleftrightarrow>
        (?x = 1 \<and> (?y = 6 \<or> ?y = 7 \<or> ?y = 8 \<or> ?y = 9) \<or> ?x = 2 \<or> ?x = 3 \<and> (?y = 0 \<or> ?y = 1))"
      unfolding second_field_def digits_2 [OF 2] using digit_is [OF d(2)] d
      by (simp add: digit_char_eq)
    also have "\<dots> \<longleftrightarrow> 16 \<le> 10 * ?x + ?y \<and> 10 * ?x + ?y \<le> 31" by (rule field_range [OF d(2)])
    also have "10 * ?x + ?y = b" by simp
    finally show ?thesis .
  next
    case 3
    then have "b mod 10 < 10" "b < 1000" by auto
    then show ?thesis using 3 dot [of "b mod 10"] by (auto simp: second_field_def digits_3)
  qed
qed

lemma class_b_dotted:
  assumes "b < 256"
  shows "class_b (dotted a b c d) \<longleftrightarrow> a = 172 \<and> 16 \<le> b \<and> b \<le> 31"
proof -
  have n: "''172'' = nat_digits 172" by (simp add: nat_digits.simps digit_chars)
  have "class_b (dotted a b c d) \<longleftrightarrow> startsWith (dotted a b c d) ''172.'' \<and> second_field (drop 4 (dotted a b c d))"
    by (simp only: class_b_def second_field_def)
  also have "startsWith (dotted a b c d) ''172.'' \<longleftrightarrow> a = 172"
    using dotted_prefix [OF n, of a b c d] by simp
  also have "a = 172 \<and> second_field (drop 4 (dotted a b c d)) \<longleftrightarrow> a = 172 \<and> 16 \<le> b \<and> b \<le> 31"
    using second_field_digits [OF assms] by (auto simp: dotted_def n [symmetric])
  finally show ?thesis .
qed

lemma dotted_head: "\<exists>x xs. dotted a b c d = x # xs \<and> is_digit x"
  using nat_digits_decimal [of a] by (cases "nat_digits a") (auto simp: dotted_def decimal_def)

lemma dotted_last: "is_digit (last (dotted a b c d))"
  using nat_digits_decimal [of d] by (auto simp: dotted_def decimal_def list_all_iff)

lemma lower_digit: "is_digit c \<or> c = CHR ''.'' \<Longrightarrow> char_lower c = c"
  by (auto simp: char_lower_def is_digit_def Let_def)

lemma dotted_lower: "toLowerCase (dotted a b c d) = dotted a b c d"
proof -
  have "\<forall>x\<in>set (dotted a b c d). is_digit x \<or> x = CHR ''.''"
    using nat_digits_decimal by (auto simp: dotted_def decimal_def list_all_iff)
  then show ?thesis unfolding toLowerCase_def by (intro map_idI) (blast intro: lower_digit)
qed

lemma endsWith_last: "endsWith s p \<Longrightarrow> p \<noteq> [] \<Longrightarrow> last s = last p"
  by (metis endsWith_def append_take_drop_id last_appendR)

lemma field_split: "c \<notin> set s \<Longrightarrow> c \<notin> set t \<Longrightarrow> s @ c # r = t @ c # q \<longleftrightarrow> s = t \<and> r = q"
proof (induction s arbitrary: t)
  case Nil
  then show ?case by (cases t) auto
next
  case (Cons a s)
  then show ?case by (cases t) auto
qed

lemma dotted_zero: "dotted a b c d = ''0.0.0.0'' \<longleftrightarrow> a = 0 \<and> b = 0 \<and> c = 0 \<and> d = 0"
proof
  have z: "nat_digits 0 = ''0''" by (simp add: nat_digits.simps digit_chars)
  note split = field_split [THEN iffD1, rotated 2]
  assume "dotted a b c d = ''0.0.0.0''"
  then have e: "nat_digits a @ CHR ''.'' # (nat_digits b @ CHR ''.'' # (nat_digits c @ CHR ''.'' # nat_digits d)) =
      nat_digits 0 @ CHR ''.'' # (nat_digits 0 @ CHR ''.'' # (nat_digits 0 @ CHR ''.'' # nat_digits 0))"
    by (simp add: dotted_def z)
  note s1 = split [OF e digits_no_dot digits_no_dot]
  note s2 = split [OF s1 [THEN conjunct2] digits_no_dot digits_no_dot]
  note s3 = split [OF s2 [THEN conjunct2] digits_no_dot digits_no_dot]
  show "a = 0 \<and> b = 0 \<and> c = 0 \<and> d = 0" using s1 s2 s3 by (simp add: nat_digits_inj)
qed (simp add: dotted_def nat_digits.simps digit_chars)

section \<open>Properties\<close>

text \<open>C35. On IPv4 addresses the patterns of the guard are exactly the private, loopback and link-local
  ranges: 127/8, 10/8, 172.16/12, 192.168/16, 169.254/16, and the unspecified address. The
  rest of 0/8, the shared range 100.64/10 and multicast are not blocked.\<close>

theorem ipv4_guard:
  assumes "a < 256" and "b < 256" and "c < 256" and "d < 256"
  shows "isPrivateOrReservedIp (dotted a b c d) \<longleftrightarrow>
    a = 127 \<or> a = 10 \<or> (a = 172 \<and> 16 \<le> b \<and> b \<le> 31) \<or> (a = 192 \<and> b = 168) \<or> (a = 169 \<and> b = 254) \<or>
    (a = 0 \<and> b = 0 \<and> c = 0 \<and> d = 0)"
proof -
  have n: "''127'' = nat_digits 127" "''10'' = nat_digits 10" "''192'' = nat_digits 192" "''168'' = nat_digits 168"
    "''169'' = nat_digits 169" "''254'' = nat_digits 254" by (simp_all add: nat_digits.simps digit_chars)
  have p: "startsWith (dotted a b c d) ''127.'' \<longleftrightarrow> a = 127" "startsWith (dotted a b c d) ''10.'' \<longleftrightarrow> a = 10"
    "startsWith (dotted a b c d) ''192.168.'' \<longleftrightarrow> a = 192 \<and> b = 168"
    "startsWith (dotted a b c d) ''169.254.'' \<longleftrightarrow> a = 169 \<and> b = 254"
    using dotted_prefix [OF n(1), of a b c d] dotted_prefix [OF n(2), of a b c d]
      dotted_prefix2 [OF n(3,4), of a b c d] dotted_prefix2 [OF n(5,6), of a b c d] by simp_all
  obtain x xs where x: "dotted a b c d = x # xs" "is_digit x" using dotted_head by blast
  have head: "x \<noteq> CHR '':''" "x \<noteq> CHR ''f''" "x \<noteq> CHR ''l''" "x \<noteq> CHR ''m''"
    using x(2) by (auto simp: is_digit_def)
  have low: "char_lower x = x" using lower_digit x(2) by blast
  have tails: "\<not> endsWith (dotted a b c d) ''.local''" "\<not> endsWith (dotted a b c d) ''.internal''"
    using dotted_last [of a b c d] by (auto dest!: endsWith_last simp: is_digit_def)
  have "\<not> unique_local (dotted a b c d)"
    using x head low by (auto simp: unique_local_def toLowerCase_def split: list.splits)
  moreover have "dotted a b c d = ''169.254.169.254'' \<Longrightarrow> a = 169 \<and> b = 254"
    using p(4) by (simp add: startsWith_def)
  moreover have "dotted a b c d \<noteq> ''::1''" "\<not> startsWith (dotted a b c d) ''fc00:''"
    "\<not> startsWith (dotted a b c d) ''fe80:''" "dotted a b c d \<noteq> ''localhost''"
    "dotted a b c d \<noteq> ''metadata.google.internal''"
    using x head by (auto simp: startsWith_def)
  ultimately show ?thesis
    using p class_b_dotted [OF assms(2), of a c d] dotted_zero [of a b c d] tails
    unfolding isPrivateOrReservedIp_def dotted_lower by blast
qed

theorem ipv4_guard_witness:
  "isPrivateOrReservedIp (dotted 172 31 0 9) \<and> \<not> isPrivateOrReservedIp (dotted 172 32 0 9) \<and>
   \<not> isPrivateOrReservedIp (dotted 0 0 0 1)"
  using ipv4_guard [of 172 31 0 9] ipv4_guard [of 172 32 0 9] ipv4_guard [of 0 0 0 1] by simp

text \<open>The requests of one \<open>fetch\<close>: each but the first is where an answer to the one before led.\<close>

fun redirect_chain :: "net_api \<Rightarrow> http_log \<Rightarrow> fetch_request list \<Rightarrow> bool" where
  "redirect_chain N log (q # q' # qs) \<longleftrightarrow>
     (\<exists>resp. na_exchange N log q = Inr resp \<and> next_hop N q resp = Some (Inr q')) \<and> redirect_chain N (log @ [q]) (q' # qs)"
| "redirect_chain N log _ \<longleftrightarrow> True"

lemma fetch_following_run:
  assumes "fetch_following N n q log = (r, log')"
  shows "\<exists>hops. log' = log @ q # hops \<and> length hops \<le> n \<and> redirect_chain N log (q # hops) \<and>
    (\<forall>resp. r = Inr resp \<longrightarrow> na_exchange N (butlast log') (last log') = Inr resp \<and> next_hop N (last log') resp = None)"
  using assms
proof (induction n arbitrary: q log)
  case 0
  then show ?case
    by (cases "na_exchange N log q")
       (auto simp: http_exchange_def seq_def ret_def throw_def split: option.splits)
next
  case (Suc n)
  show ?case
  proof (cases "\<exists>resp q'. na_exchange N log q = Inr resp \<and> next_hop N q resp = Some (Inr q')")
    case True
    then obtain resp q' where x: "na_exchange N log q = Inr resp" "next_hop N q resp = Some (Inr q')" by blast
    then have "fetch_following N n q' (log @ [q]) = (r, log')"
      using Suc.prems by (simp add: http_exchange_def seq_def)
    from Suc.IH [OF this] obtain hops where h: "log' = (log @ [q]) @ q' # hops" "length hops \<le> n"
      "redirect_chain N (log @ [q]) (q' # hops)"
      "\<forall>resp. r = Inr resp \<longrightarrow> na_exchange N (butlast log') (last log') = Inr resp \<and> next_hop N (last log') resp = None"
      by blast
    then show ?thesis using x by (intro exI [of _ "q' # hops"]) simp
  next
    case False
    then show ?thesis using Suc.prems
      by (cases "na_exchange N log q")
         (auto simp: http_exchange_def seq_def ret_def throw_def split: option.splits sum.splits)
  qed
qed

lemma redirected_shape: "hr_method q = ''POST'' \<Longrightarrow>
    (if becomes_get q st then hr_method (redirected q st u) = ''GET'' \<and> hr_body (redirected q st u) = ''''
     else redirected q st u = q\<lparr>hr_url := u\<rparr>)"
  by (simp add: redirected_def)

text \<open>A hop repeats the request before it at another URL, or is a \<open>GET\<close> without its body.\<close>

definition same_or_get :: "fetch_request \<Rightarrow> fetch_request \<Rightarrow> bool" where
  "same_or_get q q' \<longleftrightarrow> q' = q\<lparr>hr_url := hr_url q'\<rparr> \<or> hr_method q' = ''GET'' \<and> hr_body q' = '''' \<and> set (hr_headers q') \<subseteq> set (hr_headers q)"

lemma next_hop_same_or_get: "next_hop N q resp = Some (Inr q') \<Longrightarrow> same_or_get q q'"
  by (auto simp: next_hop_def redirected_def same_or_get_def split: option.splits if_splits)

lemma same_or_get_trans: "same_or_get q q' \<Longrightarrow> same_or_get q' q'' \<Longrightarrow> same_or_get q q''"
  by (cases q; cases q'; cases q'') (auto simp: same_or_get_def)

lemma chain_same_or_get: "redirect_chain N log (q # hops) \<Longrightarrow> q' \<in> set hops \<Longrightarrow> same_or_get q q'"
proof (induction hops arbitrary: log q)
  case (Cons h hops)
  then have 1: "same_or_get q h" "redirect_chain N (log @ [q]) (h # hops)" using next_hop_same_or_get by auto
  show ?case using Cons.IH [OF 1(2)] Cons.prems(2) 1(1) same_or_get_trans by (cases "q' = h") auto
qed simp

text \<open>C34. When the URL of the subscription fails the guard, \<open>dispatchWebhook\<close> sends nothing. Otherwise, with a
  clock in range, the first request it sends goes to that URL, which is HTTPS, on no blocked port, and
  whose host and whose addresses at that moment are none of the guarded ones; it is signed with the
  subscription's secret over exactly its body. At most twenty requests follow, and each only where a
  redirect in the answer to the one before led: the same request at another URL, or a \<open>GET\<close> without its
  body. The guard is not applied to those URLs. It reports a delivery only when the last
  request was answered with a 2xx status, and it never throws.\<close>

theorem dispatch_guarded:
  assumes "dispatchWebhook N sub ev payload clock log = (r, log')" and "valid_time clock"
  shows "(\<exists>d. r = Inr d \<and> (dr_delivered d \<longrightarrow> log' \<noteq> log \<and>
      (\<exists>resp. na_exchange N (butlast log') (last log') = Inr resp \<and> response_ok resp \<and> dr_httpStatus d = Some (hp_status resp)))) \<and>
    (if assertSafeWebhookUrl N (hs_url sub) = Inr () then
       (\<exists>u t hops. na_parse_url N (hs_url sub) = Some u \<and> up_protocol u = ''https:'' \<and>
        url_port u \<notin> set blockedPorts \<and> \<not> isPrivateOrReservedIp (up_hostname u) \<and>
        (\<forall>a\<in>set (resolved N (up_hostname u)). \<not> isPrivateOrReservedIp a) \<and>
        log' = log @ dispatch_request N sub ev (dispatch_body ev t payload) # hops \<and> length hops \<le> 20 \<and>
        redirect_chain N log (dispatch_request N sub ev (dispatch_body ev t payload) # hops) \<and>
        (\<forall>q\<in>set hops. same_or_get (dispatch_request N sub ev (dispatch_body ev t payload)) q))
     else log' = log)"
proof (cases "assertSafeWebhookUrl N (hs_url sub)")
  case (Inl e)
  then show ?thesis using assms(1) by (auto simp: dispatchWebhook_def ret_def)
next
  case (Inr u)
  obtain t where t: "toISOString clock = Some t" using assms(2) toISOString_Some_iff by blast
  let ?q = "dispatch_request N sub ev (dispatch_body ev t payload)"
  obtain f log1 where f: "http_fetch N ?q log = (f, log1)" by fastforce
  have run: "log' = log1 \<and> (\<exists>d. r = Inr d \<and> (dr_delivered d \<longrightarrow>
      (\<exists>resp. f = Inr resp \<and> response_ok resp \<and> dr_httpStatus d = Some (hp_status resp))))"
    using assms(1) Inr t f
    by (cases f) (auto simp: dispatchWebhook_def seq_def iso_def ret_def try_catch_def split: if_splits)
  from fetch_following_run [OF f [unfolded http_fetch_def]] obtain hops where h: "log1 = log @ ?q # hops"
    "length hops \<le> max_redirects" "redirect_chain N log (?q # hops)"
    "\<forall>resp. f = Inr resp \<longrightarrow> na_exchange N (butlast log1) (last log1) = Inr resp" by blast
  from Inr obtain p where p: "na_parse_url N (hs_url sub) = Some p" "up_protocol p = ''https:''"
    "url_port p \<notin> set blockedPorts" "\<not> isPrivateOrReservedIp (up_hostname p)"
    "\<forall>a\<in>set (resolved N (up_hostname p)). \<not> isPrivateOrReservedIp a"
    unfolding assertSafe_Inr by blast
  have "\<forall>q\<in>set hops. same_or_get ?q q" using chain_same_or_get [OF h(3)] by blast
  then have "\<exists>u t hops. na_parse_url N (hs_url sub) = Some u \<and> up_protocol u = ''https:'' \<and>
        url_port u \<notin> set blockedPorts \<and> \<not> isPrivateOrReservedIp (up_hostname u) \<and>
        (\<forall>a\<in>set (resolved N (up_hostname u)). \<not> isPrivateOrReservedIp a) \<and>
        log' = log @ dispatch_request N sub ev (dispatch_body ev t payload) # hops \<and> length hops \<le> 20 \<and>
        redirect_chain N log (dispatch_request N sub ev (dispatch_body ev t payload) # hops) \<and>
        (\<forall>q\<in>set hops. same_or_get (dispatch_request N sub ev (dispatch_body ev t payload)) q)"
    using p h run by (intro exI [of _ p] exI [of _ t] exI [of _ hops]) (simp add: max_redirects_def)
  then show ?thesis using run h Inr by auto
qed

text \<open>So the guard does not hold for what is fetched: an endpoint that passes it and answers 307 or 308 makes the
  facilitator send the signed request to any URL of the endpoint's choice, whether the guard would
  refuse that URL or not.\<close>

theorem dispatch_escapes_guard:
  assumes "assertSafeWebhookUrl N (hs_url sub) = Inr ()" and "valid_time clock" and "toISOString clock = Some t"
    and "q = dispatch_request N sub ev (dispatch_body ev t payload)"
    and "na_exchange N log q = Inr resp" and "hp_status resp = 307 \<or> hp_status resp = 308"
    and "hp_location resp = Some location" and "na_join_url N (hs_url sub) location = Some target"
  shows "\<exists>later. snd (dispatchWebhook N sub ev payload clock log) = log @ q # q\<lparr>hr_url := target\<rparr> # later"
proof -
  have hop: "next_hop N q resp = Some (Inr (q\<lparr>hr_url := target\<rparr>))"
    using assms(4,6-8)
    by (auto simp: next_hop_def redirect_statuses_def redirected_def becomes_get_def dispatch_request_def)
  obtain f log1 where f: "fetch_following N 19 (q\<lparr>hr_url := target\<rparr>) (log @ [q]) = (f, log1)" by fastforce
  have "http_fetch N q log = (f, log1)"
    using assms(5) hop f by (simp add: http_fetch_def max_redirects_def numeral_eq_Suc http_exchange_def seq_def)
  then have "snd (dispatchWebhook N sub ev payload clock log) = log1"
    using assms(1,3,4) by (cases f) (auto simp: dispatchWebhook_def seq_def iso_def ret_def try_catch_def)
  moreover obtain hops where "log1 = (log @ [q]) @ q\<lparr>hr_url := target\<rparr> # hops"
    using fetch_following_run [OF f] by blast
  ultimately show ?thesis by simp
qed

text \<open>The patterns for IPv6 never apply to a URL: the host of an IPv6 literal is written in
  brackets, which no pattern allows for and no resolver answers, so every such URL on a free
  port is accepted, the loopback address included.\<close>

theorem ipv6_literal_accepted:
  assumes "na_parse_url N url = Some \<lparr>up_protocol = ''https:'', up_hostname = ''['' @ ip @ '']'', up_port = ''''\<rparr>"
    and "na_resolve4 N (''['' @ ip @ '']'') = Inl e" and "na_resolve6 N (''['' @ ip @ '']'') = Inl e"
  shows "assertSafeWebhookUrl N url = Inr ()"
proof -
  let ?h = "CHR ''['' # ip @ '']''"
  have l: "toLowerCase ?h = CHR ''['' # toLowerCase ip @ '']''" by (simp add: toLowerCase_def char_lower_def Let_def)
  have "\<not> endsWith (CHR ''['' # toLowerCase ip @ '']'') ''.local''" "\<not> endsWith (CHR ''['' # toLowerCase ip @ '']'') ''.internal''"
    by (auto dest!: endsWith_last)
  then have "\<not> isPrivateOrReservedIp ?h"
    unfolding isPrivateOrReservedIp_def l
    by (auto simp: startsWith_def class_b_def unique_local_def toLowerCase_def char_lower_def Let_def split: list.splits)
  moreover have "url_port \<lparr>up_protocol = ''https:'', up_hostname = ?h, up_port = ''''\<rparr> \<notin> set blockedPorts"
    by (simp add: url_port_def blockedPorts_def)
  ultimately show ?thesis using assms by (auto simp: assertSafe_Inr resolved_def or_none_def)
qed

definition sample_net :: net_api where
  "sample_net =
     \<lparr>na_parse_url = (\<lambda>u. if u = ''https://[::1]/'' then
          Some \<lparr>up_protocol = ''https:'', up_hostname = ''[::1]'', up_port = ''''\<rparr>
        else if u = ''https://shop.example/hook'' then
          Some \<lparr>up_protocol = ''https:'', up_hostname = ''shop.example'', up_port = ''''\<rparr> else None),
      na_resolve4 = (\<lambda>h. if h = ''shop.example'' then Inr [''93.184.216.34''] else Inl (plainError ''ENOTFOUND'')),
      na_resolve6 = (\<lambda>h. Inl (plainError ''ENOTFOUND'')),
      na_join_url = (\<lambda>base location. Some location),
      na_exchange = (\<lambda>log q. Inr \<lparr>hp_status = 204, hp_location = None, hp_text = Inr ''''\<rparr>),
      na_hmac = (\<lambda>k b. k @ ''/'' @ b)\<rparr>"

theorem ipv6_literal_accepted_witness:
  "assertSafeWebhookUrl sample_net ''https://[::1]/'' = Inr ()"
  using ipv6_literal_accepted [of sample_net "''https://[::1]/''" "''::1''" "plainError ''ENOTFOUND''"]
  by (simp add: sample_net_def)

definition sample_hook :: hook_subscription where
  "sample_hook = \<lparr>hs_subscriptionId = ''wh'', hs_url = ''https://shop.example/hook'', hs_secret = ''k'', hs_events = []\<rparr>"

theorem dispatch_guarded_witness:
  "\<exists>d log'. dispatchWebhook sample_net sample_hook ''e'' JNull 0 [] = (Inr d, log') \<and> log' \<noteq> []"
proof -
  obtain r log' where run: "dispatchWebhook sample_net sample_hook ''e'' JNull 0 [] = (r, log')" by fastforce
  have t: "valid_time 0" by (simp add: valid_time_def)
  have g: "assertSafeWebhookUrl sample_net (hs_url sample_hook) = Inr ()" by code_simp
  from dispatch_guarded [OF run t] run show ?thesis by (auto simp: g)
qed

text \<open>An endpoint that redirects to the metadata service of the cloud.\<close>

definition redirecting_net :: net_api where
  "redirecting_net = sample_net\<lparr>na_exchange := (\<lambda>log q. Inr
     (if log = [] then \<lparr>hp_status = 307, hp_location = Some ''http://169.254.169.254/latest'', hp_text = Inr ''''\<rparr>
      else \<lparr>hp_status = 200, hp_location = None, hp_text = Inr ''''\<rparr>))\<rparr>"

theorem dispatch_escapes_guard_witness:
  "assertSafeWebhookUrl redirecting_net ''http://169.254.169.254/latest'' \<noteq> Inr () \<and>
   (\<exists>q later. snd (dispatchWebhook redirecting_net sample_hook ''e'' JNull 0 []) = q # later \<and>
      (\<exists>q'\<in>set later. hr_url q' = ''http://169.254.169.254/latest'' \<and> hr_body q' = hr_body q \<and> hr_headers q' = hr_headers q))"
proof -
  have t: "valid_time 0" by (simp add: valid_time_def)
  then obtain iso0 where i: "toISOString 0 = Some iso0" using toISOString_Some_iff by blast
  have g: "assertSafeWebhookUrl redirecting_net (hs_url sample_hook) = Inr ()" by code_simp
  have "assertSafeWebhookUrl redirecting_net ''http://169.254.169.254/latest'' \<noteq> Inr ()" by code_simp
  moreover have "\<exists>later. snd (dispatchWebhook redirecting_net sample_hook ''e'' JNull 0 []) =
      [] @ dispatch_request redirecting_net sample_hook ''e'' (dispatch_body ''e'' iso0 JNull) #
        (dispatch_request redirecting_net sample_hook ''e'' (dispatch_body ''e'' iso0 JNull))\<lparr>hr_url := ''http://169.254.169.254/latest''\<rparr> # later"
    by (rule dispatch_escapes_guard [OF g t i refl, where resp = "\<lparr>hp_status = 307, hp_location = Some ''http://169.254.169.254/latest'', hp_text = Inr ''''\<rparr>"
          and location = "''http://169.254.169.254/latest''"]) (simp_all add: redirecting_net_def sample_net_def)
  ultimately show ?thesis by auto
qed

text \<open>C36. Signatures: the shipped verifier accepts a body exactly when the header is the signature the
  senders compute for it; it rejects a missing header, and throws, instead of rejecting, when
  the header has another length. The copy in the SDK never throws: it accepts what the shipped one
  accepts, except that with an empty secret it rejects every signature, and rejects everything else.\<close>

theorem webhook_signature_exact:
  "(verifyWebhookSignature N body secret header = Inr True \<longleftrightarrow> header = Some (signPayload N secret body)) \<and>
   verifyWebhookSignature N body secret None = Inr False \<and>
   ((\<exists>e. verifyWebhookSignature N body secret header = Inl e) \<longleftrightarrow>
      (\<exists>h. header = Some h \<and> h \<noteq> '''' \<and> length h \<noteq> length (signPayload N secret body))) \<and>
   sdk_verifyWebhookSignature N body secret header =
     (secret \<noteq> '''' \<and> verifyWebhookSignature N body secret header = Inr True)"
  by (auto simp: verifyWebhookSignature_def sdk_verifyWebhookSignature_def timingSafeEqual_def signPayload_def
      split: option.splits list.splits if_splits)

text \<open>What the senders sign the receivers can verify: the requests of the queue worker and of the
  dispatcher pass the verifier with the secret they were signed with; the requests of the other
  worker, which signs the timestamp too, pass it only if the two texts have the same HMAC.\<close>

theorem webhook_sign_verify:
  "verifyWebhookSignature N (hr_body (delivery_request N job)) (wj_webhookSecret job)
     (map_of (hr_headers (delivery_request N job)) ''X-Webhook-Signature'') = Inr True \<and>
   verifyWebhookSignature N body (hs_secret sub)
     (map_of (hr_headers (dispatch_request N sub ev body)) ''X-Facilitator-Signature'') = Inr True \<and>
   (verifyWebhookSignature N (worker_body data now) (wi_secret data)
      (map_of (hr_headers (worker_request N data now)) ''X-Facilitator-Signature'') = Inr True \<longleftrightarrow>
    na_hmac N (wi_secret data) (int_str now @ ''.'' @ worker_body data now) = na_hmac N (wi_secret data) (worker_body data now))"
  by (auto simp: verifyWebhookSignature_def timingSafeEqual_def signPayload_def delivery_request_def
      dispatch_request_def worker_request_def Let_def)

end
