(* ===== verification/WebhookSecret.thy ===== *)
theory WebhookSecret
  imports Json OnChain
begin

text \<open>
  \<open>src/infrastructure/webhook-secret.ts\<close>: webhook secrets encrypted at rest. AES-256-GCM is a
  parameter: sealing, opening and what \<open>createDecipheriv\<close> and \<open>setAuthTag\<close> refuse; its locale
  states that opening what was sealed with the same key and nonce gives the plaintext back.
\<close>

record cipher_api =
  ci_seal :: "nat list \<Rightarrow> nat list \<Rightarrow> nat list \<Rightarrow> exn + nat list \<times> nat list"
  ci_init :: "nat list \<Rightarrow> nat list \<Rightarrow> nat list \<Rightarrow> exn + unit"
  ci_open :: "nat list \<Rightarrow> nat list \<Rightarrow> nat list \<Rightarrow> nat list \<Rightarrow> exn + nat list"

definition IV_LENGTH :: nat where
  "IV_LENGTH = 12"

definition TAG_LENGTH :: nat where
  "TAG_LENGTH = 16"

definition getEncryptionKey :: "string option \<Rightarrow> exn + nat list" where
  "getEncryptionKey env =
     (case env of
        None \<Rightarrow> Inl (plainError (''WEBHOOK_ENCRYPTION_KEY must be set to a 64-character hex string (32 bytes). '' @
          ''Generate with: openssl rand -hex 32''))
      | Some hex \<Rightarrow>
          if length hex \<noteq> 64 then
            Inl (plainError (''WEBHOOK_ENCRYPTION_KEY must be set to a 64-character hex string (32 bytes). '' @
              ''Generate with: openssl rand -hex 32''))
          else Inr (map nat (hex_bytes hex)))"

definition envelope_json :: "nat list \<Rightarrow> nat list \<Rightarrow> nat list \<Rightarrow> json" where
  "envelope_json iv tag data = JObj
     [(''iv'', JStr (b64_encode iv)), (''tag'', JStr (b64_encode tag)), (''data'', JStr (b64_encode data))]"

text \<open>\<open>iv\<close> is what \<open>randomBytes\<close> returned.\<close>

definition encryptWebhookSecret ::
  "cipher_api \<Rightarrow> string option \<Rightarrow> nat list \<Rightarrow> string \<Rightarrow> exn + string" where
  "encryptWebhookSecret C env iv plaintext =
     (case getEncryptionKey env of
        Inl e \<Rightarrow> Inl e
      | Inr key \<Rightarrow>
          (case ci_seal C key iv (str_bytes plaintext) of
             Inl e \<Rightarrow> Inl e
           | Inr (data, tag) \<Rightarrow> Inr (b64_encode (str_bytes (js_stringify (envelope_json iv tag data))))))"

text \<open>Reading a property: a \<open>TypeError\<close> on \<open>null\<close>, \<open>undefined\<close> where there is none.\<close>

definition js_get :: "json \<Rightarrow> string \<Rightarrow> exn + json option" where
  "js_get v k = (case v of
     JNull \<Rightarrow> Inl (JsError ''TypeError'' (''Cannot read properties of null (reading '' @ quoted k @ '')''))
   | JObj kvs \<Rightarrow> Inr (map_of kvs k)
   | _ \<Rightarrow> Inr None)"

text \<open>\<open>Buffer.from(v, 'base64')\<close>, for the envelopes this module writes: a value that is not a
  string is refused.\<close>

definition buffer_from :: "json option \<Rightarrow> exn + nat list" where
  "buffer_from v = (case v of
     Some (JStr s) \<Rightarrow> Inr (b64_decode s)
   | _ \<Rightarrow> Inl (JsError ''TypeError'' ''The first argument must be of type string or an instance of Buffer''))"

definition get_bytes :: "json \<Rightarrow> string \<Rightarrow> exn + nat list" where
  "get_bytes v k = (case js_get v k of Inl e \<Rightarrow> Inl e | Inr x \<Rightarrow> buffer_from x)"

definition dash :: string where
  "dash = [CHR 0xE2, CHR 0x80, CHR 0x94]"

definition decryptWebhookSecret :: "cipher_api \<Rightarrow> string option \<Rightarrow> string \<Rightarrow> exn + string" where
  "decryptWebhookSecret C env ciphertext =
     (case getEncryptionKey env of
        Inl e \<Rightarrow> Inl e
      | Inr key \<Rightarrow>
     (case json_parse (bytes_str (b64_decode ciphertext)) of
        None \<Rightarrow> Inl (plainError (''Invalid webhook secret envelope '' @ dash @ '' cannot parse JSON''))
      | Some envelope \<Rightarrow>
     (case get_bytes envelope ''iv'' of Inl e \<Rightarrow> Inl e | Inr iv \<Rightarrow>
     (case get_bytes envelope ''tag'' of Inl e \<Rightarrow> Inl e | Inr tag \<Rightarrow>
     (case get_bytes envelope ''data'' of Inl e \<Rightarrow> Inl e | Inr data \<Rightarrow>
     (case ci_init C key iv tag of
        Inl e \<Rightarrow> Inl e
      | Inr _ \<Rightarrow>
     (case ci_open C key iv tag data of
        Inl e \<Rightarrow> Inl (plainError (''Webhook secret decryption failed '' @ dash @ '' wrong key or tampered ciphertext''))
      | Inr bytes \<Rightarrow> Inr (bytes_str bytes))))))))"

definition is_string :: "exn + json option \<Rightarrow> bool" where
  "is_string v = (case v of Inr (Some (JStr s)) \<Rightarrow> True | _ \<Rightarrow> False)"

definition isEncryptedEnvelope :: "string \<Rightarrow> bool" where
  "isEncryptedEnvelope value =
     (case json_parse (bytes_str (b64_decode value)) of
        None \<Rightarrow> False
      | Some obj \<Rightarrow> is_string (js_get obj ''iv'') \<and> is_string (js_get obj ''tag'') \<and> is_string (js_get obj ''data''))"

section \<open>Round trip\<close>

locale gcm =
  fixes C :: cipher_api
  assumes seal_bytes: "ci_seal C k iv p = Inr (d, t) \<Longrightarrow> (\<forall>b\<in>set d. b < 256) \<and> (\<forall>b\<in>set t. b < 256)"
    and init_ok: "ci_seal C k iv p = Inr (d, t) \<Longrightarrow> ci_init C k iv t = Inr ()"
    and open_seal: "ci_seal C k iv p = Inr (d, t) \<Longrightarrow> ci_open C k iv t d = Inr p"

text \<open>A cipher that keeps the nonce as its tag, for the witnesses.\<close>

definition xor_cipher :: cipher_api where
  "xor_cipher =
     \<lparr>ci_seal = (\<lambda>k iv p. if \<forall>b\<in>set p \<union> set iv. b < 256 then Inr (map (\<lambda>b. 255 - b) p, iv) else Inl (plainError ''bytes'')),
      ci_init = (\<lambda>k iv t. Inr ()),
      ci_open = (\<lambda>k iv t d. if t = iv then Inr (map (\<lambda>b. 255 - b) d) else Inl (plainError ''tag''))\<rparr>"

interpretation xor_gcm: gcm xor_cipher
proof unfold_locales
  fix k iv p d t
  assume a: "ci_seal xor_cipher k iv p = Inr (d, t)"
  have "map (\<lambda>b. 255 - (255 - b)) p = p" if "\<forall>b\<in>set p. b < (256 :: nat)"
    using that by (intro map_idI) (auto simp: less_Suc_eq_le)
  with a show "ci_open xor_cipher k iv t d = Inr p"
    by (auto simp: xor_cipher_def comp_def split: if_splits)
qed (auto simp: xor_cipher_def split: if_splits)

lemma xor_gcm_ok: "gcm xor_cipher"
  by (rule xor_gcm.gcm_axioms)

lemma envelope_read:
  assumes "\<forall>b\<in>set iv. b < 256" "\<forall>b\<in>set tag. b < 256" "\<forall>b\<in>set data. b < 256"
  shows "json_parse (bytes_str (b64_decode (b64_encode (str_bytes (js_stringify (envelope_json iv tag data))))))
      = Some (envelope_json iv tag data)"
    and "get_bytes (envelope_json iv tag data) ''iv'' = Inr iv"
    and "get_bytes (envelope_json iv tag data) ''tag'' = Inr tag"
    and "get_bytes (envelope_json iv tag data) ''data'' = Inr data"
proof -
  have "b64_decode (b64_encode (str_bytes (js_stringify (envelope_json iv tag data)))) =
      str_bytes (js_stringify (envelope_json iv tag data))"
    by (rule b64_roundtrip) (blast dest: str_bytes_range)
  moreover have "wf_json (envelope_json iv tag data)" by (simp add: envelope_json_def)
  ultimately show "json_parse (bytes_str (b64_decode (b64_encode (str_bytes (js_stringify (envelope_json iv tag data))))))
      = Some (envelope_json iv tag data)" by (simp add: json_roundtrip)
qed (use assms in \<open>simp_all add: get_bytes_def js_get_def envelope_json_def buffer_from_def b64_roundtrip\<close>)

lemma secret_decrypts:
  assumes "gcm C" and "\<forall>b\<in>set iv. b < 256" and "encryptWebhookSecret C env iv secret = Inr stored"
  shows "decryptWebhookSecret C env stored = Inr secret"
proof -
  from assms(3) obtain key data tag where k: "getEncryptionKey env = Inr key"
    and s: "ci_seal C key iv (str_bytes secret) = Inr (data, tag)"
    and st: "stored = b64_encode (str_bytes (js_stringify (envelope_json iv tag data)))"
    by (auto simp: encryptWebhookSecret_def split: sum.splits)
  note b = gcm.seal_bytes [OF assms(1) s]
  note r = envelope_read [OF assms(2) b [THEN conjunct2] b [THEN conjunct1]]
  show ?thesis
    using k r gcm.init_ok [OF assms(1) s] gcm.open_seal [OF assms(1) s] by (simp add: decryptWebhookSecret_def st)
qed

lemma stored_is_envelope:
  assumes "gcm C" and "\<forall>b\<in>set iv. b < 256" and "encryptWebhookSecret C env iv secret = Inr stored"
  shows "isEncryptedEnvelope stored"
proof -
  from assms(3) obtain key data tag where s: "ci_seal C key iv (str_bytes secret) = Inr (data, tag)"
    and st: "stored = b64_encode (str_bytes (js_stringify (envelope_json iv tag data)))"
    by (auto simp: encryptWebhookSecret_def split: sum.splits)
  note b = gcm.seal_bytes [OF assms(1) s]
  note r = envelope_read [OF assms(2) b [THEN conjunct2] b [THEN conjunct1]]
  show ?thesis using r(1) by (simp add: isEncryptedEnvelope_def st is_string_def js_get_def envelope_json_def)
qed

text \<open>C37. A secret that was encrypted is decrypted to itself under the same key, for every nonce and
  every text, quotes and control characters included, and its stored form is recognised as an
  encrypted envelope.\<close>

theorem secret_roundtrip:
  assumes "gcm C" and "\<forall>b\<in>set iv. b < 256" and "encryptWebhookSecret C env iv secret = Inr stored"
  shows "decryptWebhookSecret C env stored = Inr secret \<and> isEncryptedEnvelope stored"
  using secret_decrypts [OF assms] stored_is_envelope [OF assms] by simp

definition sample_key :: "string option" where
  "sample_key = Some (replicate 64 (CHR ''a''))"

theorem secret_roundtrip_witness:
  "\<exists>stored. encryptWebhookSecret xor_cipher sample_key (replicate 12 7) ''whsec'' = Inr stored \<and>
     decryptWebhookSecret xor_cipher sample_key stored = Inr ''whsec''"
proof -
  obtain stored where s: "encryptWebhookSecret xor_cipher sample_key (replicate 12 7) ''whsec'' = Inr stored"
    by (simp add: encryptWebhookSecret_def getEncryptionKey_def sample_key_def xor_cipher_def str_bytes_def)
  have b: "\<forall>b\<in>set (replicate 12 7). b < (256 :: nat)" by simp
  from secret_roundtrip [OF xor_gcm_ok b s] s show ?thesis by blast
qed

end
