(* ===== verification/Sellers.thy ===== *)
theory Sellers
  imports Http X402Parser Webhooks WebhookSecret
begin

text \<open>
  Sellers: API keys (\<open>infrastructure/api-key.ts\<close>), the seller service, the three
  authentication hooks and the routes of \<open>sellers.route.ts\<close>. SHA-256, the identifiers, the
  random bytes (as hexadecimal text), the text of Zod's issues and the clock are parameters.
\<close>

section \<open>API keys\<close>

record generated_key =
  gk_raw :: string
  gk_hash :: string

definition generateApiKey :: "(string \<Rightarrow> string) \<Rightarrow> string \<Rightarrow> generated_key" where
  "generateApiKey sha256 random = (let raw = ''fac_'' @ random in \<lparr>gk_raw = raw, gk_hash = sha256 raw\<rparr>)"

definition verifyApiKey :: "(string \<Rightarrow> string) \<Rightarrow> string \<Rightarrow> string \<Rightarrow> bool" where
  "verifyApiKey sha256 rawKey storedHash =
     (case timingSafeEqual (sha256 rawKey) storedHash of Inr b \<Rightarrow> b | Inl _ \<Rightarrow> False)"

lemma verifyApiKey_iff: "verifyApiKey sha rawKey h \<longleftrightarrow> sha rawKey = h"
  by (auto simp: verifyApiKey_def timingSafeEqual_def)

definition generateSellerId :: "string \<Rightarrow> string" where
  "generateSellerId ulid = ''seller_'' @ ulid"

definition generateWebhookId :: "string \<Rightarrow> string" where
  "generateWebhookId ulid = ''wh_'' @ ulid"

definition generateWebhookSecret :: "string \<Rightarrow> string" where
  "generateWebhookSecret random = ''whsec_'' @ random"

section \<open>The seller service\<close>

record seller_env =
  sl_seller :: "seller_row delegate"
  sl_subscription :: "webhook_subscription delegate"
  sl_net :: net_api
  sl_sha256 :: "string \<Rightarrow> string"
  sl_cipher :: cipher_api
  sl_key :: "string option"
  sl_issueText :: "issues \<Rightarrow> string option"

record create_seller_input =
  ci_name :: string
  ci_apiKey :: string
  ci_walletAddress :: string
  ci_referralCode :: "string option"
  ci_webhookUrl :: "string option"
  ci_deviceType :: "device_type option"

definition hashApiKey :: "(string \<Rightarrow> string) \<Rightarrow> string \<Rightarrow> string" where
  "hashApiKey sha256 rawKey = sha256 rawKey"

text \<open>\<open>toPublic\<close> drops the hash of the key.\<close>

record seller_public =
  sp_id :: string
  sp_name :: string
  sp_walletAddress :: string
  sp_referral :: "string option"
  sp_webhookUrl :: "string option"
  sp_deviceType :: device_type
  sp_active :: bool
  sp_createdAt :: int

definition toPublic :: "seller_row \<Rightarrow> seller_public" where
  "toPublic s = \<lparr>sp_id = se_id s, sp_name = se_name s, sp_walletAddress = se_walletAddress s,
     sp_referral = se_referralCode s, sp_webhookUrl = se_webhookUrl s, sp_deviceType = se_deviceType s,
     sp_active = se_active s, sp_createdAt = se_createdAt s\<rparr>"

definition createSeller ::
  "seller_env \<Rightarrow> create_seller_input \<Rightarrow> string \<Rightarrow> int \<Rightarrow> (world, exn, seller_public) prog" where
  "createSeller E input rowId clock =
     seq (on_sellers (db_create (sl_seller E)
            \<lparr>se_id = rowId, se_name = ci_name input, se_apiKeyHash = hashApiKey (sl_sha256 E) (ci_apiKey input),
             se_walletAddress = toLowerCase (ci_walletAddress input), se_referralCode = ci_referralCode input,
             se_deviceType = (case ci_deviceType input of Some d \<Rightarrow> d | None \<Rightarrow> server),
             se_webhookUrl = ci_webhookUrl input, se_active = True, se_createdAt = clock\<rparr>))
       (\<lambda>seller. ret (toPublic seller))"

definition getByApiKey :: "seller_env \<Rightarrow> string \<Rightarrow> (world, exn, seller_public option) prog" where
  "getByApiKey E rawKey =
     seq (on_sellers (db_find (sl_seller E) (\<lambda>s. se_apiKeyHash s = hashApiKey (sl_sha256 E) rawKey)))
       (\<lambda>seller. ret (case seller of
          Some s \<Rightarrow> if se_active s then Some (toPublic s) else None
        | None \<Rightarrow> None))"

definition getById :: "seller_env \<Rightarrow> string \<Rightarrow> (world, exn, seller_public option) prog" where
  "getById E sid = seq (on_sellers (db_find (sl_seller E) (\<lambda>s. se_id s = sid))) (\<lambda>seller. ret (map_option toPublic seller))"

text \<open>The row to create has no \<open>id\<close> of its own: \<open>rowId\<close> is the default \<open>cuid()\<close>.\<close>

definition registerWebhook ::
  "seller_env \<Rightarrow> string \<Rightarrow> string \<Rightarrow> string \<Rightarrow> string list \<Rightarrow> string \<Rightarrow> int \<Rightarrow> (world, exn, unit) prog" where
  "registerWebhook E sellerId url secret events rowId clock =
     seq (on_subscriptions (db_upsert (sl_subscription E) (\<lambda>w. ws_id w = ''wh_'' @ sellerId)
            \<lparr>ws_id = rowId, ws_sellerId = sellerId, ws_url = url, ws_events = events, ws_secret = secret,
             ws_active = True, ws_createdAt = clock\<rparr>
            (\<lambda>w. w\<lparr>ws_url := url, ws_secret := secret, ws_events := events, ws_active := True\<rparr>)))
       (\<lambda>_. ret ())"

section \<open>Authentication hooks\<close>

text \<open>A hook answers the request itself or lets it pass, with or without a seller.\<close>

datatype 'a hook_result = Answered reply | Pass "'a option"

record seller_context =
  sc_id :: string
  sc_name :: string
  sc_walletAddress :: string
  sc_active :: bool

definition context_of :: "seller_public \<Rightarrow> seller_context" where
  "context_of s = \<lparr>sc_id = sp_id s, sc_name = sp_name s, sc_walletAddress = sp_walletAddress s, sc_active = sp_active s\<rparr>"

definition auth_error :: "string \<Rightarrow> string option \<Rightarrow> string \<Rightarrow> json" where
  "auth_error code reason message = JObj [(''error'', JObj ([(''code'', JStr code)] @
     (case reason of Some r \<Rightarrow> [(''reason'', JStr r)] | None \<Rightarrow> []) @ [(''message'', JStr message)]))]"

definition requireSellerAuth ::
  "seller_env \<Rightarrow> string option \<Rightarrow> (world, exn, seller_context hook_result) prog" where
  "requireSellerAuth E apiKey =
     (case apiKey of
        Some (c # cs) \<Rightarrow>
          if blank (c # cs) then
            ret (Answered (mk_reply 401 (auth_error ''missing_api_key'' (Some ''Authentication required'')
              ''X-Api-Key header is required for this endpoint.'')))
          else
            try_catch
              (seq (getByApiKey E (c # cs)) (\<lambda>seller. case seller of
                 Some s \<Rightarrow> if sp_active s then ret (Pass (Some (context_of s)))
                   else ret (Answered (mk_reply 401 (auth_error ''invalid_api_key'' (Some ''Authentication failed'')
                     ''Invalid API key or inactive seller account.'')))
               | None \<Rightarrow> ret (Answered (mk_reply 401 (auth_error ''invalid_api_key'' (Some ''Authentication failed'')
                   ''Invalid API key or inactive seller account.'')))))
              (\<lambda>err. ret (Answered (mk_reply 500 (auth_error ''internal_error'' None
                 ''Authentication service error. Please retry.''))))
      | _ \<Rightarrow> ret (Answered (mk_reply 401 (auth_error ''missing_api_key'' (Some ''Authentication required'')
          ''X-Api-Key header is required for this endpoint.''))))"

definition optionalSellerAuth ::
  "seller_env \<Rightarrow> string option \<Rightarrow> (world, exn, seller_context hook_result) prog" where
  "optionalSellerAuth E apiKey =
     (case apiKey of
        Some (c # cs) \<Rightarrow>
          try_catch
            (seq (getByApiKey E (c # cs)) (\<lambda>seller. case seller of
               Some s \<Rightarrow> if sp_active s then ret (Pass (Some (context_of s))) else ret (Pass None)
             | None \<Rightarrow> ret (Pass None)))
            (\<lambda>err. ret (Pass None))
      | _ \<Rightarrow> ret (Pass None))"

text \<open>
  \<open>sellerAuthHook\<close> of \<open>middleware/seller-auth.ts\<close>: the first active seller, and the key compared
  with its stored hash (\<open>safeCompare\<close>, which \<open>safe-compare.ts\<close> calls \<open>safeEqual\<close>). The query
  names a column \<open>isActive\<close>; the schema calls it \<open>active\<close>.
\<close>

record hooked_seller =
  hd_id :: string
  hd_name :: string
  hd_referralCode :: "string option"

text \<open>The error is constructed with the message in place of the options, so the message is lost, and
  the code has neither reason nor status.\<close>

definition unauthorized :: exn where
  "unauthorized = Facilitator (createError ''unauthorized'' None None)"

definition sellerAuthHook :: "seller_env \<Rightarrow> string option \<Rightarrow> (world, exn, hooked_seller) prog" where
  "sellerAuthHook E apiKey =
     (case apiKey of
        Some (c # cs) \<Rightarrow>
          seq (on_sellers (db_find (sl_seller E) se_active)) (\<lambda>seller. case seller of
            Some s \<Rightarrow>
              if se_apiKeyHash s = '''' then throw unauthorized
              else if safeEqual (c # cs) (se_apiKeyHash s) then
                ret \<lparr>hd_id = se_id s, hd_name = se_name s, hd_referralCode = se_referralCode s\<rparr>
              else throw unauthorized
          | None \<Rightarrow> throw unauthorized)
      | _ \<Rightarrow> throw unauthorized)"

section \<open>Routes\<close>

record register_body =
  rb_name :: string
  rb_referralCode :: "string option"
  rb_deviceType :: device_type
  rb_webhookUrl :: "string option"

definition device_of :: "string \<Rightarrow> device_type" where
  "device_of s = (if s = ''robot'' then robot else if s = ''iot'' then iot else if s = ''agent'' then agent else server)"

definition device_name :: "device_type \<Rightarrow> string" where
  "device_name d = (case d of server \<Rightarrow> ''server'' | robot \<Rightarrow> ''robot'' | iot \<Rightarrow> ''iot'' | agent \<Rightarrow> ''agent'')"

definition zurl :: "net_api \<Rightarrow> json option \<Rightarrow> issues + string" where
  "zurl N = zstring (\<lambda>s. na_parse_url N s \<noteq> None)"

definition RegisterSellerBody :: "net_api \<Rightarrow> json option \<Rightarrow> issues + register_body" where
  "RegisterSellerBody N = zobject (\<lambda>kvs.
     zand (zand (zand (zand (Inr register_body.make)
       (zfield kvs ''name'' (zstring (\<lambda>s. 1 \<le> length s \<and> length s \<le> 100))))
       (zfield kvs ''referralCode'' (zoptional (zstring (\<lambda>s. length s \<le> 50)))))
       (zfield kvs ''deviceType'' (\<lambda>v. zmap (\<lambda>d. case d of Some s \<Rightarrow> device_of s | None \<Rightarrow> server)
          (zoptional (zstring (\<lambda>s. s \<in> set [''server'', ''robot'', ''iot'', ''agent''])) v))))
       (zfield kvs ''webhookUrl'' (zoptional (zurl N))))"

record create_webhook_body =
  cb_url :: string
  cb_events :: "string list"

definition webhook_events :: "string list" where
  "webhook_events = [''settlement.confirmed'', ''settlement.failed'', ''verify.accepted'', ''verify.rejected'']"

text \<open>\<open>z.array(z.enum(...)).min(1)\<close>: a wrong element is reported at its index.\<close>

fun zelements :: "nat \<Rightarrow> (json option \<Rightarrow> issues + 'a) \<Rightarrow> json list \<Rightarrow> issues + 'a list" where
  "zelements i sch [] = Inr []"
| "zelements i sch (x # xs) =
     zand (zmap (#) (case sch (Some x) of Inl is \<Rightarrow> Inl (map ((#) (nat_digits i)) is) | Inr y \<Rightarrow> Inr y))
          (zelements (Suc i) sch xs)"

definition zevents :: "json option \<Rightarrow> issues + string list" where
  "zevents v = (case v of
     Some (JArr []) \<Rightarrow> Inl [[]]
   | Some (JArr xs) \<Rightarrow> zelements 0 (zstring (\<lambda>s. s \<in> set webhook_events)) xs
   | _ \<Rightarrow> Inl [[]])"

definition CreateWebhookBody :: "net_api \<Rightarrow> json option \<Rightarrow> issues + create_webhook_body" where
  "CreateWebhookBody N = zobject (\<lambda>kvs.
     zand (zand (Inr create_webhook_body.make) (zfield kvs ''url'' (zurl N))) (zfield kvs ''events'' zevents))"

text \<open>A missing or empty token resolves to nobody.\<close>

definition resolveSeller :: "seller_env \<Rightarrow> string option \<Rightarrow> (world, exn, seller_row option) prog" where
  "resolveSeller E authHeader =
     (case extractBearerToken authHeader of
        Some (c # cs) \<Rightarrow>
          seq (on_sellers (db_findMany (sl_seller E) se_active)) (\<lambda>sellers.
          ret (List.find (\<lambda>s. verifyApiKey (sl_sha256 E) (c # cs) (se_apiKeyHash s)) sellers))
      | _ \<Rightarrow> ret None)"

definition bad_payload :: "seller_env \<Rightarrow> issues \<Rightarrow> reply" where
  "bad_payload E is = mk_reply 400 (error_body ''invalid_payload'' ''Validation failed'' (sl_issueText E is))"

definition bad_webhook_url :: "exn \<Rightarrow> reply" where
  "bad_webhook_url err =
     mk_reply 400 (error_body ''invalid_webhook_url'' ''Webhook URL failed security validation'' (Some (exn_message err)))"

definition wallet_of :: "string \<Rightarrow> string" where
  "wallet_of sellerId = ''0x'' @ take 40 (to_hex (map of_char sellerId))"

text \<open>\<open>POST /sellers/register\<close>: the row it creates, the reply for it, and the handler.\<close>

definition registered_row ::
  "(string \<Rightarrow> string) \<Rightarrow> register_body \<Rightarrow> string \<Rightarrow> string \<Rightarrow> int \<Rightarrow> seller_row" where
  "registered_row sha256 body random ulid clock =
     \<lparr>se_id = generateSellerId ulid, se_name = rb_name body, se_apiKeyHash = gk_hash (generateApiKey sha256 random),
      se_walletAddress = wallet_of (generateSellerId ulid), se_referralCode = rb_referralCode body,
      se_deviceType = rb_deviceType body, se_webhookUrl = rb_webhookUrl body, se_active = True,
      se_createdAt = clock\<rparr>"

definition registered_json :: "seller_row \<Rightarrow> string \<Rightarrow> string \<Rightarrow> json" where
  "registered_json seller apiKey created = JObj
     [(''sellerId'', JStr (se_id seller)), (''apiKey'', JStr apiKey),
      (''walletAddress'', JStr (se_walletAddress seller)),
      (''deviceType'', JStr (device_name (se_deviceType seller))), (''createdAt'', JStr created)]"

definition webhook_url_check :: "net_api \<Rightarrow> string option \<Rightarrow> exn + unit" where
  "webhook_url_check N url = (case url of Some (c # cs) \<Rightarrow> assertSafeWebhookUrl N (c # cs) | _ \<Rightarrow> Inr ())"

definition registerSeller ::
  "seller_env \<Rightarrow> json \<Rightarrow> string \<Rightarrow> string \<Rightarrow> int \<Rightarrow> (world, exn, reply) prog" where
  "registerSeller E rawBody random ulid clock =
     (case RegisterSellerBody (sl_net E) (Some rawBody) of
        Inl is \<Rightarrow> ret (bad_payload E is)
      | Inr body \<Rightarrow>
     (case webhook_url_check (sl_net E) (rb_webhookUrl body) of
        Inl err \<Rightarrow> ret (bad_webhook_url err)
      | Inr _ \<Rightarrow>
           seq (on_sellers (db_create (sl_seller E) (registered_row (sl_sha256 E) body random ulid clock))) (\<lambda>seller.
           seq (iso (se_createdAt seller)) (\<lambda>created.
           ret (mk_reply 201 (registered_json seller (gk_raw (generateApiKey (sl_sha256 E) random)) created))))))"

text \<open>\<open>POST /sellers/rotate-key\<close>\<close>

definition rotateKey ::
  "seller_env \<Rightarrow> string option \<Rightarrow> string \<Rightarrow> int \<Rightarrow> (world, exn, reply) prog" where
  "rotateKey E authHeader random clock =
     seq (resolveSeller E authHeader) (\<lambda>seller. case seller of
       None \<Rightarrow> ret (mk_reply 401 (error_body ''unauthorized'' ''Invalid API key''
                 (Some ''Provide Authorization: Bearer <currentApiKey>'')))
     | Some s \<Rightarrow>
         (let key = generateApiKey (sl_sha256 E) random in
          seq (on_sellers (db_update (sl_seller E) (\<lambda>x. se_id x = se_id s) (\<lambda>x. x\<lparr>se_apiKeyHash := gk_hash key\<rparr>))) (\<lambda>_.
          seq (iso clock) (\<lambda>now.
          ret (mk_reply 200 (JObj [(''sellerId'', JStr (se_id s)), (''apiKey'', JStr (gk_raw key)), (''rotatedAt'', JStr now)]))))))"

definition no_seller :: reply where
  "no_seller = mk_reply 401 (error_body ''unauthorized'' ''Invalid API key'' (Some ''''))"

text \<open>\<open>POST /webhooks\<close>: the row, the reply for it, and the handler.\<close>

definition subscription_row ::
  "string \<Rightarrow> string \<Rightarrow> create_webhook_body \<Rightarrow> string \<Rightarrow> int \<Rightarrow> webhook_subscription" where
  "subscription_row ulid sellerId body encryptedSecret clock =
     \<lparr>ws_id = generateWebhookId ulid, ws_sellerId = sellerId, ws_url = cb_url body,
      ws_events = cb_events body, ws_secret = encryptedSecret, ws_active = True, ws_createdAt = clock\<rparr>"

definition created_json :: "webhook_subscription \<Rightarrow> string \<Rightarrow> string \<Rightarrow> json" where
  "created_json webhook plaintextSecret created = JObj
     [(''id'', JStr (ws_id webhook)), (''url'', JStr (ws_url webhook)),
      (''events'', JArr (map JStr (ws_events webhook))), (''active'', JBool (ws_active webhook)),
      (''secret'', JStr plaintextSecret), (''createdAt'', JStr created)]"

definition createWebhook ::
  "seller_env \<Rightarrow> string option \<Rightarrow> json \<Rightarrow> string \<Rightarrow> string \<Rightarrow> nat list \<Rightarrow> int \<Rightarrow> (world, exn, reply) prog" where
  "createWebhook E authHeader rawBody ulid random iv clock =
     seq (resolveSeller E authHeader) (\<lambda>seller. case seller of
       None \<Rightarrow> ret no_seller
     | Some s \<Rightarrow>
     (case CreateWebhookBody (sl_net E) (Some rawBody) of
        Inl is \<Rightarrow> ret (bad_payload E is)
      | Inr body \<Rightarrow>
     (case assertSafeWebhookUrl (sl_net E) (cb_url body) of
        Inl err \<Rightarrow> ret (bad_webhook_url err)
      | Inr _ \<Rightarrow>
          (let plaintextSecret = generateWebhookSecret random in
           seq (of_sum (encryptWebhookSecret (sl_cipher E) (sl_key E) iv plaintextSecret)) (\<lambda>encryptedSecret.
           seq (on_subscriptions (db_create (sl_subscription E)
                  (subscription_row ulid (se_id s) body encryptedSecret clock))) (\<lambda>webhook.
           seq (iso (ws_createdAt webhook)) (\<lambda>created.
           ret (mk_reply 201 (created_json webhook plaintextSecret created)))))))))"

text \<open>\<open>GET /webhooks\<close>: the newest first, without the secret. A date is sent in ISO format.\<close>

definition webhook_item :: "webhook_subscription \<times> string \<Rightarrow> json" where
  "webhook_item ws = JObj [(''id'', JStr (ws_id (fst ws))), (''url'', JStr (ws_url (fst ws))),
     (''events'', JArr (map JStr (ws_events (fst ws)))), (''active'', JBool (ws_active (fst ws))),
     (''createdAt'', JStr (snd ws))]"

fun with_dates :: "webhook_subscription list \<Rightarrow> (world, exn, (webhook_subscription \<times> string) list) prog" where
  "with_dates [] = ret []"
| "with_dates (w # ws) = seq (iso (ws_createdAt w)) (\<lambda>t. seq (with_dates ws) (\<lambda>xs. ret ((w, t) # xs)))"

definition listWebhooks :: "seller_env \<Rightarrow> string option \<Rightarrow> (world, exn, reply) prog" where
  "listWebhooks E authHeader =
     seq (resolveSeller E authHeader) (\<lambda>seller. case seller of
       None \<Rightarrow> ret no_seller
     | Some s \<Rightarrow>
         seq (on_subscriptions (db_findMany (sl_subscription E) (\<lambda>w. ws_sellerId w = se_id s))) (\<lambda>webhooks.
         seq (with_dates (sort_key (\<lambda>w. - ws_createdAt w) webhooks)) (\<lambda>dated.
         ret (mk_reply 200 (JArr (map webhook_item dated))))))"

text \<open>\<open>DELETE /webhooks/:id\<close>\<close>

definition deleteWebhook :: "seller_env \<Rightarrow> string option \<Rightarrow> string \<Rightarrow> (world, exn, reply) prog" where
  "deleteWebhook E authHeader wid =
     seq (resolveSeller E authHeader) (\<lambda>seller. case seller of
       None \<Rightarrow> ret no_seller
     | Some s \<Rightarrow>
         seq (on_subscriptions (db_deleteMany (sl_subscription E) (\<lambda>w. ws_id w = wid \<and> ws_sellerId w = se_id s)))
           (\<lambda>_. ret (mk_reply 204 JNull)))"

section \<open>Lemmas\<close>

locale seller_tables =
  L: prisma_table "sl_seller E" seller_clash +
  W: prisma_table "sl_subscription E" subscription_clash for E :: seller_env
begin

lemma resolve_same: "resolveSeller E h w = (r, w') \<Longrightarrow> w' = w"
  unfolding resolveSeller_def
  by (cases r) (auto simp: run_simps split: option.splits list.splits dest!: L.findMany_same)

lemma resolve_Inr:
  assumes "resolveSeller E h w = (Inr found, w')"
  shows "(\<exists>t. h = Some (''Bearer '' @ t) \<and> t \<noteq> '''' \<and>
       found = List.find (\<lambda>s. sl_sha256 E t = se_apiKeyHash s) (filter se_active (sellers w))) \<or>
     (found = None \<and> (\<forall>t. h = Some (''Bearer '' @ t) \<longrightarrow> t = ''''))"
proof (cases "extractBearerToken h")
  case None
  then have "\<And>t. h \<noteq> Some (''Bearer '' @ t)" using bearer_iff by (metis option.distinct(1))
  then show ?thesis using assms None by (simp add: resolveSeller_def ret_def)
next
  case (Some t)
  then have h: "h = Some (''Bearer '' @ t)" using bearer_iff by blast
  show ?thesis
  proof (cases t)
    case Nil
    then show ?thesis using assms Some h by (simp add: resolveSeller_def ret_def)
  next
    case (Cons c cs)
    then have "found = List.find (\<lambda>s. sl_sha256 E t = se_apiKeyHash s) (filter se_active (sellers w))"
      using assms Some unfolding resolveSeller_def
      by (auto simp: run_simps verifyApiKey_iff dest!: L.findMany_run)
    then show ?thesis using h Cons by blast
  qed
qed

lemma resolve_Some:
  assumes "resolveSeller E h w = (Inr (Some s), w')"
  shows "\<exists>t. h = Some (''Bearer '' @ t) \<and> s \<in> set (sellers w) \<and> se_active s \<and> se_apiKeyHash s = sl_sha256 E t"
  using resolve_Inr [OF assms] by (auto dest!: find_first_Some [OF sym])

end

lemma zelements_set:
  "zelements i sch xs = Inr ys \<Longrightarrow> y \<in> set ys \<Longrightarrow> \<exists>x\<in>set xs. sch (Some x) = Inr y"
proof (induction xs arbitrary: i ys)
  case (Cons x xs)
  then obtain z zs where z: "sch (Some x) = Inr z" "zelements (Suc i) sch xs = Inr zs" "ys = z # zs"
    by (auto simp: zmap_def split: sum.splits)
  show ?case
  proof (cases "y = z")
    case True
    then show ?thesis using z(1) by auto
  next
    case False
    then have "y \<in> set zs" using Cons.prems(2) z(3) by simp
    from Cons.IH [OF z(2) this] show ?thesis by auto
  qed
qed simp

lemma zevents_ok:
  assumes "zevents v = Inr es"
  shows "set es \<subseteq> set webhook_events"
proof
  fix e assume e: "e \<in> set es"
  from assms obtain xs where "zelements 0 (zstring (\<lambda>s. s \<in> set webhook_events)) xs = Inr es"
    unfolding zevents_def by (auto simp del: zelements.simps split: option.splits json.splits list.splits)
  from zelements_set [OF this e] show "e \<in> set webhook_events" by auto
qed

lemma create_body_events: "CreateWebhookBody N v = Inr b \<Longrightarrow> set (cb_events b) \<subseteq> set webhook_events"
  by (auto simp: CreateWebhookBody_def create_webhook_body.defs dest!: zevents_ok)

lemma event_not_registered: "event_name e \<notin> set webhook_events"
  by (cases e) (simp_all add: event_name_def webhook_events_def)

lemma find_unique:
  assumes "s \<in> set xs" and "p s" and "\<And>x. x \<in> set xs \<Longrightarrow> p x \<Longrightarrow> x = s"
  shows "List.find p xs = Some s"
proof (cases "List.find p xs")
  case None
  then show ?thesis using assms(1,2) by (auto simp: find_None_iff)
next
  case (Some x)
  then show ?thesis using assms(3) find_first_Some [OF Some] by blast
qed

context seller_tables
begin

lemma register_runs:
  assumes "registerSeller E raw random ulid clock w = (Inr r, w')"
  shows "(reply_status r = Some 400 \<and> w' = w) \<or>
    (\<exists>b t. RegisterSellerBody (sl_net E) (Some raw) = Inr b \<and>
       webhook_url_check (sl_net E) (rb_webhookUrl b) = Inr () \<and>
       (\<forall>q\<in>set (sellers w). \<not> seller_clash (registered_row (sl_sha256 E) b random ulid clock) q) \<and>
       w' = w\<lparr>sellers := sellers w @ [registered_row (sl_sha256 E) b random ulid clock]\<rparr> \<and>
       r = mk_reply 201 (registered_json (registered_row (sl_sha256 E) b random ulid clock) (''fac_'' @ random) t))"
proof (cases "RegisterSellerBody (sl_net E) (Some raw)")
  case (Inl iss)
  then show ?thesis using assms by (auto simp: registerSeller_def ret_def bad_payload_def)
next
  case body: (Inr b)
  let ?s = "registered_row (sl_sha256 E) b random ulid clock"
  show ?thesis
  proof (cases "webhook_url_check (sl_net E) (rb_webhookUrl b)")
    case (Inl e)
    then show ?thesis using assms body by (auto simp: registerSeller_def ret_def bad_webhook_url_def)
  next
    case url: (Inr u)
    with assms body obtain s rs t where c: "db_create (sl_seller E) ?s (sellers w) = (Inr s, rs)"
      and r: "r = mk_reply 201 (registered_json s (gk_raw (generateApiKey (sl_sha256 E) random)) t)"
      and w': "w' = w\<lparr>sellers := rs\<rparr>"
      by (auto simp: registerSeller_def run_simps)
    then have "r = mk_reply 201 (registered_json s (''fac_'' @ random) t)" by (simp add: generateApiKey_def Let_def)
    moreover have "u = ()" by simp
    ultimately show ?thesis using body url w' L.create_ok [OF c] by blast
  qed
qed

lemma found_active:
  assumes "resolveSeller E (Some (''Bearer '' @ t)) w = (Inr found, w'')" and "t \<noteq> ''''"
  shows "found = List.find (\<lambda>s. sl_sha256 E t = se_apiKeyHash s) (filter se_active (sellers w))"
  using resolve_Inr [OF assms(1)] assms(2) by auto

end

section \<open>Properties\<close>

text \<open>C38. Registration and authentication: a registration that is refused with 400 writes nothing;
  otherwise the seller returned is new, and the reply carries its identifier and its key; that key
  resolves to it and to nobody else, only the hash of the key is stored, and its wallet address is the text of its identifier in hexadecimal.\<close>

theorem register_then_authenticate:
  assumes "seller_tables E" and "registerSeller E raw random ulid clock w = (Inr r, w')"
  shows "(reply_status r = Some 400 \<and> w' = w) \<or>
    (reply_status r = Some 201 \<and> json_get (reply_body r) ''apiKey'' = Some (JStr (''fac_'' @ random)) \<and>
      (\<exists>s. json_get (reply_body r) ''sellerId'' = Some (JStr (se_id s)) \<and> w' = w\<lparr>sellers := sellers w @ [s]\<rparr> \<and> se_active s \<and>
       se_id s = ''seller_'' @ ulid \<and> se_id s \<notin> se_id ` set (sellers w) \<and>
       se_apiKeyHash s = sl_sha256 E (''fac_'' @ random) \<and> se_walletAddress s = wallet_of (se_id s) \<and>
       (\<forall>found w''. resolveSeller E (Some (''Bearer fac_'' @ random)) w' = (Inr found, w'') \<longrightarrow> found = Some s \<and> w'' = w') \<and>
       (\<forall>t w''. resolveSeller E (Some (''Bearer '' @ t)) w' = (Inr (Some s), w'') \<longrightarrow>
          sl_sha256 E t = sl_sha256 E (''fac_'' @ random))))"
proof (cases "reply_status r = Some 400 \<and> w' = w")
  case False
  with seller_tables.register_runs [OF assms] obtain b t where
    new: "\<forall>q\<in>set (sellers w). \<not> seller_clash (registered_row (sl_sha256 E) b random ulid clock) q"
    and w': "w' = w\<lparr>sellers := sellers w @ [registered_row (sl_sha256 E) b random ulid clock]\<rparr>"
    and r: "r = mk_reply 201 (registered_json (registered_row (sl_sha256 E) b random ulid clock) (''fac_'' @ random) t)"
    by blast
  define s where "s = registered_row (sl_sha256 E) b random ulid clock"
  have s: "se_active s" "se_id s = ''seller_'' @ ulid" "se_apiKeyHash s = sl_sha256 E (''fac_'' @ random)"
    "se_walletAddress s = wallet_of (se_id s)"
    by (simp_all add: s_def registered_row_def generateSellerId_def generateApiKey_def Let_def)
  have only: "x = s" if "x \<in> set (sellers w')" "se_apiKeyHash x = se_apiKeyHash s" for x
    using that new w' unfolding s_def [symmetric] by (auto simp: seller_clash_def)
  have "found = Some s \<and> w'' = w'"
    if run: "resolveSeller E (Some (''Bearer fac_'' @ random)) w' = (Inr found, w'')" for found w''
  proof -
    have "found = List.find (\<lambda>s. sl_sha256 E (''fac_'' @ random) = se_apiKeyHash s) (filter se_active (sellers w'))"
      using seller_tables.found_active [OF assms(1), of "''fac_'' @ random"] run by simp
    moreover have "List.find (\<lambda>s. sl_sha256 E (''fac_'' @ random) = se_apiKeyHash s) (filter se_active (sellers w')) = Some s"
    proof (rule find_unique)
      show "s \<in> set (filter se_active (sellers w'))" using s(1) w' by (simp add: s_def)
    qed (use only s(3) in auto)
    ultimately show ?thesis using seller_tables.resolve_same [OF assms(1) run] by simp
  qed
  moreover have "sl_sha256 E t = sl_sha256 E (''fac_'' @ random)"
    if "resolveSeller E (Some (''Bearer '' @ t)) w' = (Inr (Some s), w'')" for t w''
    using seller_tables.resolve_Some [OF assms(1) that] s(3) by auto
  moreover have "se_id s \<notin> se_id ` set (sellers w)"
    using new unfolding s_def [symmetric] by (auto simp: seller_clash_def)
  moreover have "reply_status r = Some 201" using r by simp
  moreover have "json_get (reply_body r) ''apiKey'' = Some (JStr (''fac_'' @ random))"
    "json_get (reply_body r) ''sellerId'' = Some (JStr (se_id s))"
    using r by (simp_all add: registered_json_def mk_reply_def s_def)
  moreover have "w' = w\<lparr>sellers := sellers w @ [s]\<rparr>" using w' by (simp add: s_def)
  ultimately show ?thesis using s by blast
qed simp

definition sample_sellers :: seller_env where
  "sample_sellers =
     \<lparr>sl_seller = table_of seller_clash, sl_subscription = table_of subscription_clash, sl_net = sample_net,
      sl_sha256 = rev, sl_cipher = xor_cipher, sl_key = sample_key, sl_issueText = (\<lambda>_. Some ''Required'')\<rparr>"

lemma sample_sellers_ok: "seller_tables sample_sellers"
  by (simp add: seller_tables_def sample_sellers_def table_of_prisma)

interpretation shop: seller_tables sample_sellers
  by (rule sample_sellers_ok)

theorem register_then_authenticate_witness:
  "case registerSeller sample_sellers (JObj [(''name'', JStr ''Shop'')]) ''00'' ''01'' 0 empty_world of
     (r, w') \<Rightarrow> \<exists>reply s. r = Inr reply \<and> reply_status reply = Some 201 \<and> sellers w' = [s] \<and>
       resolveSeller sample_sellers (Some ''Bearer fac_00'') w' = (Inr (Some s), w')"
proof -
  obtain t where t: "toISOString 0 = Some t" using toISOString_Some_iff [of 0] by (auto simp: valid_time_def)
  obtain r w' where run: "registerSeller sample_sellers (JObj [(''name'', JStr ''Shop'')]) ''00'' ''01'' 0 empty_world = (Inr r, w')"
    and r: "reply_status r = Some 201"
    by (simp add: registerSeller_def RegisterSellerBody_def zobject_def zand_def zfield_def zstring_def zoptional_def
        zmap_def zurl_def webhook_url_check_def register_body.defs sample_sellers_def table_of_def seq_def on_sellers_def zoom_def
        empty_world_def iso_def registered_row_def t ret_def)
  from register_then_authenticate [OF sample_sellers_ok run] r obtain s where
    s: "w' = empty_world\<lparr>sellers := [s]\<rparr>"
      "\<And>found w''. resolveSeller sample_sellers (Some (''Bearer fac_'' @ ''00'')) w' = (Inr found, w'') \<Longrightarrow>
         found = Some s \<and> w'' = w'"
    by (auto simp: empty_world_def)
  obtain found w'' where "resolveSeller sample_sellers (Some (''Bearer fac_'' @ ''00'')) w' = (Inr found, w'')"
    by (simp add: resolveSeller_def extractBearerToken_def startsWith_def sample_sellers_def table_of_def seq_def on_sellers_def zoom_def ret_def)
  with s run r show ?thesis by (auto simp: empty_world_def)
qed

context seller_tables
begin

lemma createWebhook_runs:
  assumes "createWebhook E h raw ulid random iv clock w = (Inr r, w')"
  shows "(w' = w \<and> reply_status r \<noteq> Some 201) \<or>
    (\<exists>s t b stored. h = Some (''Bearer '' @ t) \<and> s \<in> set (sellers w) \<and> se_active s \<and>
       se_apiKeyHash s = sl_sha256 E t \<and> CreateWebhookBody (sl_net E) (Some raw) = Inr b \<and>
       assertSafeWebhookUrl (sl_net E) (cb_url b) = Inr () \<and>
       encryptWebhookSecret (sl_cipher E) (sl_key E) iv (''whsec_'' @ random) = Inr stored \<and>
       w' = w\<lparr>subscriptions := subscriptions w @ [subscription_row ulid (se_id s) b stored clock]\<rparr> \<and> reply_status r = Some 201)"
proof -
  from assms obtain found w1 where res: "resolveSeller E h w = (Inr found, w1)"
    by (auto simp: createWebhook_def seq_Inr)
  have w1: "w1 = w" by (rule resolve_same [OF res])
  show ?thesis
  proof (cases found)
    case None
    then show ?thesis using assms res w1 by (auto simp: createWebhook_def seq_Inr ret_eq no_seller_def)
  next
    case found: (Some s)
    show ?thesis
    proof (cases "CreateWebhookBody (sl_net E) (Some raw)")
      case (Inl iss)
      then show ?thesis using assms res w1 found by (auto simp: createWebhook_def seq_Inr ret_eq bad_payload_def)
    next
      case body: (Inr b)
      show ?thesis
      proof (cases "assertSafeWebhookUrl (sl_net E) (cb_url b)")
        case (Inl e)
        then show ?thesis using assms res w1 found body
          by (auto simp: createWebhook_def seq_Inr ret_eq bad_webhook_url_def)
      next
        case url: (Inr u)
        obtain t where t: "h = Some (''Bearer '' @ t)" "s \<in> set (sellers w)" "se_active s" "se_apiKeyHash s = sl_sha256 E t"
          using resolve_Some res found by blast
        from assms res w1 found body url obtain stored row rs where
          st: "encryptWebhookSecret (sl_cipher E) (sl_key E) iv (''whsec_'' @ random) = Inr stored"
          and c: "db_create (sl_subscription E)
            (subscription_row ulid (se_id s) b stored clock) (subscriptions w) = (Inr row, rs)"
          and r: "w' = w\<lparr>subscriptions := rs\<rparr>" "reply_status r = Some 201"
          by (auto simp: createWebhook_def run_simps generateWebhookSecret_def)
        have u: "u = ()" by simp
        show ?thesis using t body url st r W.create_ok [OF c] unfolding u by blast
      qed
    qed
  qed
qed

end

text \<open>A webhook subscription is created only for an authenticated active seller, under that seller's
  identifier, for a URL that passes the SSRF guard, and with the secret stored encrypted: the
  row decrypts to the secret that was returned. Any other request writes nothing.\<close>

theorem webhook_created_for_seller:
  assumes "seller_tables E" and "gcm (sl_cipher E)" and "\<forall>b\<in>set iv. b < 256"
    and "createWebhook E h raw ulid random iv clock w = (Inr r, w')"
  shows "(w' = w \<and> reply_status r \<noteq> Some 201) \<or>
    (reply_status r = Some 201 \<and> (\<exists>s row. s \<in> set (sellers w) \<and> se_active s \<and>
       (\<exists>t. h = Some (''Bearer '' @ t) \<and> se_apiKeyHash s = sl_sha256 E t) \<and>
       w' = w\<lparr>subscriptions := subscriptions w @ [row]\<rparr> \<and> ws_sellerId row = se_id s \<and>
       assertSafeWebhookUrl (sl_net E) (ws_url row) = Inr () \<and>
       decryptWebhookSecret (sl_cipher E) (sl_key E) (ws_secret row) = Inr (''whsec_'' @ random)))"
proof (cases "w' = w \<and> reply_status r \<noteq> Some 201")
  case False
  with seller_tables.createWebhook_runs [OF assms(1,4)] obtain s t b stored where
    s: "h = Some (''Bearer '' @ t)" "s \<in> set (sellers w)" "se_active s" "se_apiKeyHash s = sl_sha256 E t"
    and url: "assertSafeWebhookUrl (sl_net E) (cb_url b) = Inr ()"
    and st: "encryptWebhookSecret (sl_cipher E) (sl_key E) iv (''whsec_'' @ random) = Inr stored"
    and w': "w' = w\<lparr>subscriptions := subscriptions w @ [subscription_row ulid (se_id s) b stored clock]\<rparr>" and r: "reply_status r = Some 201"
    by blast
  define row where "row = subscription_row ulid (se_id s) b stored clock"
  have "ws_sellerId row = se_id s" "ws_url row = cb_url b" "ws_secret row = stored" by (simp_all add: row_def subscription_row_def)
  moreover have "decryptWebhookSecret (sl_cipher E) (sl_key E) stored = Inr (''whsec_'' @ random)"
    using secret_decrypts [OF assms(2,3) st] .
  ultimately show ?thesis using s url w' r unfolding row_def by metis
qed simp

lemma sample_sellers_simps:
  "sl_net sample_sellers = sample_net" "sl_cipher sample_sellers = xor_cipher" "sl_key sample_sellers = sample_key"
  "db_create (sl_subscription sample_sellers) r [] = (Inr r, [r])"
  by (simp_all add: sample_sellers_def table_of_def)

definition sample_seller :: seller_row where
  "sample_seller = \<lparr>se_id = ''seller_01'', se_name = ''Shop'', se_apiKeyHash = rev ''fac_00'', se_walletAddress = ''0x'',
     se_referralCode = None, se_deviceType = server, se_webhookUrl = None, se_active = True, se_createdAt = 0\<rparr>"

definition sample_hook_body :: json where
  "sample_hook_body = JObj [(''url'', JStr ''https://shop.example/hook''), (''events'', JArr [JStr ''verify.accepted''])]"

definition sample_shop :: world where
  "sample_shop = empty_world\<lparr>sellers := [sample_seller]\<rparr>"

lemma sample_create:
  "\<exists>r w'. createWebhook sample_sellers (Some ''Bearer fac_00'') sample_hook_body ''02'' ''k'' (replicate 12 7) 0 sample_shop
     = (Inr r, w') \<and> reply_status r = Some 201"
proof -
  obtain t where t: "toISOString 0 = Some t" using toISOString_Some_iff [of 0] by (auto simp: valid_time_def)
  have safe: "assertSafeWebhookUrl sample_net ''https://shop.example/hook'' = Inr ()"
    by (simp add: assertSafeWebhookUrl_def sample_net_def url_port_def blockedPorts_def resolved_def or_none_def
        isPrivateOrReservedIp_def startsWith_def endsWith_def class_b_def unique_local_def toLowerCase_def char_lower_def Let_def)
  have body: "CreateWebhookBody sample_net (Some sample_hook_body) =
      Inr \<lparr>cb_url = ''https://shop.example/hook'', cb_events = [''verify.accepted'']\<rparr>"
    by (simp add: CreateWebhookBody_def sample_hook_body_def zevents_def webhook_events_def create_webhook_body.defs zurl_def
        sample_net_def zand_def zmap_def zfield_def zstring_def zobject_def)
  have auth: "resolveSeller sample_sellers (Some ''Bearer fac_00'') sample_shop = (Inr (Some sample_seller), sample_shop)"
    by (simp add: resolveSeller_def extractBearerToken_def startsWith_def sample_sellers_def table_of_def run_simps
        sample_shop_def empty_world_def sample_seller_def verifyApiKey_iff)
  have none: "subscriptions sample_shop = []" by (simp add: sample_shop_def empty_world_def)
  obtain stored where st: "encryptWebhookSecret xor_cipher sample_key (replicate 12 7) ''whsec_k'' = Inr stored"
    by (simp add: encryptWebhookSecret_def getEncryptionKey_def sample_key_def xor_cipher_def str_bytes_def)
  show ?thesis
    using body safe st t
    by (simp add: createWebhook_def seq_def auth sample_sellers_simps generateWebhookSecret_def ret_def of_sum_def iso_def
        subscription_row_def none on_subscriptions_def zoom_def)
qed

theorem webhook_created_for_seller_witness:
  "\<exists>w' row. snd (createWebhook sample_sellers (Some ''Bearer fac_00'') sample_hook_body ''02'' ''k'' (replicate 12 7) 0 sample_shop) = w' \<and>
     subscriptions w' = [row] \<and> ws_sellerId row = ''seller_01'' \<and>
     decryptWebhookSecret xor_cipher sample_key (ws_secret row) = Inr ''whsec_k''"
proof -
  obtain r w' where run: "createWebhook sample_sellers (Some ''Bearer fac_00'') sample_hook_body ''02'' ''k'' (replicate 12 7) 0 sample_shop
     = (Inr r, w')" and r: "reply_status r = Some 201" using sample_create by blast
  have c: "gcm (sl_cipher sample_sellers)" "sl_cipher sample_sellers = xor_cipher" "sl_key sample_sellers = sample_key"
    by (simp_all add: sample_sellers_def xor_gcm_ok)
  have b: "\<forall>b\<in>set (replicate 12 7). b < (256 :: nat)" by simp
  from webhook_created_for_seller [OF sample_sellers_ok c(1) b run] r obtain s row where
    "s \<in> set (sellers sample_shop)" "w' = sample_shop\<lparr>subscriptions := subscriptions sample_shop @ [row]\<rparr>"
    "ws_sellerId row = se_id s" "decryptWebhookSecret xor_cipher sample_key (ws_secret row) = Inr (''whsec_'' @ ''k'')"
    unfolding c by blast
  then show ?thesis using run by (simp add: sample_shop_def empty_world_def sample_seller_def)
qed

text \<open>No event is ever sent to a subscription made through the API: the events a seller can subscribe to
  have none of the names the notifications use, so in a table whose subscriptions were all
  created by \<open>POST /webhooks\<close> a notification finds none, stores nothing and queues nothing.\<close>

theorem webhook_never_notified:
  assumes "seller_tables E" and "prisma_table (nt_subscription N) subscription_clash"
    and "\<forall>s\<in>set (subscriptions w). set (ws_events s) \<subseteq> set webhook_events"
    and "createWebhook E h raw ulid random iv clock w = (Inr r, w')"
    and "notify N opts did now later \<lparr>hk_subscriptions = subscriptions w', hk_deliveries = ds, hk_jobs = js\<rparr> = (Inr u, hk)"
  shows "(\<forall>s\<in>set (subscriptions w'). set (ws_events s) \<subseteq> set webhook_events) \<and>
    hk = \<lparr>hk_subscriptions = subscriptions w', hk_deliveries = ds, hk_jobs = js\<rparr>"
proof -
  have ev: "\<forall>s\<in>set (subscriptions w'). set (ws_events s) \<subseteq> set webhook_events"
  proof (cases "w' = w")
    case False
    with seller_tables.createWebhook_runs [OF assms(1,4)] obtain s :: seller_row and b stored where
      b: "CreateWebhookBody (sl_net E) (Some raw) = Inr b"
      and w': "w' = w\<lparr>subscriptions := subscriptions w @ [subscription_row ulid (se_id s) b stored clock]\<rparr>"
      by blast
    have "set (ws_events (subscription_row ulid (se_id s) b stored clock)) \<subseteq> set webhook_events"
      using create_body_events [OF b] by (simp add: subscription_row_def)
    then show ?thesis using assms(3) w' by simp
  qed (use assms(3) in simp)
  obtain found where found: "db_find (nt_subscription N)
      (\<lambda>s. ws_sellerId s = no_sellerId opts \<and> ws_active s \<and> event_name (no_event opts) \<in> set (ws_events s))
      (subscriptions w') = (Inr found, subscriptions w')"
    using assms(5) by (auto simp: notify_def seq_Inr on_subs_def zoom_eq dest: prisma_table.find_same [OF assms(2)])
  have "found = None"
  proof (cases found)
    case (Some s)
    then have "s \<in> set (subscriptions w')" "event_name (no_event opts) \<in> set (ws_events s)"
      using prisma_table.find_Some [OF assms(2)] found by blast+
    then show ?thesis using ev event_not_registered by blast
  qed simp
  then show ?thesis using assms(5) found ev by (auto simp: notify_def seq_Inr on_subs_def zoom_eq ret_eq)
qed

definition sample_notify :: notify_env where
  "sample_notify = \<lparr>nt_subscription = table_of subscription_clash, nt_delivery = table_of (\<lambda>r q. wd_id r = wd_id q), nt_add = bull_add\<rparr>"

definition sample_notice :: notify_options where
  "sample_notice = \<lparr>no_sellerId = ''seller_01'', no_event = PaymentVerified, no_requestId = ''r'', no_verificationId = None,
     no_settlementId = None, no_txHash = None, no_receiptId = None, no_network = None, no_asset = None,
     no_amount = None, no_feeAmount = None\<rparr>"

theorem webhook_never_notified_witness:
  "\<exists>w' hk. snd (createWebhook sample_sellers (Some ''Bearer fac_00'') sample_hook_body ''02'' ''k'' (replicate 12 7) 0 sample_shop) = w' \<and>
     length (subscriptions w') = 1 \<and>
     notify sample_notify sample_notice ''d'' 0 0 \<lparr>hk_subscriptions = subscriptions w', hk_deliveries = [], hk_jobs = []\<rparr> = (Inr (), hk) \<and>
     hk_jobs hk = []"
proof -
  obtain r w' where run: "createWebhook sample_sellers (Some ''Bearer fac_00'') sample_hook_body ''02'' ''k'' (replicate 12 7) 0 sample_shop
     = (Inr r, w')" and r: "reply_status r = Some 201" using sample_create by blast
  have t: "prisma_table (nt_subscription sample_notify) subscription_clash" by (simp add: sample_notify_def table_of_prisma)
  have none: "subscriptions sample_shop = []" by (simp add: sample_shop_def empty_world_def)
  have one: "length (subscriptions w') = 1"
    using seller_tables.createWebhook_runs [OF sample_sellers_ok run] r none by auto
  obtain u hk where n: "notify sample_notify sample_notice ''d'' 0 0 \<lparr>hk_subscriptions = subscriptions w', hk_deliveries = [], hk_jobs = []\<rparr> = (Inr u, hk)"
  proof -
    obtain t where t: "toISOString 0 = Some t" using toISOString_Some_iff [of 0] by (auto simp: valid_time_def)
    define found where "found = List.find (\<lambda>s. ws_sellerId s = no_sellerId sample_notice \<and> ws_active s \<and>
       event_name (no_event sample_notice) \<in> set (ws_events s)) (subscriptions w')"
    have "\<exists>u hk. notify sample_notify sample_notice ''d'' 0 0 \<lparr>hk_subscriptions = subscriptions w', hk_deliveries = [], hk_jobs = []\<rparr> = (Inr u, hk)"
      by (cases found) (simp_all add: notify_def seq_def on_subs_def zoom_def sample_notify_def table_of_def on_dels_def on_jobs_def
          iso_def t ret_def enqueueWebhook_def bull_add_def found_def [symmetric])
    then show ?thesis using that by blast
  qed
  have e: "\<forall>s\<in>set (subscriptions sample_shop). set (ws_events s) \<subseteq> set webhook_events" by (simp add: none)
  from webhook_never_notified [OF sample_sellers_ok t e run n] n run one show ?thesis by simp
qed

text \<open>Deleting a webhook needs an authenticated active seller and removes no row of another seller.\<close>

theorem delete_isolated:
  assumes "seller_tables E" and run: "deleteWebhook E h wid w = (Inr r, w')"
  shows "(reply_status r = Some 401 \<and> w' = w) \<or>
      (reply_status r = Some 204 \<and> (\<exists>s t. h = Some (''Bearer '' @ t) \<and> s \<in> set (sellers w) \<and> se_active s \<and>
         se_apiKeyHash s = sl_sha256 E t \<and>
         w' = w\<lparr>subscriptions := filter (\<lambda>x. \<not> (ws_id x = wid \<and> ws_sellerId x = se_id s)) (subscriptions w)\<rparr>))"
proof -
  from run obtain found w1 where res: "resolveSeller E h w = (Inr found, w1)" by (auto simp: deleteWebhook_def seq_Inr)
  have w1: "w1 = w" by (rule seller_tables.resolve_same [OF assms(1) res])
  show ?thesis
  proof (cases found)
    case None
    then show ?thesis using run res w1 by (auto simp: deleteWebhook_def seq_Inr ret_eq no_seller_def)
  next
    case (Some s)
    with res obtain t where "h = Some (''Bearer '' @ t)" "s \<in> set (sellers w)" "se_active s" "se_apiKeyHash s = sl_sha256 E t"
      using seller_tables.resolve_Some [OF assms(1)] by blast
    moreover from run res w1 Some obtain n rs where
      d: "db_deleteMany (sl_subscription E) (\<lambda>x. ws_id x = wid \<and> ws_sellerId x = se_id s) (subscriptions w) = (Inr n, rs)"
      and "w' = w\<lparr>subscriptions := rs\<rparr>" "reply_status r = Some 204"
      by (auto simp: deleteWebhook_def run_simps)
    ultimately show ?thesis using prisma_table.deleteMany_ok [OF seller_tables.axioms(2) [OF assms(1)] d] by blast
  qed
qed

text \<open>A key is rotated only for the active seller it authenticates: that row gets the hash of the new
  key, which resolves to it from then on, the old key resolves to nobody, and every other row is
  as before.\<close>

theorem rotate_key:
  assumes "seller_tables E" and run: "rotateKey E h random clock w = (Inr r, w')"
    and distinct: "distinct (map se_id (sellers w))" "distinct (map se_apiKeyHash (sellers w))"
    and fresh: "sl_sha256 E (''fac_'' @ random) \<notin> se_apiKeyHash ` set (sellers w)"
  shows "(reply_status r = Some 401 \<and> w' = w) \<or>
      (reply_status r = Some 200 \<and> (\<exists>s t us vs. h = Some (''Bearer '' @ t) \<and> se_active s \<and> se_apiKeyHash s = sl_sha256 E t \<and>
         sellers w = us @ s # vs \<and>
         w' = w\<lparr>sellers := us @ s\<lparr>se_apiKeyHash := sl_sha256 E (''fac_'' @ random)\<rparr> # vs\<rparr> \<and>
         (\<forall>found w''. resolveSeller E h w' = (Inr found, w'') \<longrightarrow> found = None) \<and>
         (\<forall>found w''. resolveSeller E (Some (''Bearer fac_'' @ random)) w' = (Inr found, w'') \<longrightarrow>
            found = Some (s\<lparr>se_apiKeyHash := sl_sha256 E (''fac_'' @ random)\<rparr>))))"
proof -
  let ?new = "sl_sha256 E (''fac_'' @ random)"
  from run obtain found w1 where res: "resolveSeller E h w = (Inr found, w1)" by (auto simp: rotateKey_def seq_Inr)
  have w1: "w1 = w" by (rule seller_tables.resolve_same [OF assms(1) res])
  show ?thesis
  proof (cases found)
    case None
    then show ?thesis using run res w1 by (auto simp: rotateKey_def seq_Inr ret_eq)
  next
    case (Some s)
    with res obtain t where t: "h = Some (''Bearer '' @ t)" "s \<in> set (sellers w)" "se_active s" "se_apiKeyHash s = sl_sha256 E t"
      using seller_tables.resolve_Some [OF assms(1)] by blast
    from run res w1 Some obtain x rs where
      d: "db_update (sl_seller E) (\<lambda>x. se_id x = se_id s) (\<lambda>x. x\<lparr>se_apiKeyHash := gk_hash (generateApiKey (sl_sha256 E) random)\<rparr>)
            (sellers w) = (Inr x, rs)"
      and w': "w' = w\<lparr>sellers := rs\<rparr>" and st: "reply_status r = Some 200"
      by (auto simp: rotateKey_def run_simps)
    from prisma_table.update_ok [OF seller_tables.axioms(1) [OF assms(1)] d] obtain us v vs where
      sp: "sellers w = us @ v # vs" "se_id v = se_id s" "rs = us @ v\<lparr>se_apiKeyHash := ?new\<rparr> # vs"
      by (auto simp: generateApiKey_def Let_def)
    have "v = s" using t(2) sp(1,2) distinct(1) by (auto simp: image_iff)
    note sp = sp [unfolded this]
    have old: "\<forall>q\<in>set rs. se_apiKeyHash q \<noteq> sl_sha256 E t"
      using distinct(2) fresh t(4) sp(1) by (auto simp: sp(3) image_iff)
    have new: "q = s\<lparr>se_apiKeyHash := ?new\<rparr>" if "q \<in> set rs" "se_apiKeyHash q = ?new" for q
    proof -
      have "\<forall>q\<in>set us \<union> set vs. se_apiKeyHash q \<noteq> ?new"
      proof
        fix x assume "x \<in> set us \<union> set vs"
        then have "se_apiKeyHash x \<in> se_apiKeyHash ` set (sellers w)" using sp(1) by auto
        with fresh show "se_apiKeyHash x \<noteq> ?new" by metis
      qed
      moreover have "q = s\<lparr>se_apiKeyHash := ?new\<rparr> \<or> q \<in> set us \<union> set vs" using that(1) sp(3) by auto
      ultimately show ?thesis using that(2) by blast
    qed
    have "found' = None" if "resolveSeller E h w' = (Inr found', w'')" for found' w''
    proof (cases found')
      case (Some x)
      from seller_tables.resolve_Some [OF assms(1) that [unfolded Some]] old t(1) w' show ?thesis by auto
    qed simp
    moreover have "found' = Some (s\<lparr>se_apiKeyHash := ?new\<rparr>)"
      if "resolveSeller E (Some (''Bearer fac_'' @ random)) w' = (Inr found', w'')" for found' w''
    proof -
      have "found' = List.find (\<lambda>q. ?new = se_apiKeyHash q) (filter se_active (sellers w'))"
        using seller_tables.found_active [OF assms(1), of "''fac_'' @ random"] that by simp
      also have "\<dots> = Some (s\<lparr>se_apiKeyHash := ?new\<rparr>)"
        by (rule find_unique) (use t(3) w' sp(3) new in auto)
      finally show ?thesis .
    qed
    ultimately show ?thesis using t sp w' st by blast
  qed
qed

theorem rotate_key_witness:
  "\<exists>r w' s'. rotateKey sample_sellers (Some ''Bearer fac_00'') ''11'' 0 sample_shop = (Inr r, w') \<and> reply_status r = Some 200 \<and>
     resolveSeller sample_sellers (Some ''Bearer fac_00'') w' = (Inr None, w') \<and>
     resolveSeller sample_sellers (Some ''Bearer fac_11'') w' = (Inr (Some s'), w') \<and> se_id s' = ''seller_01''"
proof -
  obtain t where t: "toISOString 0 = Some t" using toISOString_Some_iff [of 0] by (auto simp: valid_time_def)
  have sha: "sl_sha256 sample_sellers = rev" by (simp add: sample_sellers_def)
  have find: "db_findMany (sl_seller sample_sellers) p rs = (Inr (filter p rs), rs)" for p rs
    by (simp add: sample_sellers_def table_of_def)
  have auth: "resolveSeller sample_sellers (Some ''Bearer fac_00'') sample_shop = (Inr (Some sample_seller), sample_shop)"
    by (simp add: resolveSeller_def extractBearerToken_def startsWith_def find run_simps
        sample_shop_def empty_world_def sample_seller_def verifyApiKey_iff sha)
  have upd: "db_update (sl_seller sample_sellers) p f [x] = (if p x then (Inr (f x), [f x]) else (Inl (CodedError ''P2025'' ''''), [x]))" for p f x
    by (simp add: sample_sellers_def table_of_def)
  have one: "sellers sample_shop = [sample_seller]" by (simp add: sample_shop_def)
  obtain r w' where run: "rotateKey sample_sellers (Some ''Bearer fac_00'') ''11'' 0 sample_shop = (Inr r, w')"
    and r: "reply_status r = Some 200"
    by (simp add: rotateKey_def seq_def auth Let_def on_sellers_def zoom_def upd one iso_def t ret_def)
  have d: "distinct (map se_id (sellers sample_shop))" "distinct (map se_apiKeyHash (sellers sample_shop))"
    "sl_sha256 sample_sellers (''fac_'' @ ''11'') \<notin> se_apiKeyHash ` set (sellers sample_shop)"
    by (simp_all add: one sample_seller_def sample_sellers_def)
  from rotate_key [OF sample_sellers_ok run d] r obtain s t us vs where
    s: "sellers sample_shop = us @ s # vs"
      "\<And>found w''. resolveSeller sample_sellers (Some ''Bearer fac_00'') w' = (Inr found, w'') \<Longrightarrow> found = None"
      "\<And>found w''. resolveSeller sample_sellers (Some (''Bearer fac_'' @ ''11'')) w' = (Inr found, w'') \<Longrightarrow>
         found = Some (s\<lparr>se_apiKeyHash := sl_sha256 sample_sellers (''fac_'' @ ''11'')\<rparr>)"
    by auto
  have id: "se_id s = ''seller_01''" using s(1) one by (cases us) (auto simp: sample_seller_def)
  have "\<exists>found. resolveSeller sample_sellers (Some (''Bearer '' @ c # cs)) w' = (Inr found, w')" for c cs
    by (simp add: resolveSeller_def extractBearerToken_def startsWith_def find seq_def on_sellers_def zoom_def ret_def)
  from this [of "CHR ''f''" "''ac_00''"] this [of "CHR ''f''" "''ac_11''"] s(2,3) id run r
  show ?thesis by fastforce
qed

text \<open>The hooks let a request pass with a seller only when the seller is active and its key was given:
  \<open>requireSellerAuth\<close> and \<open>optionalSellerAuth\<close> compare the hash of the key, while
  \<open>sellerAuthHook\<close> demands the stored hash itself, so that a seller's own key is refused unless
  it equals its own hash. None of them writes anything.\<close>

theorem auth_hooks_sound:
  assumes "seller_tables E"
  shows "(requireSellerAuth E key w = (r, w') \<or> optionalSellerAuth E key w = (r, w') \<longrightarrow> w' = w \<and> (\<exists>a. r = Inr a \<and>
      (\<forall>c. a = Pass (Some c) \<longrightarrow> (\<exists>k s. key = Some k \<and> s \<in> set (sellers w) \<and> se_active s \<and>
         se_apiKeyHash s = sl_sha256 E k \<and> c = context_of (toPublic s))))) \<and>
    (sellerAuthHook E key w = (h, w'') \<longrightarrow> w'' = w \<and>
      (\<forall>c. h = Inr c \<longrightarrow> (\<exists>s. key = Some (se_apiKeyHash s) \<and> s \<in> set (sellers w) \<and> se_active s \<and> hd_id c = se_id s)))"
proof -
  note L = seller_tables.axioms(1) [OF assms]
  have same: "getByApiKey E k w = (r, w') \<Longrightarrow> w' = w" for k r w'
    by (cases r) (auto simp: getByApiKey_def run_simps dest: prisma_table.find_same [OF L])
  have found: "\<exists>s. s \<in> set (sellers w) \<and> se_active s \<and> se_apiKeyHash s = sl_sha256 E k \<and> p = toPublic s"
    if "getByApiKey E k w = (Inr (Some p), w')" for k p w'
    using that by (auto simp: getByApiKey_def run_simps hashApiKey_def split: option.splits if_splits
        dest!: prisma_table.find_Some [OF L])
  have reqd: "w' = w \<and> (\<exists>a. r = Inr a \<and> (\<forall>c. a = Pass (Some c) \<longrightarrow> (\<exists>k s. key = Some k \<and> s \<in> set (sellers w) \<and>
      se_active s \<and> se_apiKeyHash s = sl_sha256 E k \<and> c = context_of (toPublic s))))"
    if "requireSellerAuth E key w = (r, w')"
    using that same found
    by (cases r; cases key) (fastforce simp: requireSellerAuth_def run_simps split: list.splits)+
  moreover have "w' = w \<and> (\<exists>a. r = Inr a \<and> (\<forall>c. a = Pass (Some c) \<longrightarrow> (\<exists>k s. key = Some k \<and> s \<in> set (sellers w) \<and>
      se_active s \<and> se_apiKeyHash s = sl_sha256 E k \<and> c = context_of (toPublic s))))"
    if "optionalSellerAuth E key w = (r, w')"
    using that same found
    by (cases r; cases key) (fastforce simp: optionalSellerAuth_def run_simps split: list.splits)+
  moreover have "w'' = w \<and> (\<forall>c. h = Inr c \<longrightarrow>
      (\<exists>s. key = Some (se_apiKeyHash s) \<and> s \<in> set (sellers w) \<and> se_active s \<and> hd_id c = se_id s))"
    if "sellerAuthHook E key w = (h, w'')"
    using that
    by (cases h) (auto simp: sellerAuthHook_def run_simps safeEqual_iff split: list.splits option.splits
        dest: prisma_table.find_same [OF L] dest!: prisma_table.find_Some [OF L])
  ultimately show ?thesis by blast
qed

theorem auth_hooks_sound_witness:
  "sellerAuthHook sample_sellers (Some ''fac_00'') sample_shop = (Inl unauthorized, sample_shop)"
proof -
  obtain h w' where run: "sellerAuthHook sample_sellers (Some ''fac_00'') sample_shop = (h, w')" by fastforce
  from auth_hooks_sound [OF sample_sellers_ok] run
  have s: "w' = sample_shop" "\<And>c. h = Inr c \<Longrightarrow> \<exists>s. ''fac_00'' = se_apiKeyHash s \<and> s \<in> set (sellers sample_shop)" by blast+
  have none: "\<not> (\<exists>s. ''fac_00'' = se_apiKeyHash s \<and> s \<in> set (sellers sample_shop))"
    by (simp add: sample_shop_def sample_seller_def)
  obtain e where e: "h = Inl e" using s(2) none by (cases h) auto
  have L: "prisma_table (sl_seller sample_sellers) seller_clash" by (rule seller_tables.axioms(1) [OF sample_sellers_ok])
  have "e = unauthorized"
    using run e by (auto simp: sellerAuthHook_def run_simps sample_sellers_def table_of_def)
  then show ?thesis using run e s(1) by simp
qed

end
