(* ===== verification/RateLimit.thy ===== *)
theory RateLimit
  imports Http Externals
begin

text \<open>
  Rate limiting: the hook per API key of \<open>infrastructure/rate-limit.ts\<close>, with its Redis counters (on
  the object \<open>redis.ts\<close> exports, which cannot count, and on one that can),
  and the route configurations of \<open>http/plugins/rate-limit.ts\<close>. The counting of
  \<open>@fastify/rate-limit\<close> itself is not part of the sources; what is modelled are the limits and
  keys the code hands to it.
\<close>

section \<open>Counters\<close>

text \<open>A counter with its value and, when it has one, the time in milliseconds at which it expires.\<close>

type_synonym counters = "string \<Rightarrow> (int \<times> int option) option"

definition alive :: "int \<Rightarrow> int option \<Rightarrow> bool" where
  "alive now e = (case e of None \<Rightarrow> True | Some t \<Rightarrow> now < t)"

lemma alive_simps [simp]: "alive now None" "alive now (Some t) \<longleftrightarrow> now < t"
  by (simp_all add: alive_def)

record counter_api =
  ct_incr :: "int \<Rightarrow> string \<Rightarrow> (counters, exn, int) prog"
  ct_expire :: "int \<Rightarrow> string \<Rightarrow> int \<Rightarrow> (counters, exn, unit) prog"

text \<open>
  \<open>INCR\<close> counts on from a live counter and keeps its expiry, and starts from zero without an
  expiry otherwise; \<open>EXPIRE\<close> sets the expiry of a live counter. A command that fails changes
  nothing.
\<close>

locale counter_store =
  fixes A :: counter_api
  assumes incr_live: "ct_incr A now k c = (Inr m, c') \<Longrightarrow> c k = Some (n, e) \<Longrightarrow> alive now e \<Longrightarrow>
      m = n + 1 \<and> c' = c(k \<mapsto> (n + 1, e))"
    and incr_new: "ct_incr A now k c = (Inr m, c') \<Longrightarrow> (\<forall>n e. c k = Some (n, e) \<longrightarrow> \<not> alive now e) \<Longrightarrow>
      m = 1 \<and> c' = c(k \<mapsto> (1, None))"
    and incr_err: "ct_incr A now k c = (Inl x, c') \<Longrightarrow> c' = c"
    and expire_live: "ct_expire A now k s c = (Inr u, c') \<Longrightarrow> c k = Some (n, e) \<Longrightarrow> alive now e \<Longrightarrow>
      c' = c(k \<mapsto> (n, Some (now + s * 1000)))"
    and expire_err: "ct_expire A now k s c = (Inl x, c') \<Longrightarrow> c' = c"

definition redis_counters :: counter_api where
  "redis_counters =
     \<lparr>ct_incr = (\<lambda>now k c. case c k of
          Some (n, e) \<Rightarrow> if alive now e then (Inr (n + 1), c(k \<mapsto> (n + 1, e))) else (Inr 1, c(k \<mapsto> (1, None)))
        | None \<Rightarrow> (Inr 1, c(k \<mapsto> (1, None)))),
      ct_expire = (\<lambda>now k s c. case c k of
          Some (n, e) \<Rightarrow> if alive now e then (Inr (), c(k \<mapsto> (n, Some (now + s * 1000)))) else (Inr (), c)
        | None \<Rightarrow> (Inr (), c))\<rparr>"

interpretation redis: counter_store redis_counters
  by unfold_locales (auto simp: redis_counters_def split: option.splits if_splits prod.splits)

lemma redis_counter_store: "counter_store redis_counters"
  by (rule redis.counter_store_axioms)

text \<open>A store whose commands never fail.\<close>

definition counters_answer :: "counter_api \<Rightarrow> bool" where
  "counters_answer A \<longleftrightarrow> (\<forall>now k c. \<exists>n c'. ct_incr A now k c = (Inr n, c')) \<and>
     (\<forall>now k s c. \<exists>c'. ct_expire A now k s c = (Inr (), c'))"

lemma redis_counters_answer: "counters_answer redis_counters"
  by (auto simp: counters_answer_def redis_counters_def split: option.splits)

section \<open>The hook per seller\<close>

definition SELLER_RATE_LIMITS :: "string \<Rightarrow> int option" where
  "SELLER_RATE_LIMITS = map_of [(''verify'', 60), (''settle'', 30), (''default'', 100)]"

definition seller_limit :: "string \<Rightarrow> int" where
  "seller_limit endpoint = (case SELLER_RATE_LIMITS endpoint of Some n \<Rightarrow> n | None \<Rightarrow> 100)"

definition alnum :: "char \<Rightarrow> bool" where
  "alnum c = (let n = of_char c :: nat in 48 \<le> n \<and> n \<le> 57 \<or> 65 \<le> n \<and> n \<le> 90 \<or> 97 \<le> n \<and> n \<le> 122)"

definition rate_key :: "string \<Rightarrow> string \<Rightarrow> string" where
  "rate_key endpoint apiKey = ''rl:seller:'' @ endpoint @ '':'' @ filter alnum (take 16 apiKey)"

text \<open>\<open>Math.ceil(ms / 1000)\<close>\<close>

definition ceil_sec :: "int \<Rightarrow> int" where
  "ceil_sec ms = (ms + 999) div 1000"

record rate_headers =
  rh_limit :: int
  rh_remaining :: int
  rh_reset :: int

definition rate_limited :: "string \<Rightarrow> int \<Rightarrow> int \<Rightarrow> reply" where
  "rate_limited endpoint limit windowSec = mk_reply 429 (JObj
     [(''error'', JObj [(''code'', JStr ''rate_limited''), (''reason'', JStr ''Seller rate limit exceeded''),
        (''message'', JStr (''Too many '' @ endpoint @ '' requests. Limit: '' @ int_str limit @ ''/min. Retry after '' @
           int_str windowSec @ ''s.''))]),
      (''retryAfter'', JNum windowSec)])"

text \<open>
  The hook of \<open>createSellerRateLimitHook\<close>, on a Redis object with the methods \<open>ms\<close>: the headers it
  sets and its reply, when it answers the request itself. \<open>now\<close> is \<open>Date.now()\<close>. The hook of the
  program, \<open>sellerRateLimitHook\<close>, calls the object that \<open>redis.ts\<close> exports.
\<close>

definition seller_hook ::
  "string list \<Rightarrow> counter_api \<Rightarrow> int \<Rightarrow> string \<Rightarrow> string option \<Rightarrow> int \<Rightarrow>
   (counters, exn, rate_headers option \<times> reply option) prog" where
  "seller_hook ms A windowMs endpoint apiKey now =
     (let limit = seller_limit endpoint; windowSec = ceil_sec windowMs in
      case apiKey of
        Some (c # cs) \<Rightarrow>
          try_catch
            (seq (object_call ms ''redis'' ''incr'' (ct_incr A now (rate_key endpoint (c # cs)))) (\<lambda>current.
             seq (if current = 1 then
                    object_call ms ''redis'' ''expire'' (ct_expire A now (rate_key endpoint (c # cs)) windowSec)
                  else ret ()) (\<lambda>_.
             let headers = \<lparr>rh_limit = limit, rh_remaining = max 0 (limit - current),
                            rh_reset = ceil_sec now + windowSec\<rparr> in
             if limit < current then ret (Some headers, Some (rate_limited endpoint limit windowSec))
             else ret (Some headers, None))))
            (\<lambda>redisErr. ret (None, None))
      | _ \<Rightarrow> ret (None, None))"

definition sellerRateLimitHook ::
  "counter_api \<Rightarrow> int \<Rightarrow> string \<Rightarrow> string option \<Rightarrow> int \<Rightarrow> (counters, exn, rate_headers option \<times> reply option) prog" where
  "sellerRateLimitHook = seller_hook redis_methods"

text \<open>The requests of one seller, by their times: which of them the hook answers itself.\<close>

fun hook_replies ::
  "string list \<Rightarrow> counter_api \<Rightarrow> int \<Rightarrow> string \<Rightarrow> string option \<Rightarrow> int list \<Rightarrow> counters \<Rightarrow> bool list \<times> counters" where
  "hook_replies ms A windowMs endpoint apiKey [] c = ([], c)"
| "hook_replies ms A windowMs endpoint apiKey (t # ts) c =
     (case seller_hook ms A windowMs endpoint apiKey t c of
        (r, c1) \<Rightarrow> (case hook_replies ms A windowMs endpoint apiKey ts c1 of
          (bs, c2) \<Rightarrow> ((case r of Inr (_, Some _) \<Rightarrow> True | _ \<Rightarrow> False) # bs, c2)))"

section \<open>Global and route configurations\<close>

record limit_config =
  lc_max :: int
  lc_timeWindow :: int

definition minute :: int where
  "minute = 60000"

definition getGlobalRateLimitConfig :: "int \<Rightarrow> int \<Rightarrow> limit_config" where
  "getGlobalRateLimitConfig rate_max windowMs = \<lparr>lc_max = rate_max, lc_timeWindow = windowMs\<rparr>"

definition ip_limited :: json where
  "ip_limited = JObj [(''error'', JObj [(''code'', JStr ''rate_limited''), (''reason'', JStr ''IP rate limit exceeded''),
     (''message'', JStr ''Too many requests from this IP. Please retry later.'')])]"

record rate_limit_config =
  rl_global :: "int option"
  rl_verify :: "(int \<times> int) option"
  rl_settle :: "(int \<times> int) option"
  rl_receipts :: "int option"

definition registerRateLimit :: "rate_limit_config \<Rightarrow> limit_config" where
  "registerRateLimit cfg = \<lparr>lc_max = (case rl_global cfg of Some n \<Rightarrow> n | None \<Rightarrow> 200), lc_timeWindow = minute\<rparr>"

datatype limited_endpoint = LVerify | LSettle | LReceipts

definition endpoint_name :: "limited_endpoint \<Rightarrow> string" where
  "endpoint_name e = (case e of LVerify \<Rightarrow> ''verify'' | LSettle \<Rightarrow> ''settle'' | LReceipts \<Rightarrow> ''receipts'')"

text \<open>The limit of the route and the key of a request, from its IP address and its \<open>x-seller-id\<close> header.\<close>

definition buildRouteRateLimit ::
  "limited_endpoint \<Rightarrow> rate_limit_config \<Rightarrow> limit_config \<times> (string \<Rightarrow> string option \<Rightarrow> string)" where
  "buildRouteRateLimit endpoint cfg =
     (let verifyLimits = (case rl_verify cfg of Some l \<Rightarrow> l | None \<Rightarrow> (30, 60));
          settleLimits = (case rl_settle cfg of Some l \<Rightarrow> l | None \<Rightarrow> (20, 40));
          receiptsLimit = (case rl_receipts cfg of Some n \<Rightarrow> n | None \<Rightarrow> 60)
      in if endpoint = LReceipts
         then (\<lparr>lc_max = receiptsLimit, lc_timeWindow = minute\<rparr>, \<lambda>ip seller. ''rl:receipts:ip:'' @ ip)
         else (let limits = (if endpoint = LVerify then verifyLimits else settleLimits) in
           (\<lparr>lc_max = fst limits, lc_timeWindow = minute\<rparr>,
            \<lambda>ip seller. case seller of
               Some (c # cs) \<Rightarrow> ''rl:'' @ endpoint_name endpoint @ '':seller:'' @ c # cs
             | _ \<Rightarrow> ''rl:'' @ endpoint_name endpoint @ '':ip:'' @ ip)))"

section \<open>Lemmas\<close>

definition counts :: "string list \<Rightarrow> bool" where
  "counts ms \<longleftrightarrow> ''incr'' \<in> set ms \<and> ''expire'' \<in> set ms"

lemma countsD: "counts ms \<Longrightarrow> ''incr'' \<in> set ms" "counts ms \<Longrightarrow> ''expire'' \<in> set ms"
  by (simp_all add: counts_def)

context counter_store
begin

lemma hook_counts:
  assumes "counters_answer A" and "c (rate_key ep (a # as)) = Some (n, e)" and "alive t e" and "1 \<le> n"
    and "counts ms"
  shows "\<exists>h. seller_hook ms A windowMs ep (Some (a # as)) t c =
      (Inr (Some h, if seller_limit ep < n + 1 then Some (rate_limited ep (seller_limit ep) (ceil_sec windowMs)) else None),
       c(rate_key ep (a # as) \<mapsto> (n + 1, e))) \<and>
     rh_limit h = seller_limit ep \<and> rh_remaining h = max 0 (seller_limit ep - (n + 1))"
proof -
  let ?k = "rate_key ep (a # as)"
  from assms(1) obtain m c' where i: "ct_incr A t ?k c = (Inr m, c')" unfolding counters_answer_def by blast
  from incr_live [OF i assms(2,3)] have m: "m = n + 1" "c' = c(?k \<mapsto> (n + 1, e))" by simp_all
  show ?thesis using i m assms(4) countsD [OF assms(5)]
    by (simp add: seller_hook_def Let_def try_catch_def seq_def ret_def)
qed

lemma hook_replies_count:
  assumes "counters_answer A" and "counts ms"
  shows "c (rate_key ep (a # as)) = Some (n, e) \<Longrightarrow> 1 \<le> n \<Longrightarrow> \<forall>t\<in>set ts. alive t e \<Longrightarrow>
    fst (hook_replies ms A windowMs ep (Some (a # as)) ts c) = map (\<lambda>i. seller_limit ep \<le> n + int i) [0..<length ts]"
proof (induction ts arbitrary: c n)
  case Nil
  then show ?case by simp
next
  case (Cons t ts)
  let ?k = "rate_key ep (a # as)"
  have live: "alive t e" using Cons.prems(3) by simp
  from hook_counts [of c ep a as n e t ms windowMs, OF assms(1) Cons.prems(1) live Cons.prems(2) assms(2)] obtain h where
    h: "seller_hook ms A windowMs ep (Some (a # as)) t c =
      (Inr (Some h, if seller_limit ep < n + 1 then Some (rate_limited ep (seller_limit ep) (ceil_sec windowMs)) else None),
       c(?k \<mapsto> (n + 1, e)))" by blast
  have "fst (hook_replies ms A windowMs ep (Some (a # as)) ts (c(?k \<mapsto> (n + 1, e)))) =
      map (\<lambda>i. seller_limit ep \<le> (n + 1) + int i) [0..<length ts]"
    using Cons.prems by (intro Cons.IH) simp_all
  moreover have "map (\<lambda>i. seller_limit ep \<le> n + int i) [0..<length (t # ts)] =
      (seller_limit ep \<le> n) # map (\<lambda>i. seller_limit ep \<le> (n + 1) + int i) [0..<length ts]"
    by (simp add: upt_conv_Cons map_Suc_upt [symmetric] comp_def algebra_simps del: upt_Suc map_Suc_upt)
  ultimately show ?case using h by (simp add: split_beta)
qed

end

section \<open>Properties\<close>

text \<open>What the hook is meant to do. On a Redis object that has the two commands and answers, and in a
  window that starts with no counter, exactly the first requests up to
  the limit of the endpoint pass and every later one is answered with 429; the counter is set to
  expire once, by the first request.\<close>

theorem rate_limit_exact:
  assumes "counter_store A" and "counters_answer A" and "c (rate_key ep (a # as)) = None" and "1 \<le> seller_limit ep"
    and "\<forall>t\<in>set ts. t < t0 + ceil_sec windowMs * 1000"
    and "1 \<le> windowMs" and "counts ms"
  shows "fst (hook_replies ms A windowMs ep (Some (a # as)) (t0 # ts) c) =
    map (\<lambda>i. seller_limit ep \<le> int i) [0..<length (t0 # ts)]"
proof -
  let ?k = "rate_key ep (a # as)"
  from assms(2) obtain m c1 where i: "ct_incr A t0 ?k c = (Inr m, c1)" unfolding counters_answer_def by blast
  from counter_store.incr_new [OF assms(1) i] assms(3) have m: "m = 1" "c1 = c(?k \<mapsto> (1, None))" by simp_all
  from assms(2) obtain c2 where x: "ct_expire A t0 ?k (ceil_sec windowMs) c1 = (Inr (), c2)"
    unfolding counters_answer_def by blast
  have c2: "c2 = c1(?k \<mapsto> (1, Some (t0 + ceil_sec windowMs * 1000)))"
    using counter_store.expire_live [OF assms(1) x, of 1 None] by (simp add: m)
  have first: "\<exists>h. seller_hook ms A windowMs ep (Some (a # as)) t0 c = (Inr (Some h, None), c2)"
    using i x assms(4) countsD [OF assms(7)] by (simp add: seller_hook_def Let_def try_catch_def seq_def ret_def m)
  have "fst (hook_replies ms A windowMs ep (Some (a # as)) ts c2) = map (\<lambda>i. seller_limit ep \<le> 1 + int i) [0..<length ts]"
    using assms(5) by (intro counter_store.hook_replies_count [OF assms(1,2,7), where e = "Some (t0 + ceil_sec windowMs * 1000)"])
      (simp_all add: c2)
  moreover have "map (\<lambda>i. seller_limit ep \<le> int i) [0..<length (t0 # ts)] =
      False # map (\<lambda>i. seller_limit ep \<le> 1 + int i) [0..<length ts]"
    using assms(4) by (simp add: upt_conv_Cons map_Suc_upt [symmetric] comp_def algebra_simps del: upt_Suc map_Suc_upt)
  ultimately show ?thesis using first by (auto simp: split_beta)
qed

theorem rate_limit_exact_witness:
  "fst (hook_replies [''incr'', ''expire''] redis_counters 60000 ''settle'' (Some ''fac_1'') (0 # replicate 31 5) Map.empty) =
     replicate 30 False @ [True, True]"
proof -
  have l: "seller_limit ''settle'' = 30" by (simp add: seller_limit_def SELLER_RATE_LIMITS_def)
  have "fst (hook_replies [''incr'', ''expire''] redis_counters 60000 ''settle'' (Some ''fac_1'') (0 # replicate 31 5) Map.empty) =
      map (\<lambda>i. seller_limit ''settle'' \<le> int i) [0..<length (0 # replicate 31 (5 :: int))]"
    by (rule rate_limit_exact [OF redis_counter_store redis_counters_answer]) (simp_all add: l ceil_sec_def counts_def)
  also have "\<dots> = replicate 30 False @ [True, True]" by (simp add: l upt_rec numeral_eq_Suc)
  finally show ?thesis .
qed

text \<open>The hook never blocks or throws when Redis fails, and lets a request without a key pass. When the
  expiry of a new counter could not be set, the counter never ends: whenever the later requests
  come, they are counted together, and from the limit on every one is refused for ever.\<close>

theorem rate_limit_failures:
  assumes "counter_store A" and "counts ms"
  shows "seller_hook ms A windowMs ep None now c = (Inr (None, None), c) \<and>
    (ct_incr A now (rate_key ep (a # as)) c = (Inl x, c') \<longrightarrow>
      seller_hook ms A windowMs ep (Some (a # as)) now c = (Inr (None, None), c)) \<and>
    (c (rate_key ep (a # as)) = None \<and> ct_incr A now (rate_key ep (a # as)) c = (Inr m, c1) \<and>
       ct_expire A now (rate_key ep (a # as)) (ceil_sec windowMs) c1 = (Inl y, c2) \<longrightarrow>
      seller_hook ms A windowMs ep (Some (a # as)) now c = (Inr (None, None), c(rate_key ep (a # as) \<mapsto> (1, None)))) \<and>
    (counters_answer A \<and> c (rate_key ep (a # as)) = Some (1, None) \<longrightarrow>
      fst (hook_replies ms A windowMs ep (Some (a # as)) ts c) = map (\<lambda>i. seller_limit ep \<le> 1 + int i) [0..<length ts])"
proof (intro conjI impI)
  show "seller_hook ms A windowMs ep (Some (a # as)) now c = (Inr (None, None), c)"
    if "ct_incr A now (rate_key ep (a # as)) c = (Inl x, c')"
    using that countsD [OF assms(2)] counter_store.incr_err [OF assms(1) that] by (simp add: seller_hook_def Let_def try_catch_def seq_def ret_def)
  show "seller_hook ms A windowMs ep (Some (a # as)) now c = (Inr (None, None), c(rate_key ep (a # as) \<mapsto> (1, None)))"
    if r: "c (rate_key ep (a # as)) = None \<and> ct_incr A now (rate_key ep (a # as)) c = (Inr m, c1) \<and>
       ct_expire A now (rate_key ep (a # as)) (ceil_sec windowMs) c1 = (Inl y, c2)"
  proof -
    from r have i: "ct_incr A now (rate_key ep (a # as)) c = (Inr m, c1)"
      and x: "ct_expire A now (rate_key ep (a # as)) (ceil_sec windowMs) c1 = (Inl y, c2)" by blast+
    have m: "m = 1" "c1 = c(rate_key ep (a # as) \<mapsto> (1, None))"
      using counter_store.incr_new [OF assms(1) i] r by simp_all
    show ?thesis using i x m countsD [OF assms(2)] counter_store.expire_err [OF assms(1) x]
      by (simp add: seller_hook_def Let_def try_catch_def seq_def ret_def)
  qed
qed (auto simp: seller_hook_def Let_def ret_def intro!: counter_store.hook_replies_count [OF assms(1) _ assms(2)])

text \<open>A store that answers \<open>INCR\<close> but refuses \<open>EXPIRE\<close>.\<close>

definition no_expire :: counter_api where
  "no_expire = redis_counters\<lparr>ct_expire := (\<lambda>now k s c. (Inl (plainError ''READONLY''), c))\<rparr>"

theorem rate_limit_failures_witness:
  "seller_hook [''incr'', ''expire''] no_expire 60000 ''verify'' (Some ''k'') 0 Map.empty =
     (Inr (None, None), [rate_key ''verify'' ''k'' \<mapsto> (1, None)])"
proof -
  have store: "counter_store no_expire"
    by unfold_locales (auto simp: no_expire_def redis_counters_def split: option.splits if_splits prod.splits)
  show ?thesis
    using rate_limit_failures [OF store, of "[''incr'', ''expire'']" 60000 "''verify''" 0 Map.empty "CHR ''k''" "''''"]
    by (simp add: no_expire_def redis_counters_def counts_def)
qed

text \<open>What the hook of the program does: the object of \<open>redis.ts\<close> has no \<open>incr\<close>, so every request of
  every seller passes, without a header and without a counter; no limit per seller is ever enforced.\<close>

theorem seller_limit_never:
  "sellerRateLimitHook A windowMs ep key now c = (Inr (None, None), c)"
  by (simp add: sellerRateLimitHook_def seller_hook_def Let_def redis_lacks try_catch_def seq_def throw_def ret_def
      split: option.splits list.splits)

end
