(* ===== verification/DeviceAuth.thy ===== *)
theory DeviceAuth
  imports Sellers "HOL-Library.AList"
begin

text \<open>
  The device authorization flow of \<open>routes/device-auth.route.ts\<close>. The \<open>Map\<close> of the pending
  devices, which keeps its insertion order, is an association list; the random bytes, the random
  indices and the clock are arguments. The three handlers are put together as an inductive
  predicate on what happened so far and the pending devices.
\<close>

section \<open>The handlers\<close>

record device =
  dv_userCode :: string
  dv_deviceCode :: string
  dv_expiresAt :: int
  dv_approved :: bool

type_synonym devices = "(string \<times> device) list"

definition user_code_chars :: string where
  "user_code_chars = ''ABCDEFGHJKLMNPQRSTUVWXYZ23456789''"

text \<open>\<open>idx\<close> are the eight values of \<open>Math.floor(Math.random() * chars.length)\<close>.\<close>

definition generateUserCode :: "nat list \<Rightarrow> string" where
  "generateUserCode idx = map ((!) user_code_chars) (take 4 idx) @ ''-'' @ map ((!) user_code_chars) (take 4 (drop 4 idx))"

definition device_ttl :: int where
  "device_ttl = 10 * 60 * 1000"

definition deviceAuthorize :: "string \<Rightarrow> string \<Rightarrow> nat list \<Rightarrow> int \<Rightarrow> devices \<Rightarrow> reply \<times> devices" where
  "deviceAuthorize baseUrl deviceCode idx now pending =
     (let userCode = generateUserCode idx; expiresAt = now + device_ttl in
      (mk_reply 200 (JObj
         [(''device_code'', JStr deviceCode), (''user_code'', JStr userCode),
          (''verification_uri'', JStr (baseUrl @ ''/device/activate'')),
          (''verification_uri_complete'', JStr (baseUrl @ ''/device/activate?code='' @ userCode)),
          (''expires_in'', JNum 600), (''interval'', JNum 5)]),
       AList.update deviceCode
         \<lparr>dv_userCode = userCode, dv_deviceCode = deviceCode, dv_expiresAt = expiresAt, dv_approved = False\<rparr> pending))"

definition grant_error :: "string \<Rightarrow> string \<Rightarrow> reply" where
  "grant_error err description =
     mk_reply 400 (JObj [(''error'', JStr err), (''error_description'', JStr description)])"

definition granted :: "string \<Rightarrow> reply" where
  "granted apiKey = mk_reply 200 (JObj [(''access_token'', JStr apiKey), (''token_type'', JStr ''bearer''),
     (''message'', JStr ''Use this as Authorization: Bearer <access_token> on all requests'')])"

text \<open>The key is generated and sent; its hash is dropped.\<close>

definition deviceToken ::
  "(string \<Rightarrow> string) \<Rightarrow> string \<Rightarrow> string \<Rightarrow> int \<Rightarrow> devices \<Rightarrow> reply \<times> devices" where
  "deviceToken sha256 random device_code now pending =
     (case map_of pending device_code of
        None \<Rightarrow> (grant_error ''invalid_grant'' ''Unknown device code'', pending)
      | Some d \<Rightarrow>
          if dv_expiresAt d < now then
            (grant_error ''expired_token'' ''Device code expired'', AList.delete device_code pending)
          else if \<not> dv_approved d then
            (grant_error ''authorization_pending'' ''Waiting for user approval'', pending)
          else (granted (gk_raw (generateApiKey sha256 random)), AList.delete device_code pending))"

text \<open>\<open>pending.approved = true\<close> updates the device in the map, which keeps its place.\<close>

definition deviceActivate :: "string \<Rightarrow> int \<Rightarrow> devices \<Rightarrow> reply \<times> devices" where
  "deviceActivate user_code now pending =
     (case List.find (\<lambda>p. dv_userCode (snd p) = user_code) pending of
        Some (code, d) \<Rightarrow>
          if dv_expiresAt d < now then
            (mk_reply 400 (JObj [(''code'', JStr ''invalid_code''), (''message'', JStr ''Invalid or expired user code'')]), pending)
          else
            (mk_reply 200 (JObj [(''message'', JStr ''Device activated. It will receive its API key on the next poll.'')]),
             AList.update code (d\<lparr>dv_approved := True\<rparr>) pending)
      | None \<Rightarrow>
          (mk_reply 400 (JObj [(''code'', JStr ''invalid_code''), (''message'', JStr ''Invalid or expired user code'')]), pending))"

section \<open>The flow\<close>

text \<open>What happened: a code pair was handed out, a user code was entered and accepted, a key was sent.\<close>

datatype device_event =
    Requested int string string
  | Activated int string
  | Granted int string string

fun event_time :: "device_event \<Rightarrow> int" where
  "event_time (Requested t _ _) = t"
| "event_time (Activated t _) = t"
| "event_time (Granted t _ _) = t"

text \<open>
  Requests come in the order of the clock (\<open>later\<close>), and a new device code, 32 random bytes, was
  not handed out before. The newest event comes first.
\<close>

definition later :: "int \<Rightarrow> device_event list \<Rightarrow> bool" where
  "later now tr \<longleftrightarrow> (\<forall>e\<in>set tr. event_time e \<le> now)"

definition fresh_code :: "string \<Rightarrow> device_event list \<Rightarrow> bool" where
  "fresh_code dc tr \<longleftrightarrow> (\<forall>t uc. Requested t dc uc \<notin> set tr)"

inductive flow :: "(string \<Rightarrow> string) \<Rightarrow> device_event list \<Rightarrow> devices \<Rightarrow> bool" for sha256 where
  flow_start: "flow sha256 [] []"
| flow_authorize: "flow sha256 tr ds \<Longrightarrow> later now tr \<Longrightarrow> fresh_code dc tr \<Longrightarrow>
     deviceAuthorize url dc idx now ds = (r, ds') \<Longrightarrow> flow sha256 (Requested now dc (generateUserCode idx) # tr) ds'"
| flow_activate: "flow sha256 tr ds \<Longrightarrow> later now tr \<Longrightarrow> deviceActivate uc now ds = (r, ds') \<Longrightarrow>
     flow sha256 (if reply_status r = Some 200 then Activated now uc # tr else tr) ds'"
| flow_token: "flow sha256 tr ds \<Longrightarrow> later now tr \<Longrightarrow> deviceToken sha256 random dc now ds = (r, ds') \<Longrightarrow>
     flow sha256 (if r = granted (''fac_'' @ random) then Granted now dc (''fac_'' @ random) # tr else tr) ds'"

section \<open>The invariant\<close>

definition device_ok :: "device_event list \<Rightarrow> string \<Rightarrow> device \<Rightarrow> bool" where
  "device_ok tr dc d \<longleftrightarrow> dv_deviceCode d = dc \<and> Requested (dv_expiresAt d - device_ttl) dc (dv_userCode d) \<in> set tr \<and>
     (\<forall>t k. Granted t dc k \<notin> set tr) \<and>
     (dv_approved d \<longrightarrow> (\<exists>ta. Activated ta (dv_userCode d) \<in> set tr \<and>
        dv_expiresAt d - device_ttl \<le> ta \<and> ta \<le> dv_expiresAt d))"

definition device_inv :: "device_event list \<Rightarrow> devices \<Rightarrow> bool" where
  "device_inv tr ds \<longleftrightarrow> distinct (map fst ds) \<and> (\<forall>dc d. (dc, d) \<in> set ds \<longrightarrow> device_ok tr dc d)"

definition grants_ok :: "device_event list \<Rightarrow> bool" where
  "grants_ok tr \<longleftrightarrow> (\<forall>t dc k. Granted t dc k \<in> set tr \<longrightarrow>
     (\<exists>t0 uc ta. Requested t0 dc uc \<in> set tr \<and> Activated ta uc \<in> set tr \<and> t0 \<le> ta \<and> ta \<le> t0 + device_ttl \<and>
        t0 \<le> t \<and> t \<le> t0 + device_ttl))"

fun grant_codes :: "device_event list \<Rightarrow> string list" where
  "grant_codes [] = []"
| "grant_codes (Granted t dc k # tr) = dc # grant_codes tr"
| "grant_codes (_ # tr) = grant_codes tr"

lemma grant_codes_set: "dc \<in> set (grant_codes tr) \<longleftrightarrow> (\<exists>t k. Granted t dc k \<in> set tr)"
  by (induction tr rule: grant_codes.induct) auto

lemma update_member:
  "distinct (map fst ds) \<Longrightarrow> (a, b) \<in> set (AList.update k v ds) \<longleftrightarrow> (a = k \<and> b = v) \<or> (a \<noteq> k \<and> (a, b) \<in> set ds)"
  by (metis AList.distinct_update fun_upd_apply map_of_eq_Some_iff option.inject update_conv')

lemma delete_member: "(a, b) \<in> set (AList.delete k ds) \<longleftrightarrow> a \<noteq> k \<and> (a, b) \<in> set ds"
  by (auto simp: AList.delete_eq)

lemma reply_status_grant [simp]:
  "reply_status (granted k) = Some 200" "reply_status (grant_error e m) = Some 400"
  by (simp_all add: granted_def grant_error_def mk_reply_def)

lemma grant_error_neq [simp]: "grant_error e m \<noteq> granted k" "granted k \<noteq> grant_error e m"
  by (auto dest: arg_cong [where f = reply_status])

lemma gk_raw_eq: "gk_raw (generateApiKey sha256 random) = ''fac_'' @ random"
  by (simp add: generateApiKey_def Let_def)

text \<open>What each handler can do to the pending devices, without its replies.\<close>

lemma authorize_devices: "deviceAuthorize url dc idx now ds = (r, ds') \<Longrightarrow>
    ds' = AList.update dc \<lparr>dv_userCode = generateUserCode idx, dv_deviceCode = dc, dv_expiresAt = now + device_ttl,
                          dv_approved = False\<rparr> ds"
  by (simp add: deviceAuthorize_def Let_def)

lemma List_find_SomeD: "List.find P xs = Some x \<Longrightarrow> x \<in> set xs \<and> P x"
  by (induction xs) (auto split: if_splits)

lemma activate_cases:
  assumes "deviceActivate uc now ds = (r, ds')"
  obtains (refused) "reply_status r \<noteq> Some 200" "ds' = ds"
  | (approved) code d where "reply_status r = Some 200" "(code, d) \<in> set ds" "dv_userCode d = uc" "now \<le> dv_expiresAt d"
      "ds' = AList.update code (d\<lparr>dv_approved := True\<rparr>) ds"
proof (cases "List.find (\<lambda>p. dv_userCode (snd p) = uc) ds")
  case None
  then show ?thesis using assms refused by (auto simp: deviceActivate_def mk_reply_def)
next
  case (Some p)
  obtain code d where p: "p = (code, d)"
    by (cases p)
  have member: "(code, d) \<in> set ds" "dv_userCode d = uc"
    using List_find_SomeD [OF Some] by (simp_all add: p)
  show ?thesis
  proof (cases "dv_expiresAt d < now")
    case True
    then show ?thesis
      using assms Some by (intro refused) (auto simp: deviceActivate_def mk_reply_def p)
  next
    case False
    then show ?thesis
      using assms Some member by (intro approved [of code d]) (auto simp: deviceActivate_def mk_reply_def p)
  qed
qed

lemma token_cases:
  assumes "deviceToken sha256 random dc now ds = (r, ds')" "distinct (map fst ds)"
  obtains (refused) "r \<noteq> granted (''fac_'' @ random)" "ds' = ds \<or> ds' = AList.delete dc ds"
  | (sent) d where "r = granted (''fac_'' @ random)" "(dc, d) \<in> set ds" "dv_approved d" "now \<le> dv_expiresAt d"
      "ds' = AList.delete dc ds"
proof (cases "map_of ds dc")
  case None
  then show ?thesis using assms by (intro refused) (auto simp: deviceToken_def simp del: append.simps)
next
  case (Some d)
  then have member: "(dc, d) \<in> set ds"
    by (simp add: map_of_SomeD)
  show ?thesis
  proof (cases "dv_expiresAt d < now \<or> \<not> dv_approved d")
    case True
    then show ?thesis
      using assms Some by (intro refused) (auto simp: deviceToken_def split: if_splits)
  next
    case False
    then show ?thesis
      using assms Some member by (intro sent [of d]) (auto simp: deviceToken_def gk_raw_eq)
  qed
qed

text \<open>An event cannot take away what the invariant asks of the trace; a key asks that its code is gone.\<close>

lemma device_ok_mono: "device_ok tr dc d \<Longrightarrow> (\<And>t k. e \<noteq> Granted t dc k) \<Longrightarrow> device_ok (e # tr) dc d"
  unfolding device_ok_def by auto

lemma device_inv_mono: "device_inv tr ds \<Longrightarrow> (\<And>t dc k. e \<noteq> Granted t dc k) \<Longrightarrow> device_inv (e # tr) ds"
  unfolding device_inv_def using device_ok_mono by blast

lemma grants_ok_mono: "grants_ok tr \<Longrightarrow> (\<And>t dc k. e \<noteq> Granted t dc k) \<Longrightarrow> grants_ok (e # tr)"
  unfolding grants_ok_def by (metis list.set_intros(2) set_ConsD)

lemma device_inv_delete: "device_inv tr ds \<Longrightarrow> device_inv tr (AList.delete dc ds)"
  unfolding device_inv_def by (auto simp: delete_member AList.distinct_delete)

lemma device_inv_grant:
  "device_inv tr ds \<Longrightarrow> device_inv (Granted t dc k # tr) (AList.delete dc ds)"
  unfolding device_inv_def by (auto simp: delete_member AList.distinct_delete intro!: device_ok_mono)

lemma device_inv_update:
  "device_inv tr ds \<Longrightarrow> device_ok tr dc d \<Longrightarrow> device_inv tr (AList.update dc d ds)"
  unfolding device_inv_def by (metis update_member AList.distinct_update)

lemma device_ok_approve:
  assumes "device_ok tr dc d" "later now tr" "now \<le> dv_expiresAt d"
  shows "device_ok (Activated now (dv_userCode d) # tr) dc (d\<lparr>dv_approved := True\<rparr>)"
proof -
  have "dv_expiresAt d - device_ttl \<le> now"
    using assms(1, 2) unfolding device_ok_def later_def by (metis event_time.simps(1))
  then show ?thesis
    using assms(1, 3) unfolding device_ok_def by auto
qed

lemma device_ok_new:
  assumes "fresh_code dc tr" "grants_ok tr"
  shows "device_ok (Requested now dc uc # tr) dc
    \<lparr>dv_userCode = uc, dv_deviceCode = dc, dv_expiresAt = now + device_ttl, dv_approved = False\<rparr>"
proof -
  have "Granted t dc k \<notin> set tr" for t k
    using assms unfolding fresh_code_def grants_ok_def by blast
  then show ?thesis
    unfolding device_ok_def by auto
qed

lemma grants_ok_sent:
  assumes "grants_ok tr" "device_ok tr dc d" "dv_approved d" "later now tr" "now \<le> dv_expiresAt d"
  shows "grants_ok (Granted now dc k # tr)"
proof -
  obtain ta where a: "Activated ta (dv_userCode d) \<in> set tr" "dv_expiresAt d - device_ttl \<le> ta" "ta \<le> dv_expiresAt d"
    using assms(2, 3) unfolding device_ok_def by blast
  have r: "Requested (dv_expiresAt d - device_ttl) dc (dv_userCode d) \<in> set tr"
    using assms(2) unfolding device_ok_def by blast
  then have t: "dv_expiresAt d - device_ttl \<le> now"
    using assms(4) unfolding later_def by (metis event_time.simps(1))
  have new: "\<exists>t0 uc ta. Requested t0 dc uc \<in> set (Granted now dc k # tr) \<and> Activated ta uc \<in> set (Granted now dc k # tr) \<and>
      t0 \<le> ta \<and> ta \<le> t0 + device_ttl \<and> t0 \<le> now \<and> now \<le> t0 + device_ttl"
    by (rule exI [where x = "dv_expiresAt d - device_ttl"], rule exI [where x = "dv_userCode d"], rule exI [where x = ta])
      (use a r t assms(5) in simp)
  show ?thesis
    unfolding grants_ok_def
  proof (intro allI impI)
    fix t dc' k'
    assume "Granted t dc' k' \<in> set (Granted now dc k # tr)"
    then consider "t = now" "dc' = dc" | "Granted t dc' k' \<in> set tr"
      by auto
    then show "\<exists>t0 uc ta. Requested t0 dc' uc \<in> set (Granted now dc k # tr) \<and> Activated ta uc \<in> set (Granted now dc k # tr) \<and>
        t0 \<le> ta \<and> ta \<le> t0 + device_ttl \<and> t0 \<le> t \<and> t \<le> t0 + device_ttl"
    proof cases
      case 1
      then show ?thesis using new by simp
    next
      case 2
      then show ?thesis using assms(1) unfolding grants_ok_def by (meson list.set_intros(2))
    qed
  qed
qed

lemma flow_invariant:
  "flow sha256 tr ds \<Longrightarrow> device_inv tr ds \<and> grants_ok tr \<and> distinct (grant_codes tr)"
proof (induction rule: flow.induct)
  case flow_start
  then show ?case by (simp add: device_inv_def grants_ok_def)
next
  case (flow_authorize tr ds now dc url idx r ds')
  then have inv: "device_inv tr ds" "grants_ok tr" by auto
  then have "device_inv (Requested now dc (generateUserCode idx) # tr) ds"
    by (intro device_inv_mono) auto
  moreover have "grants_ok (Requested now dc (generateUserCode idx) # tr)"
    using inv by (intro grants_ok_mono) auto
  ultimately show ?case
    using flow_authorize device_ok_new [of dc tr now "generateUserCode idx"]
      authorize_devices [OF flow_authorize.hyps(4)] device_inv_update by simp
next
  case (flow_activate tr ds now uc r ds')
  then have inv: "device_inv tr ds" "grants_ok tr" by auto
  from flow_activate.hyps(3) show ?case
  proof (cases rule: activate_cases)
    case refused
    then show ?thesis using flow_activate by simp
  next
    case (approved code d)
    have "device_inv (Activated now uc # tr) ds" "grants_ok (Activated now uc # tr)"
      using inv by (auto intro: device_inv_mono grants_ok_mono)
    moreover have "device_ok (Activated now uc # tr) code (d\<lparr>dv_approved := True\<rparr>)"
      using device_ok_approve [of tr code d now] approved inv flow_activate.hyps(2) by (auto simp: device_inv_def)
    ultimately show ?thesis
      using flow_activate approved by (simp add: device_inv_update)
  qed
next
  case (flow_token tr ds now random dc r ds')
  then have inv: "device_inv tr ds" "grants_ok tr" "distinct (map fst ds)" by (auto simp: device_inv_def)
  from flow_token.hyps(3) inv(3) show ?case
  proof (cases rule: token_cases)
    case refused
    then show ?thesis using flow_token device_inv_delete by auto
  next
    case (sent d)
    have ok: "device_ok tr dc d"
      using inv(1) sent(2) by (auto simp: device_inv_def)
    then have "dc \<notin> set (grant_codes tr)"
      by (auto simp: grant_codes_set device_ok_def)
    then show ?thesis
      using sent flow_token grants_ok_sent [OF inv(2) ok sent(3) flow_token.hyps(2) sent(4)]
      by (simp add: device_inv_grant del: append.simps)
  qed
qed

section \<open>Every key was asked for and approved\<close>

text \<open>C30. In any interleaving of the three device handlers, every API key sent to a device answers a device
  code handed out at most ten minutes before, whose user code was entered and accepted in those ten
  minutes, and no device code is answered with a key twice.
\<close>

theorem device_grant_sound:
  assumes "flow sha256 tr ds"
  shows "distinct (grant_codes tr) \<and>
    (\<forall>t dc k. Granted t dc k \<in> set tr \<longrightarrow>
      (\<exists>t0 uc ta. Requested t0 dc uc \<in> set tr \<and> Activated ta uc \<in> set tr \<and>
         t0 \<le> ta \<and> ta \<le> t0 + device_ttl \<and> t0 \<le> t \<and> t \<le> t0 + device_ttl))"
  using flow_invariant [OF assms] unfolding grants_ok_def by blast

lemma example_flow:
  "flow (\<lambda>x. x) [Granted 2000 ''dc'' ''fac_key'', Activated 1000 ''ABCD-EFGH'', Requested 0 ''dc'' ''ABCD-EFGH''] []"
proof -
  have codes: "generateUserCode [0, 1, 2, 3, 4, 5, 6, 7] = ''ABCD-EFGH''"
    by (simp add: generateUserCode_def user_code_chars_def)
  obtain r1 ds1 where 1: "deviceAuthorize ''https://x'' ''dc'' [0, 1, 2, 3, 4, 5, 6, 7] 0 [] = (r1, ds1)"
    by (cases "deviceAuthorize ''https://x'' ''dc'' [0, 1, 2, 3, 4, 5, 6, 7] 0 []")
  obtain r2 ds2 where 2: "deviceActivate ''ABCD-EFGH'' 1000 ds1 = (r2, ds2)"
    by (cases "deviceActivate ''ABCD-EFGH'' 1000 ds1")
  obtain r3 ds3 where 3: "deviceToken (\<lambda>x. x) ''key'' ''dc'' 2000 ds2 = (r3, ds3)"
    by (cases "deviceToken (\<lambda>x. x) ''key'' ''dc'' 2000 ds2")
  have d1: "ds1 = [(''dc'', \<lparr>dv_userCode = ''ABCD-EFGH'', dv_deviceCode = ''dc'', dv_expiresAt = 600000, dv_approved = False\<rparr>)]"
    using authorize_devices [OF 1, unfolded codes] by (simp add: device_ttl_def)
  have d2: "reply_status r2 = Some 200"
    "ds2 = [(''dc'', \<lparr>dv_userCode = ''ABCD-EFGH'', dv_deviceCode = ''dc'', dv_expiresAt = 600000, dv_approved = True\<rparr>)]"
    using 2 by (auto simp: d1 deviceActivate_def mk_reply_def)
  have d3: "r3 = granted (''fac_'' @ ''key'')" "ds3 = []"
    using 3 unfolding d2 by (auto simp: deviceToken_def gk_raw_eq)
  have f1: "flow (\<lambda>x. x) [Requested 0 ''dc'' ''ABCD-EFGH''] ds1"
    using flow_authorize [OF flow_start _ _ 1] codes by (simp add: later_def fresh_code_def)
  have f2: "flow (\<lambda>x. x) [Activated 1000 ''ABCD-EFGH'', Requested 0 ''dc'' ''ABCD-EFGH''] ds2"
    using flow_activate [OF f1 _ 2] d2(1) by (simp add: later_def)
  show ?thesis
    using flow_token [OF f2 _ 3] d3 by (simp add: later_def)
qed

lemma device_grant_sound_witness:
  "\<exists>t0 uc ta. Requested t0 ''dc'' uc \<in> set [Granted 2000 ''dc'' ''fac_key'', Activated 1000 ''ABCD-EFGH'', Requested 0 ''dc'' ''ABCD-EFGH''] \<and>
     Activated ta uc \<in> set [Granted 2000 ''dc'' ''fac_key'', Activated 1000 ''ABCD-EFGH'', Requested 0 ''dc'' ''ABCD-EFGH''] \<and>
     t0 \<le> ta \<and> ta \<le> t0 + device_ttl \<and> t0 \<le> 2000 \<and> 2000 \<le> t0 + device_ttl"
  using device_grant_sound [OF example_flow] by (meson list.set_intros(1))

end
