(* ===== verification/Retrying.thy ===== *)
theory Retrying
  imports WebhookSecret
begin

text \<open>
  What the two TypeScript clients of the facilitator share (\<open>sdk/src/client.ts\<close> and
  \<open>src/sdk/client/facilitator-client.ts\<close>): \<open>fetch\<close> as a function of the state of the outside
  world, a log of the requests sent and the pauses made, and the interface of a request that is
  repeated a bounded number of times, with what follows from it for any client.
\<close>

section \<open>HTTP as a client sees it\<close>

record http_answer =
  ha_status :: int
  ha_json :: "exn + json"

record api_request =
  ar_method :: string
  ar_url :: string
  ar_headers :: "(string \<times> string) list"
  ar_body :: "json option"

text \<open>What \<open>fetch\<close> comes to: it rejects, or there is an answer.\<close>

type_synonym fetched = "exn + http_answer"

datatype client_event = Exchanged api_request fetched | Slept int

record 'x client_world =
  cw_net :: 'x
  cw_log :: "client_event list"

type_synonym 'x network = "api_request \<Rightarrow> 'x \<Rightarrow> fetched \<times> 'x"

definition exchange :: "'x network \<Rightarrow> api_request \<Rightarrow> 'x client_world \<Rightarrow> fetched \<times> 'x client_world" where
  "exchange F rq w = (case F rq (cw_net w) of (x, n) \<Rightarrow> (x, \<lparr>cw_net = n, cw_log = cw_log w @ [Exchanged rq x]\<rparr>))"

definition sleep :: "int \<Rightarrow> ('x client_world, 'e, unit) prog" where
  "sleep ms = (\<lambda>w. (Inr (), w\<lparr>cw_log := cw_log w @ [Slept ms]\<rparr>))"

definition answer_ok :: "http_answer \<Rightarrow> bool" where
  "answer_ok a = (200 \<le> ha_status a \<and> ha_status a \<le> 299)"

text \<open>\<open>url.replace(/\/$/, '')\<close>\<close>

definition without_slash :: "string \<Rightarrow> string" where
  "without_slash u = (if u \<noteq> [] \<and> last u = CHR ''/'' then butlast u else u)"

text \<open>An answer that the network gives to the request in some state.\<close>

definition sent :: "'x network \<Rightarrow> api_request \<Rightarrow> fetched \<Rightarrow> bool" where
  "sent F rq x \<longleftrightarrow> (\<exists>n. x = fst (F rq n))"

lemma exchange_log: "exchange F rq w = (x, w1) \<Longrightarrow> cw_log w1 = cw_log w @ [Exchanged rq x]"
  by (auto simp: exchange_def split: prod.splits)

lemma exchange_sent: "exchange F rq w = (x, w1) \<Longrightarrow> sent F rq x"
  by (auto simp: exchange_def sent_def split: prod.splits intro!: exI [where x = "cw_net w"])

section \<open>A request that is repeated\<close>

text \<open>
  The exchanges of one request: \<open>again n x\<close> is the pause after the answer \<open>x\<close> to attempt \<open>n\<close>,
  when there is one.
\<close>

fun attempts :: "api_request \<Rightarrow> (nat \<Rightarrow> fetched \<Rightarrow> int option) \<Rightarrow> nat \<Rightarrow> fetched list \<Rightarrow> client_event list" where
  "attempts rq again n [] = []"
| "attempts rq again n [x] = [Exchanged rq x]"
| "attempts rq again n (x # y # xs) =
     Exchanged rq x # Slept (the (again n x)) # attempts rq again (Suc n) (y # xs)"

text \<open>Every answer but the last asked for another attempt.\<close>

fun all_again :: "(nat \<Rightarrow> fetched \<Rightarrow> int option) \<Rightarrow> nat \<Rightarrow> fetched list \<Rightarrow> bool" where
  "all_again again n [] = False"
| "all_again again n [x] = (again n x = None)"
| "all_again again n (x # y # xs) = (again n x \<noteq> None \<and> all_again again (Suc n) (y # xs))"

lemma attempts_events: "e \<in> set (attempts rq again n xs) \<Longrightarrow> (\<exists>x\<in>set xs. e = Exchanged rq x) \<or> (\<exists>d. e = Slept d)"
  by (induction rq again n xs rule: attempts.induct) auto

lemma attempts_exchanged: "x \<in> set xs \<Longrightarrow> Exchanged rq x \<in> set (attempts rq again n xs)"
  by (induction rq again n xs rule: attempts.induct) auto

lemma attempts_requests:
  "length (filter (\<lambda>e. \<exists>r x. e = Exchanged r x) (attempts rq again n xs)) = length xs"
  by (induction rq again n xs rule: attempts.induct) auto

locale retrying =
  fixes net :: "'x network"
    and rq :: api_request
    and again :: "nat \<Rightarrow> fetched \<Rightarrow> int option"
    and finish :: "fetched \<Rightarrow> 'e + 'r"
    and bound :: int
    and run :: "nat \<Rightarrow> ('x client_world, 'e, 'r) prog"
  assumes run_eq: "run n w = (case exchange net rq w of (x, w1) \<Rightarrow>
      (case again n x of
         Some d \<Rightarrow> run (Suc n) (w1\<lparr>cw_log := cw_log w1 @ [Slept d]\<rparr>)
       | None \<Rightarrow> (finish x, w1)))"
    and again_bound: "again n x = Some d \<Longrightarrow> int n < bound"
begin

text \<open>The log of a run, the number of its attempts and its result.\<close>

lemma run_attempts:
  assumes "run n w = (r, w')"
  shows "\<exists>xs. xs \<noteq> [] \<and> cw_log w' = cw_log w @ attempts rq again n xs \<and> all_again again n xs \<and>
    r = finish (last xs) \<and> int (n + length xs) \<le> max (int n) bound + 1 \<and> (\<forall>x\<in>set xs. sent net rq x)"
  using assms
proof (induction "nat (bound - int n)" arbitrary: n w)
  case less: 0
  obtain x w1 where x: "exchange net rq w = (x, w1)" by fastforce
  have "again n x = None"
    using again_bound [of n x] less.hyps by (cases "again n x") auto
  then show ?case
    using less.prems x exchange_log [OF x] exchange_sent [OF x] by (intro exI [where x = "[x]"]) (auto simp: run_eq [of n])
next
  case (Suc k)
  obtain x w1 where x: "exchange net rq w = (x, w1)" by fastforce
  show ?case
  proof (cases "again n x")
    case None
    then show ?thesis
      using Suc.prems x exchange_log [OF x] exchange_sent [OF x] by (intro exI [where x = "[x]"]) (auto simp: run_eq [of n])
  next
    case (Some d)
    have k: "k = nat (bound - int (Suc n))" using Suc.hyps(2) by linarith
    have "run (Suc n) (w1\<lparr>cw_log := cw_log w1 @ [Slept d]\<rparr>) = (r, w')"
      using Suc.prems x Some by (simp add: run_eq [of n])
    from Suc.hyps(1) [OF k this] obtain xs where xs: "xs \<noteq> []"
      "cw_log w' = cw_log w1 @ [Slept d] @ attempts rq again (Suc n) xs" "all_again again (Suc n) xs"
      "r = finish (last xs)" "int (Suc n + length xs) \<le> max (int (Suc n)) bound + 1" "\<forall>x\<in>set xs. sent net rq x" by auto
    then obtain y ys where ys: "xs = y # ys" by (cases xs) auto
    show ?thesis
      using xs Some exchange_log [OF x] exchange_sent [OF x] again_bound [OF Some] by (intro exI [where x = "x # xs"]) (auto simp: ys)
  qed
qed

end

end
