(* ===== verification/SdkClient.thy ===== *)
theory SdkClient
  imports Retrying
begin

text \<open>
  The published SDK: \<open>FacilitatorClient\<close> of \<open>sdk/src/client.ts\<close> with its errors
  (\<open>sdk/src/errors.ts\<close>). The recursion of \<open>request\<close> over its attempts is a function whose
  termination is proved by the number of retries left.
\<close>

section \<open>Errors\<close>

text \<open>The fields hold whatever JSON the server sent; \<open>None\<close> is \<open>undefined\<close>.\<close>

record api_error =
  ae_code :: "json option"
  ae_reason :: "json option"
  ae_message :: "json option"
  ae_correlationId :: "json option"
  ae_httpStatus :: int

datatype sdk_error =
    FacilitatorAPIError api_error
  | FacilitatorNetworkError string
  | FacilitatorTimeoutError int
  | SdkOther exn

definition code_in :: "string list \<Rightarrow> json option \<Rightarrow> bool" where
  "code_in cs v = (case v of Some (JStr s) \<Rightarrow> s \<in> set cs | _ \<Rightarrow> False)"

definition api_isRetryable :: "api_error \<Rightarrow> bool" where
  "api_isRetryable e = code_in [''internal_error'', ''settlement_pending'', ''rpc_unavailable''] (ae_code e)"

definition isDuplicate :: "api_error \<Rightarrow> bool" where
  "isDuplicate e = code_in [''duplicate_payment'', ''duplicate_settlement''] (ae_code e)"

definition isExpired :: "api_error \<Rightarrow> bool" where
  "isExpired e = (ae_code e = Some (JStr ''expired_payment''))"

section \<open>The client\<close>

record sdk_options =
  so_url :: string
  so_apiKey :: "string option"
  so_timeout :: "int option"
  so_retries :: "int option"

record sdk_client =
  sc_baseUrl :: string
  sc_apiKey :: "string option"
  sc_timeout :: int
  sc_retries :: int

definition new_client :: "sdk_options \<Rightarrow> sdk_client" where
  "new_client opts =
     \<lparr>sc_baseUrl = without_slash (so_url opts), sc_apiKey = so_apiKey opts,
      sc_timeout = (case so_timeout opts of Some t \<Rightarrow> t | None \<Rightarrow> 10000),
      sc_retries = (case so_retries opts of Some n \<Rightarrow> n | None \<Rightarrow> 2)\<rparr>"

text \<open>\<open>if (this.apiKey)\<close> is false on the empty string.\<close>

definition bearer :: "string option \<Rightarrow> (string \<times> string) list" where
  "bearer k = (case k of None \<Rightarrow> [] | Some s \<Rightarrow> if s = '''' then [] else [(''Authorization'', ''Bearer '' @ s)])"

definition sdk_http :: "sdk_client \<Rightarrow> string \<Rightarrow> string \<Rightarrow> json option \<Rightarrow> api_request" where
  "sdk_http c verb path body =
     \<lparr>ar_method = verb, ar_url = sc_baseUrl c @ path,
      ar_headers = [(''Content-Type'', ''application/json''), (''User-Agent'', ''@orizonlab/x402-client/0.1.0'')] @
        bearer (sc_apiKey c),
      ar_body = body\<rparr>"

text \<open>\<open>new FacilitatorAPIError({...errBody.error, status: res.status})\<close>\<close>

definition spread :: "json option \<Rightarrow> string \<Rightarrow> json option" where
  "spread v k = (case v of Some (JObj kvs) \<Rightarrow> map_of kvs k | _ \<Rightarrow> None)"

definition api_error_of :: "json option \<Rightarrow> int \<Rightarrow> api_error" where
  "api_error_of v status =
     \<lparr>ae_code = spread v ''code'', ae_reason = spread v ''reason'', ae_message = spread v ''message'',
      ae_correlationId = spread v ''correlationId'', ae_httpStatus = status\<rparr>"

text \<open>
  What the \<open>try\<close> block makes of the exchange: something thrown that it catches (\<open>fetch\<close> or
  \<open>res.json()\<close> rejects, or the body is \<open>null\<close>), an error of the server, or the body.
\<close>

definition sdk_answer :: "fetched \<Rightarrow> exn + (api_error + json)" where
  "sdk_answer x =
     (case x of Inl e \<Rightarrow> Inl e
      | Inr a \<Rightarrow>
         (case ha_json a of Inl e \<Rightarrow> Inl e
          | Inr j \<Rightarrow>
              if answer_ok a then Inr (Inr j)
              else (case js_get j ''error'' of Inl e \<Rightarrow> Inl e
                    | Inr v \<Rightarrow> Inr (Inl (api_error_of v (ha_status a))))))"

text \<open>\<open>return this.request(...)\<close> is not awaited in the \<open>try\<close>, so nothing catches what it throws.\<close>

function sdk_request ::
  "'x network \<Rightarrow> sdk_client \<Rightarrow> string \<Rightarrow> string \<Rightarrow> json option \<Rightarrow> nat \<Rightarrow> ('x client_world, sdk_error, json) prog" where
  "sdk_request F c verb path body attempt =
     seq (\<lambda>w. case exchange F (sdk_http c verb path body) w of (x, w1) \<Rightarrow> (Inr x, w1)) (\<lambda>x.
       case sdk_answer x of
         Inr (Inr j) \<Rightarrow> ret j
       | Inr (Inl err) \<Rightarrow>
           if api_isRetryable err \<and> int attempt < sc_retries c then
             seq (sleep (200 * 2 ^ attempt)) (\<lambda>_. sdk_request F c verb path body (attempt + 1))
           else throw (FacilitatorAPIError err)
       | Inl e \<Rightarrow>
           if exn_name e = ''AbortError'' then throw (FacilitatorTimeoutError (sc_timeout c))
           else if int attempt < sc_retries c then
             seq (sleep (200 * 2 ^ attempt)) (\<lambda>_. sdk_request F c verb path body (attempt + 1))
           else throw (FacilitatorNetworkError (''Network error: '' @ exn_message e)))"
  by pat_completeness auto
termination
  by (relation "measure (\<lambda>(F, c, verb, path, body, attempt). nat (sc_retries c - int attempt))") auto

declare sdk_request.simps [simp del]

definition sdk_post :: "'x network \<Rightarrow> sdk_client \<Rightarrow> string \<Rightarrow> json \<Rightarrow> ('x client_world, sdk_error, json) prog" where
  "sdk_post F c path body = sdk_request F c ''POST'' path (Some body) 0"

definition sdk_get :: "'x network \<Rightarrow> sdk_client \<Rightarrow> string \<Rightarrow> ('x client_world, sdk_error, json) prog" where
  "sdk_get F c path = sdk_request F c ''GET'' path None 0"

section \<open>The operations\<close>

definition sdk_verify :: "'x network \<Rightarrow> sdk_client \<Rightarrow> json \<Rightarrow> ('x client_world, sdk_error, json) prog" where
  "sdk_verify F c proof = sdk_post F c ''/verify'' proof"

text \<open>\<open>{ requestId }\<close>; \<open>JSON.stringify\<close> drops it when it is \<open>undefined\<close>.\<close>

definition settle_request_body :: "json option \<Rightarrow> json" where
  "settle_request_body requestId =
     JObj (case requestId of None \<Rightarrow> [] | Some r \<Rightarrow> [(''requestId'', r)])"

definition sdk_settle :: "'x network \<Rightarrow> sdk_client \<Rightarrow> json option \<Rightarrow> ('x client_world, sdk_error, json) prog" where
  "sdk_settle F c requestId = sdk_post F c ''/settle'' (settle_request_body requestId)"

definition sdk_getReceipt :: "'x network \<Rightarrow> sdk_client \<Rightarrow> string \<Rightarrow> ('x client_world, sdk_error, json) prog" where
  "sdk_getReceipt F c receiptId = sdk_get F c (''/receipts/'' @ receiptId)"

definition sdk_getSupported :: "'x network \<Rightarrow> sdk_client \<Rightarrow> ('x client_world, sdk_error, json) prog" where
  "sdk_getSupported F c = sdk_get F c ''/supported''"

definition sdk_health :: "'x network \<Rightarrow> sdk_client \<Rightarrow> ('x client_world, sdk_error, json) prog" where
  "sdk_health F c = sdk_get F c ''/health''"

definition read_prop :: "json \<Rightarrow> string \<Rightarrow> ('w, sdk_error, json option) prog" where
  "read_prop j k = (case js_get j k of Inl e \<Rightarrow> throw (SdkOther e) | Inr v \<Rightarrow> ret v)"

text \<open>\<open>v ?? d\<close>, and a value in a template string.\<close>

definition nullish_or :: "json option \<Rightarrow> json \<Rightarrow> json" where
  "nullish_or v d = (case v of None \<Rightarrow> d | Some JNull \<Rightarrow> d | Some j \<Rightarrow> j)"

definition template_of :: "json option \<Rightarrow> string" where
  "template_of v = (case v of None \<Rightarrow> ''undefined'' | Some j \<Rightarrow> js_String j)"

definition rejected_error :: "json \<Rightarrow> api_error" where
  "rejected_error v =
     \<lparr>ae_code = Some (nullish_or (json_get v ''errorCode'') (JStr ''verify_rejected'')),
      ae_reason = Some (nullish_or (json_get v ''reason'') (JStr ''Payment verification rejected'')),
      ae_message = Some (JStr (''Payment was rejected: '' @ template_of (json_get v ''reason''))),
      ae_correlationId = json_get v ''correlationId'', ae_httpStatus = 402\<rparr>"

definition sdk_pay :: "'x network \<Rightarrow> sdk_client \<Rightarrow> json \<Rightarrow> ('x client_world, sdk_error, json \<times> json) prog" where
  "sdk_pay F c proof =
     seq (sdk_verify F c proof) (\<lambda>v.
     seq (read_prop v ''status'') (\<lambda>status.
       if status \<noteq> Some (JStr ''accepted'') then throw (FacilitatorAPIError (rejected_error v))
       else seq (sdk_settle F c (json_get v ''requestId'')) (\<lambda>s. ret (v, s))))"

text \<open>\<open>for (let i = 0; i < maxAttempts; i++)\<close>, by the number of rounds left.\<close>

primrec poll_rounds ::
  "'x network \<Rightarrow> sdk_client \<Rightarrow> string \<Rightarrow> int \<Rightarrow> int \<Rightarrow> nat \<Rightarrow> ('x client_world, sdk_error, json) prog" where
  "poll_rounds F c receiptId intervalMs waited 0 = throw (FacilitatorTimeoutError waited)"
| "poll_rounds F c receiptId intervalMs waited (Suc n) =
     seq (sdk_getReceipt F c receiptId) (\<lambda>receipt.
     seq (read_prop receipt ''status'') (\<lambda>status.
       if status = Some (JStr ''confirmed'') \<or> status = Some (JStr ''failed'') then ret receipt
       else seq (sleep intervalMs) (\<lambda>_. poll_rounds F c receiptId intervalMs waited n)))"

definition pollSettlement ::
  "'x network \<Rightarrow> sdk_client \<Rightarrow> string \<Rightarrow> int option \<Rightarrow> int option \<Rightarrow> ('x client_world, sdk_error, json) prog" where
  "pollSettlement F c receiptId interval attempts_max =
     (let intervalMs = (case interval of Some i \<Rightarrow> i | None \<Rightarrow> 2000);
          maxAttempts = (case attempts_max of Some m \<Rightarrow> m | None \<Rightarrow> 30)
      in poll_rounds F c receiptId intervalMs (intervalMs * maxAttempts) (nat maxAttempts))"

section \<open>What a request does\<close>

text \<open>When an answer is tried again, and what the last one comes to.\<close>

definition transient :: "fetched \<Rightarrow> bool" where
  "transient x = (case sdk_answer x of
     Inr (Inl err) \<Rightarrow> api_isRetryable err | Inr (Inr j) \<Rightarrow> False | Inl e \<Rightarrow> exn_name e \<noteq> ''AbortError'')"

definition sdk_again :: "int \<Rightarrow> nat \<Rightarrow> fetched \<Rightarrow> int option" where
  "sdk_again retries n x = (if transient x \<and> int n < retries then Some (200 * 2 ^ n) else None)"

definition sdk_result :: "sdk_client \<Rightarrow> fetched \<Rightarrow> sdk_error + json" where
  "sdk_result c x = (case sdk_answer x of
     Inr (Inr j) \<Rightarrow> Inr j
   | Inr (Inl err) \<Rightarrow> Inl (FacilitatorAPIError err)
   | Inl e \<Rightarrow> Inl (if exn_name e = ''AbortError'' then FacilitatorTimeoutError (sc_timeout c)
                   else FacilitatorNetworkError (''Network error: '' @ exn_message e)))"

interpretation sdk: retrying F "sdk_http c verb path body" "sdk_again (sc_retries c)" "sdk_result c" "sc_retries c"
    "sdk_request F c verb path body"
  for F c verb path body
proof unfold_locales
  fix n :: nat and w :: "'a client_world"
  obtain x w1 where x: "exchange F (sdk_http c verb path body) w = (x, w1)" by fastforce
  show "sdk_request F c verb path body n w =
    (case exchange F (sdk_http c verb path body) w of (x, w1) \<Rightarrow>
      (case sdk_again (sc_retries c) n x of
         Some d \<Rightarrow> sdk_request F c verb path body (Suc n) (w1\<lparr>cw_log := cw_log w1 @ [Slept d]\<rparr>)
       | None \<Rightarrow> (sdk_result c x, w1)))"
    by (subst sdk_request.simps)
      (auto simp: seq_def x sleep_def sdk_again_def sdk_result_def transient_def ret_def throw_def split: sum.splits)
qed (auto simp: sdk_again_def split: if_splits)

lemma sdk_result_Inr: "sdk_result c x = Inr j \<longleftrightarrow> (\<exists>a. x = Inr a \<and> answer_ok a \<and> ha_json a = Inr j)"
  unfolding sdk_result_def sdk_answer_def by (auto split: sum.splits if_splits)

lemma sdk_result_settled: "sdk_result c x = Inr j \<Longrightarrow> sdk_again n k x = None"
  unfolding sdk_result_def sdk_again_def transient_def by (auto split: sum.splits)

text \<open>The log holds a successful answer to the request with this body.\<close>

definition answered :: "client_event list \<Rightarrow> api_request \<Rightarrow> json \<Rightarrow> bool" where
  "answered l rq j \<longleftrightarrow> (\<exists>a. Exchanged rq (Inr a) \<in> set l \<and> answer_ok a \<and> ha_json a = Inr j)"

lemma answered_append: "answered l1 rq j \<or> answered l2 rq j \<Longrightarrow> answered (l1 @ l2) rq j"
  unfolding answered_def by auto

text \<open>The exchanges of a request, wherever it is called from.\<close>

lemma sdk_request_log:
  assumes "sdk_request F c verb path body n w = (r, w')"
  shows "\<exists>l. cw_log w' = cw_log w @ l \<and> (\<forall>q x. Exchanged q x \<in> set l \<longrightarrow> q = sdk_http c verb path body) \<and>
    (\<forall>j. r = Inr j \<longrightarrow> answered l (sdk_http c verb path body) j)"
proof -
  obtain xs where xs: "xs \<noteq> []" "cw_log w' = cw_log w @ attempts (sdk_http c verb path body) (sdk_again (sc_retries c)) n xs"
    "r = sdk_result c (last xs)"
    using sdk.run_attempts [OF assms] by blast
  show ?thesis
  proof (rule exI, intro conjI allI impI)
    show "cw_log w' = cw_log w @ attempts (sdk_http c verb path body) (sdk_again (sc_retries c)) n xs" by (rule xs)
  next
    fix q x assume "Exchanged q x \<in> set (attempts (sdk_http c verb path body) (sdk_again (sc_retries c)) n xs)"
    then show "q = sdk_http c verb path body" using attempts_events by blast
  next
    fix j assume "r = Inr j"
    then obtain a where a: "last xs = Inr a" "answer_ok a" "ha_json a = Inr j"
      using xs(3) sdk_result_Inr by metis
    then have "Exchanged (sdk_http c verb path body) (Inr a) \<in> set (attempts (sdk_http c verb path body) (sdk_again (sc_retries c)) n xs)"
      using attempts_exchanged xs(1) last_in_set by metis
    then show "answered (attempts (sdk_http c verb path body) (sdk_again (sc_retries c)) n xs) (sdk_http c verb path body) j"
      unfolding answered_def using a by blast
  qed
qed

text \<open>C26. A request of the SDK ends: after at most \<open>retries + 1\<close> exchanges, all of the same request, with a
  pause of \<open>200 * 2^k\<close> ms after attempt k, where every answer but the last was a transient failure
  (a retryable code, or no answer to parse) and the result is what the last answer says; it gives up
  on a transient failure only when no retry is left.
\<close>

theorem sdk_request_ends:
  assumes "sdk_request F c verb path body 0 w = (r, w')"
  shows "\<exists>xs. xs \<noteq> [] \<and> int (length xs) \<le> max 0 (sc_retries c) + 1 \<and>
    cw_log w' = cw_log w @ attempts (sdk_http c verb path body) (\<lambda>k x. Some (200 * 2 ^ k)) 0 xs \<and>
    (\<forall>x\<in>set (butlast xs). transient x) \<and> r = sdk_result c (last xs) \<and>
    (transient (last xs) \<longrightarrow> int (length xs) = max 0 (sc_retries c) + 1)"
proof -
  have delays: "all_again (sdk_again R) n ys \<Longrightarrow>
      attempts q (sdk_again R) n ys = attempts q (\<lambda>k x. Some (200 * 2 ^ k)) n ys \<and>
      (\<forall>x\<in>set (butlast ys). transient x) \<and> (transient (last ys) \<longrightarrow> R \<le> int (n + length ys) - 1)" for q R n ys
    by (induction q "sdk_again R" n ys rule: attempts.induct) (auto simp: sdk_again_def split: if_splits)
  obtain xs where xs: "xs \<noteq> []" "cw_log w' = cw_log w @ attempts (sdk_http c verb path body) (sdk_again (sc_retries c)) 0 xs"
    "all_again (sdk_again (sc_retries c)) 0 xs" "r = sdk_result c (last xs)" "int (length xs) \<le> max 0 (sc_retries c) + 1"
    using sdk.run_attempts [OF assms] by auto
  note d = delays [OF xs(3), of "sdk_http c verb path body"]
  have len: "1 \<le> int (length xs)" using xs(1) by (cases xs) auto
  have "int (length xs) = max 0 (sc_retries c) + 1" if "transient (last xs)"
  proof -
    have "sc_retries c \<le> int (length xs) - 1" using d that by simp
    then show ?thesis using len xs(5) by linarith
  qed
  then show ?thesis
    using xs d by (intro exI [where x = xs]) auto
qed

text \<open>A server that fails once and then answers.\<close>

definition flaky :: "nat network" where
  "flaky rq n = (if n = 0 then Inl (JsError ''TypeError'' ''fetch failed'') else
     Inr \<lparr>ha_status = 200, ha_json = Inr (JObj [(''status'', JStr ''ok'')])\<rparr>, n + 1)"

definition sample_client :: sdk_client where
  "sample_client = new_client \<lparr>so_url = ''http://f/'', so_apiKey = None, so_timeout = None, so_retries = None\<rparr>"

lemma flaky_run:
  "\<exists>w'. sdk_request flaky sample_client ''GET'' ''/health'' None 0 \<lparr>cw_net = 0, cw_log = []\<rparr> =
     (Inr (JObj [(''status'', JStr ''ok'')]), w') \<and> length (cw_log w') = 3"
  by (simp add: sdk_request.simps seq_def exchange_def flaky_def sdk_answer_def sleep_def ret_def answer_ok_def
      sample_client_def new_client_def)

lemma sdk_request_ends_witness:
  "\<exists>xs w'. sdk_request flaky sample_client ''GET'' ''/health'' None 0 \<lparr>cw_net = 0, cw_log = []\<rparr> =
       (Inr (JObj [(''status'', JStr ''ok'')]), w') \<and>
     cw_log w' = attempts (sdk_http sample_client ''GET'' ''/health'' None) (\<lambda>k x. Some (200 * 2 ^ k)) 0 xs \<and>
     int (length xs) \<le> max 0 (sc_retries sample_client) + 1"
proof -
  obtain w' where w: "sdk_request flaky sample_client ''GET'' ''/health'' None 0 \<lparr>cw_net = 0, cw_log = []\<rparr> =
     (Inr (JObj [(''status'', JStr ''ok'')]), w')"
    using flaky_run by blast
  show ?thesis using sdk_request_ends [OF w] w by auto
qed

section \<open>Paying\<close>

text \<open>\<open>pay\<close> sends \<open>/settle\<close> only after an answer to its \<open>/verify\<close> said \<open>accepted\<close>, with the request id of
  that answer and nothing else, and returns normally only with the bodies of a successful verification
  and of a successful settlement.
\<close>

theorem sdk_pay_gated:
  assumes "sdk_pay F c proof w = (r, w')"
  shows "\<exists>l. cw_log w' = cw_log w @ l \<and>
    (\<forall>q x. Exchanged q x \<in> set l \<longrightarrow> q = sdk_http c ''POST'' ''/verify'' (Some proof) \<or>
       (\<exists>v. answered l (sdk_http c ''POST'' ''/verify'' (Some proof)) v \<and> json_get v ''status'' = Some (JStr ''accepted'') \<and>
          q = sdk_http c ''POST'' ''/settle'' (Some (settle_request_body (json_get v ''requestId''))))) \<and>
    (\<forall>v s. r = Inr (v, s) \<longrightarrow> answered l (sdk_http c ''POST'' ''/verify'' (Some proof)) v \<and>
       answered l (sdk_http c ''POST'' ''/settle'' (Some (settle_request_body (json_get v ''requestId'')))) s)"
proof -
  let ?V = "sdk_http c ''POST'' ''/verify'' (Some proof)"
  obtain rv w1 where v: "sdk_verify F c proof w = (rv, w1)" by fastforce
  obtain l1 where l1: "cw_log w1 = cw_log w @ l1" "\<And>q x. Exchanged q x \<in> set l1 \<Longrightarrow> q = ?V"
    "\<And>j. rv = Inr j \<Longrightarrow> answered l1 ?V j"
    using sdk_request_log [OF v [unfolded sdk_verify_def sdk_post_def]] by blast
  show ?thesis
  proof (cases "\<exists>j. rv = Inr j \<and> js_get j ''status'' = Inr (Some (JStr ''accepted''))")
    case False
    then have "w' = w1" "\<nexists>p. r = Inr p"
      using assms v by (auto simp: sdk_pay_def seq_def read_prop_def throw_def ret_def split: sum.splits)
    then show ?thesis using l1 by (intro exI [where x = l1]) auto
  next
    case True
    then obtain j where j: "rv = Inr j" "js_get j ''status'' = Inr (Some (JStr ''accepted''))" by blast
    then have status: "json_get j ''status'' = Some (JStr ''accepted'')"
      by (cases j) (auto simp: js_get_def)
    let ?S = "sdk_http c ''POST'' ''/settle'' (Some (settle_request_body (json_get j ''requestId'')))"
    obtain rs w2 where s: "sdk_settle F c (json_get j ''requestId'') w1 = (rs, w2)" by fastforce
    obtain l2 where l2: "cw_log w2 = cw_log w1 @ l2" "\<And>q x. Exchanged q x \<in> set l2 \<Longrightarrow> q = ?S"
      "\<And>j. rs = Inr j \<Longrightarrow> answered l2 ?S j"
      using sdk_request_log [OF s [unfolded sdk_settle_def sdk_post_def]] by blast
    have run: "w' = w2" "\<And>p. r = Inr p \<Longrightarrow> fst p = j \<and> rs = Inr (snd p)"
      using assms v s j by (auto simp: sdk_pay_def seq_def read_prop_def throw_def ret_def split: sum.splits)
    have a: "answered (l1 @ l2) ?V j"
      using l1(3) [OF j(1)] answered_append by blast
    have log: "cw_log w' = cw_log w @ l1 @ l2" using run l1 l2 by simp
    have gate: "q = ?V \<or> (\<exists>v. answered (l1 @ l2) ?V v \<and> json_get v ''status'' = Some (JStr ''accepted'') \<and>
        q = sdk_http c ''POST'' ''/settle'' (Some (settle_request_body (json_get v ''requestId''))))"
      if "Exchanged q x \<in> set (l1 @ l2)" for q x
    proof (cases "Exchanged q x \<in> set l1")
      case True
      then show ?thesis using l1(2) by blast
    next
      case False
      then have "q = ?S" using that l2(2) [of q x] by simp
      then show ?thesis using a status by blast
    qed
    have "v = j \<and> answered (l1 @ l2) ?S s" if "r = Inr (v, s)" for v s
      using run(2) [OF that] l2(3) [of s] answered_append by auto
    then show ?thesis
      using log gate a by (intro exI [where x = "l1 @ l2"] conjI allI impI) auto
  qed
qed

text \<open>A server that accepts and settles.\<close>

definition willing :: "nat network" where
  "willing rq n = (Inr \<lparr>ha_status = 200, ha_json = Inr (JObj
     [(''status'', JStr (if n = 0 then ''accepted'' else ''confirmed'')), (''requestId'', JStr ''r1'')])\<rparr>, n + 1)"

lemma willing_pay:
  "\<exists>v s w'. sdk_pay willing sample_client (JObj []) \<lparr>cw_net = 0, cw_log = []\<rparr> = (Inr (v, s), w') \<and>
     json_get v ''requestId'' = Some (JStr ''r1'')"
  by (simp add: sdk_pay_def sdk_verify_def sdk_settle_def sdk_post_def sdk_request.simps read_prop_def js_get_def seq_def
      exchange_def willing_def sdk_answer_def ret_def answer_ok_def)

lemma sdk_pay_gated_witness:
  "\<exists>v s w'. sdk_pay willing sample_client (JObj []) \<lparr>cw_net = 0, cw_log = []\<rparr> = (Inr (v, s), w') \<and>
     answered (cw_log w') (sdk_http sample_client ''POST'' ''/settle'' (Some (settle_request_body (Some (JStr ''r1''))))) s"
proof -
  obtain v s w' where p: "sdk_pay willing sample_client (JObj []) \<lparr>cw_net = 0, cw_log = []\<rparr> = (Inr (v, s), w')"
    "json_get v ''requestId'' = Some (JStr ''r1'')"
    using willing_pay by blast
  show ?thesis using sdk_pay_gated [OF p(1)] p by auto
qed

section \<open>Polling\<close>

text \<open>What a read of a property tells of the value.\<close>

lemma read_prop_Inr [run_simps]:
  "read_prop j k w = (Inr v, w') \<longleftrightarrow> w' = w \<and> j \<noteq> JNull \<and> v = json_get j k"
  by (cases j) (auto simp: read_prop_def js_get_def throw_def ret_def)

text \<open>A receipt that never has a final status.\<close>

lemma poll_rounds_stuck:
  assumes "\<And>w. cw_net w = s \<Longrightarrow> \<exists>j. sdk_getReceipt F c rid w = (Inr j, w\<lparr>cw_log := cw_log w @ [e]\<rparr>) \<and> j \<noteq> JNull \<and>
      json_get j ''status'' = None"
    and "cw_net w = s"
  shows "poll_rounds F c rid interval waited n w =
    (Inl (FacilitatorTimeoutError waited), w\<lparr>cw_log := cw_log w @ concat (replicate n [e, Slept interval])\<rparr>)"
  using assms(2)
proof (induction n arbitrary: w)
  case 0
  then show ?case by (simp add: throw_def)
next
  case (Suc n)
  obtain j where j: "sdk_getReceipt F c rid w = (Inr j, w\<lparr>cw_log := cw_log w @ [e]\<rparr>)" "j \<noteq> JNull" "json_get j ''status'' = None"
    using assms(1) [OF Suc.prems] by blast
  then have "read_prop j ''status'' w1 = (Inr None, w1)" for w1 :: "'a client_world"
    by (cases j) (auto simp: read_prop_def js_get_def ret_def)
  then show ?case
    using j Suc by (simp add: seq_def sleep_def)
qed

lemma poll_rounds_final:
  "poll_rounds F c rid interval waited n w = (Inr j, w') \<Longrightarrow>
     json_get j ''status'' \<in> {Some (JStr ''confirmed''), Some (JStr ''failed'')}"
  by (induction n arbitrary: w) (auto simp: run_simps)

end
