(* ===== verification/AgentClient.thy ===== *)
theory AgentClient
  imports SdkClient
begin

text \<open>
  The client for agents and robots, \<open>src/sdk/client/facilitator-client.ts\<close>, with its error class
  (\<open>facilitator-error.ts\<close>): a request is repeated while its
  error is retryable, and ends because the retries left decrease.
\<close>

section \<open>The client for agents and robots\<close>

record client_error =
  fe2_code :: json
  fe2_reason :: json
  fe2_message :: json
  fe2_httpStatus :: "int option"
  fe2_correlationId :: "json option"

datatype agent_error = FacilitatorError client_error | AgentOther exn

definition agent_isRetryable :: "client_error \<Rightarrow> bool" where
  "agent_isRetryable e = code_in [''internal_error'', ''settlement_pending'', ''rpc_unavailable''] (Some (fe2_code e))"

text \<open>\<open>toJSON()\<close>; \<open>JSON.stringify\<close> drops what is undefined.\<close>

definition client_error_json :: "client_error \<Rightarrow> json" where
  "client_error_json e = JObj
     ([(''name'', JStr ''FacilitatorError''), (''code'', fe2_code e), (''reason'', fe2_reason e),
       (''message'', fe2_message e)] @
      (case fe2_httpStatus e of None \<Rightarrow> [] | Some s \<Rightarrow> [(''httpStatus'', JNum s)]) @
      (case fe2_correlationId e of None \<Rightarrow> [] | Some c \<Rightarrow> [(''correlationId'', c)]))"

record agent_options =
  ao_url :: string
  ao_apiKey :: "string option"
  ao_timeoutMs :: "int option"
  ao_maxRetries :: "int option"
  ao_userAgent :: "string option"

record agent_client =
  ac_baseUrl :: string
  ac_apiKey :: "string option"
  ac_timeoutMs :: int
  ac_maxRetries :: int
  ac_userAgent :: string

definition new_agent :: "agent_options \<Rightarrow> agent_client" where
  "new_agent opts =
     \<lparr>ac_baseUrl = without_slash (ao_url opts), ac_apiKey = ao_apiKey opts,
      ac_timeoutMs = (case ao_timeoutMs opts of Some t \<Rightarrow> t | None \<Rightarrow> 10000),
      ac_maxRetries = (case ao_maxRetries opts of Some n \<Rightarrow> n | None \<Rightarrow> 3),
      ac_userAgent = (case ao_userAgent opts of Some u \<Rightarrow> u | None \<Rightarrow> ''facilitatorx402-sdk/1.1.0'')\<rparr>"

definition agent_http :: "agent_client \<Rightarrow> string \<Rightarrow> string \<Rightarrow> json option \<Rightarrow> api_request" where
  "agent_http c verb path body =
     \<lparr>ar_method = verb, ar_url = ac_baseUrl c @ path,
      ar_headers = [(''Content-Type'', ''application/json''), (''Accept'', ''application/json''),
        (''User-Agent'', ac_userAgent c)] @ bearer (ac_apiKey c),
      ar_body = body\<rparr>"

definition str_error :: "string \<Rightarrow> string \<Rightarrow> string \<Rightarrow> int option \<Rightarrow> client_error" where
  "str_error code reason message status =
     \<lparr>fe2_code = JStr code, fe2_reason = JStr reason, fe2_message = JStr message, fe2_httpStatus = status,
      fe2_correlationId = None\<rparr>"

text \<open>The error of an answer that is not \<open>ok\<close>; reading a property of \<open>null\<close> throws.\<close>

definition answer_error :: "json \<Rightarrow> int \<Rightarrow> exn + client_error" where
  "answer_error data status =
     (case js_get data ''code'' of
        Inl e \<Rightarrow> Inl e
      | Inr code \<Rightarrow> Inr
          \<lparr>fe2_code = nullish_or code (JStr ''unknown_error''),
           fe2_reason = nullish_or (json_get data ''reason'') (JStr ''Unknown error''),
           fe2_message = nullish_or (json_get data ''message'') (JStr (''HTTP '' @ int_str status)),
           fe2_httpStatus = Some status, fe2_correlationId = json_get data ''correlationId''\<rparr>)"

definition non_json :: "int \<Rightarrow> client_error" where
  "non_json status = str_error ''invalid_response'' ''Non-JSON response''
     (''Server returned non-JSON response (HTTP '' @ int_str status @ '')'') (Some status)"

definition fetch_error :: "exn \<Rightarrow> client_error" where
  "fetch_error e = (if exn_name e = ''AbortError'' then str_error ''request_timeout'' ''Request timed out'' (exn_message e) None
     else str_error ''network_error'' ''Network error'' (exn_message e) None)"

text \<open>The answer 204 is \<open>undefined\<close>.\<close>

function agent_request ::
  "'x network \<Rightarrow> agent_client \<Rightarrow> string \<Rightarrow> string \<Rightarrow> json option \<Rightarrow> nat \<Rightarrow>
   ('x client_world, agent_error, json option) prog" where
  "agent_request F c verb path body attempt =
     seq (\<lambda>w. case exchange F (agent_http c verb path body) w of (x, w1) \<Rightarrow> (Inr x, w1)) (\<lambda>x. case x of
       Inl e \<Rightarrow>
         if exn_name e \<noteq> ''AbortError'' \<and> int attempt < ac_maxRetries c then
           seq (sleep (int attempt * 500)) (\<lambda>_. agent_request F c verb path body (attempt + 1))
         else throw (FacilitatorError (fetch_error e))
     | Inr a \<Rightarrow>
         if ha_status a = 204 then ret None
         else (case ha_json a of
           Inl e \<Rightarrow> throw (FacilitatorError (non_json (ha_status a)))
         | Inr data \<Rightarrow>
             if answer_ok a then ret (Some data)
             else (case answer_error data (ha_status a) of
               Inl e \<Rightarrow> throw (AgentOther e)
             | Inr err \<Rightarrow>
                 if agent_isRetryable err \<and> int attempt < ac_maxRetries c then
                   seq (sleep (int attempt * 1000)) (\<lambda>_. agent_request F c verb path body (attempt + 1))
                 else throw (FacilitatorError err))))"
  by pat_completeness auto
termination
  by (relation "measure (\<lambda>(F, c, verb, path, body, attempt). nat (ac_maxRetries c - int attempt))") auto

declare agent_request.simps [simp del]

section \<open>Its operations\<close>

type_synonym 'x agent_call = "('x client_world, agent_error, json option) prog"

definition agent_health :: "'x network \<Rightarrow> agent_client \<Rightarrow> 'x agent_call" where
  "agent_health F c = agent_request F c ''GET'' ''/health'' None 1"

definition agent_supported :: "'x network \<Rightarrow> agent_client \<Rightarrow> 'x agent_call" where
  "agent_supported F c = agent_request F c ''GET'' ''/supported'' None 1"

definition agent_verify :: "'x network \<Rightarrow> agent_client \<Rightarrow> json \<Rightarrow> 'x agent_call" where
  "agent_verify F c payload = agent_request F c ''POST'' ''/verify'' (Some payload) 1"

definition agent_settle :: "'x network \<Rightarrow> agent_client \<Rightarrow> json option \<Rightarrow> 'x agent_call" where
  "agent_settle F c requestId = agent_request F c ''POST'' ''/settle'' (Some (settle_request_body requestId)) 1"

definition agent_getReceipt :: "'x network \<Rightarrow> agent_client \<Rightarrow> string \<Rightarrow> 'x agent_call" where
  "agent_getReceipt F c receiptId = agent_request F c ''GET'' (''/receipts/'' @ receiptId) None 1"

definition agent_registerSeller :: "'x network \<Rightarrow> agent_client \<Rightarrow> json \<Rightarrow> 'x agent_call" where
  "agent_registerSeller F c params = agent_request F c ''POST'' ''/sellers/register'' (Some params) 1"

definition agent_createWebhook :: "'x network \<Rightarrow> agent_client \<Rightarrow> json \<Rightarrow> 'x agent_call" where
  "agent_createWebhook F c params = agent_request F c ''POST'' ''/webhooks'' (Some params) 1"

definition agent_listWebhooks :: "'x network \<Rightarrow> agent_client \<Rightarrow> 'x agent_call" where
  "agent_listWebhooks F c = agent_request F c ''GET'' ''/webhooks'' None 1"

definition agent_deleteWebhook :: "'x network \<Rightarrow> agent_client \<Rightarrow> string \<Rightarrow> 'x agent_call" where
  "agent_deleteWebhook F c webhookId = agent_request F c ''DELETE'' (''/webhooks/'' @ webhookId) None 1"

text \<open>Reading a property of what a call returned, \<open>undefined\<close> included.\<close>

definition agent_prop :: "json option \<Rightarrow> string \<Rightarrow> ('w, agent_error, json option) prog" where
  "agent_prop v k = (case v of
     None \<Rightarrow> throw (AgentOther (JsError ''TypeError'' (''Cannot read properties of undefined (reading '' @ quoted k @ '')'')))
   | Some j \<Rightarrow> (case js_get j k of Inl e \<Rightarrow> throw (AgentOther e) | Inr x \<Rightarrow> ret x))"

definition agent_rejected :: "json option \<Rightarrow> client_error" where
  "agent_rejected v =
     (let get = (\<lambda>k. case v of Some j \<Rightarrow> json_get j k | None \<Rightarrow> None) in
      \<lparr>fe2_code = nullish_or (get ''code'') (JStr ''verify_rejected''),
       fe2_reason = nullish_or (get ''reason'') (JStr ''Payment verification rejected''),
       fe2_message = JStr (''Verification rejected: '' @ template_of (get ''reason'')),
       fe2_httpStatus = None, fe2_correlationId = None\<rparr>)"

record paid =
  pd_receiptId :: json
  pd_txHash :: json
  pd_status :: "json option"

definition agent_pay :: "'x network \<Rightarrow> agent_client \<Rightarrow> json \<Rightarrow> ('x client_world, agent_error, paid) prog" where
  "agent_pay F c payload =
     seq (agent_verify F c payload) (\<lambda>v.
     seq (agent_prop v ''status'') (\<lambda>status.
       if status \<noteq> Some (JStr ''accepted'') then throw (FacilitatorError (agent_rejected v))
       else
         seq (agent_prop v ''requestId'') (\<lambda>requestId.
         seq (agent_settle F c requestId) (\<lambda>s.
         seq (agent_prop s ''receiptId'') (\<lambda>receiptId.
         seq (agent_prop s ''txHash'') (\<lambda>txHash.
         seq (agent_prop s ''status'') (\<lambda>settled.
         ret \<lparr>pd_receiptId = nullish_or receiptId (JStr ''''), pd_txHash = nullish_or txHash (JStr ''''),
              pd_status = settled\<rparr>)))))))"

section \<open>What a request does\<close>

definition agent_again :: "int \<Rightarrow> nat \<Rightarrow> fetched \<Rightarrow> int option" where
  "agent_again most n x =
     (if \<not> int n < most then None
      else (case x of
        Inl e \<Rightarrow> if exn_name e \<noteq> ''AbortError'' then Some (int n * 500) else None
      | Inr a \<Rightarrow>
          (case ha_json a of
             Inl e \<Rightarrow> None
           | Inr data \<Rightarrow>
               if ha_status a = 204 \<or> answer_ok a then None
               else (case answer_error data (ha_status a) of
                       Inl e \<Rightarrow> None
                     | Inr err \<Rightarrow> if agent_isRetryable err then Some (int n * 1000) else None))))"

definition agent_result :: "fetched \<Rightarrow> agent_error + json option" where
  "agent_result x =
     (case x of
        Inl e \<Rightarrow> Inl (FacilitatorError (fetch_error e))
      | Inr a \<Rightarrow>
          if ha_status a = 204 then Inr None
          else (case ha_json a of
            Inl e \<Rightarrow> Inl (FacilitatorError (non_json (ha_status a)))
          | Inr data \<Rightarrow>
              if answer_ok a then Inr (Some data)
              else (case answer_error data (ha_status a) of
                Inl e \<Rightarrow> Inl (AgentOther e) | Inr err \<Rightarrow> Inl (FacilitatorError err))))"

interpretation agent: retrying F "agent_http c verb path body" "agent_again (ac_maxRetries c)" agent_result "ac_maxRetries c"
    "agent_request F c verb path body"
  for F c verb path body
proof unfold_locales
  fix n :: nat and w :: "'a client_world"
  obtain x w1 where x: "exchange F (agent_http c verb path body) w = (x, w1)" by fastforce
  show "agent_request F c verb path body n w =
    (case exchange F (agent_http c verb path body) w of (x, w1) \<Rightarrow>
      (case agent_again (ac_maxRetries c) n x of
         Some d \<Rightarrow> agent_request F c verb path body (Suc n) (w1\<lparr>cw_log := cw_log w1 @ [Slept d]\<rparr>)
       | None \<Rightarrow> (agent_result x, w1)))"
    by (subst agent_request.simps)
      (auto simp: seq_def x sleep_def agent_again_def agent_result_def ret_def throw_def split: sum.splits)
qed (auto simp: agent_again_def split: if_splits)

text \<open>A request of the client for agents ends: after at most \<open>maxRetries\<close> exchanges (one, when
  \<open>maxRetries\<close> is smaller), all of the same request, with the pauses of the retry rule in between,
  and with the result of the last answer; an answer that is not JSON, a timeout and an answer whose
  code is not retryable are never tried again.
\<close>

theorem agent_request_ends:
  assumes "agent_request F c verb path body 1 w = (r, w')"
  shows "\<exists>xs. xs \<noteq> [] \<and> int (length xs) \<le> max 1 (ac_maxRetries c) \<and>
    cw_log w' = cw_log w @ attempts (agent_http c verb path body) (agent_again (ac_maxRetries c)) 1 xs \<and>
    all_again (agent_again (ac_maxRetries c)) 1 xs \<and> r = agent_result (last xs)"
  using agent.run_attempts [OF assms] by auto

definition sample_agent :: agent_client where
  "sample_agent = new_agent \<lparr>ao_url = ''http://f/'', ao_apiKey = Some ''k'', ao_timeoutMs = None, ao_maxRetries = None,
     ao_userAgent = None\<rparr>"

lemma agent_request_ends_witness:
  "\<exists>xs r w'. agent_request flaky sample_agent ''GET'' ''/health'' None 1 \<lparr>cw_net = 0, cw_log = []\<rparr> = (r, w') \<and>
     int (length xs) \<le> 3 \<and> r = agent_result (last xs) \<and>
     cw_log w' = attempts (agent_http sample_agent ''GET'' ''/health'' None) (agent_again 3) 1 xs"
proof -
  obtain r w' where run: "agent_request flaky sample_agent ''GET'' ''/health'' None 1 \<lparr>cw_net = 0, cw_log = []\<rparr> = (r, w')"
    by fastforce
  have "ac_maxRetries sample_agent = 3" by (simp add: sample_agent_def new_agent_def)
  then show ?thesis using agent_request_ends [OF run] run by auto
qed

end
