(* ===== verification/X402Client.thy ===== *)
theory X402Client
  imports SdkClient Webhooks
begin

text \<open>
  The seller-side \<open>X402Client\<close> of \<open>sdk/src/index.ts\<close>: its calls, which read the body of an answer
  whatever its status, and the Express middleware, as a program that ends in the reply it sends
  and in the payment it hands to \<open>next()\<close>. The handler behind \<open>next()\<close> is a parameter.
\<close>

section \<open>The calls\<close>

record x402_options =
  xo_facilitatorUrl :: string
  xo_sellerId :: string
  xo_webhookSecret :: "string option"
  xo_referralCode :: "string option"
  xo_timeoutMs :: "int option"

record x402_client =
  xc_baseUrl :: string
  xc_sellerId :: string
  xc_webhookSecret :: string
  xc_referralCode :: "string option"
  xc_timeoutMs :: int

definition new_x402 :: "x402_options \<Rightarrow> x402_client" where
  "new_x402 opts =
     \<lparr>xc_baseUrl = without_slash (xo_facilitatorUrl opts), xc_sellerId = xo_sellerId opts,
      xc_webhookSecret = (case xo_webhookSecret opts of Some s \<Rightarrow> s | None \<Rightarrow> ''''),
      xc_referralCode = xo_referralCode opts,
      xc_timeoutMs = (case xo_timeoutMs opts of Some t \<Rightarrow> t | None \<Rightarrow> 30000)\<rparr>"

definition x402_post_request :: "x402_client \<Rightarrow> string \<Rightarrow> json \<Rightarrow> api_request" where
  "x402_post_request c path body =
     \<lparr>ar_method = ''POST'', ar_url = xc_baseUrl c @ path,
      ar_headers = [(''Content-Type'', ''application/json''), (''X-Seller-Id'', xc_sellerId c)], ar_body = Some body\<rparr>"

definition x402_get_request :: "x402_client \<Rightarrow> string \<Rightarrow> api_request" where
  "x402_get_request c path =
     \<lparr>ar_method = ''GET'', ar_url = xc_baseUrl c @ path, ar_headers = [(''X-Seller-Id'', xc_sellerId c)], ar_body = None\<rparr>"

type_synonym 'x x402_call = "('x client_world, exn, json) prog"

text \<open>\<open>return res.json()\<close>\<close>

definition x402_send :: "'x network \<Rightarrow> api_request \<Rightarrow> 'x x402_call" where
  "x402_send F rq = (\<lambda>w. case exchange F rq w of (x, w1) \<Rightarrow>
     (case x of Inl e \<Rightarrow> (Inl e, w1) | Inr a \<Rightarrow> (ha_json a, w1)))"

definition x402_post :: "'x network \<Rightarrow> x402_client \<Rightarrow> string \<Rightarrow> json \<Rightarrow> 'x x402_call" where
  "x402_post F c path body = x402_send F (x402_post_request c path body)"

definition x402_get :: "'x network \<Rightarrow> x402_client \<Rightarrow> string \<Rightarrow> 'x x402_call" where
  "x402_get F c path = x402_send F (x402_get_request c path)"

definition x402_verifyPayment :: "'x network \<Rightarrow> x402_client \<Rightarrow> json \<Rightarrow> 'x x402_call" where
  "x402_verifyPayment F c proof = x402_post F c ''/verify'' proof"

definition opt_json :: "string \<Rightarrow> json option \<Rightarrow> (string \<times> json) list" where
  "opt_json k v = (case v of None \<Rightarrow> [] | Some j \<Rightarrow> [(k, j)])"

definition settle_call_body :: "x402_client \<Rightarrow> json option \<Rightarrow> json option \<Rightarrow> string option \<Rightarrow> json" where
  "settle_call_body c requestId verificationId referralCode = JObj
     (opt_json ''requestId'' requestId @ opt_json ''verificationId'' verificationId @
      opt_str ''referralCode'' (case referralCode of Some r \<Rightarrow> Some r | None \<Rightarrow> xc_referralCode c))"

definition x402_settlePayment ::
  "'x network \<Rightarrow> x402_client \<Rightarrow> json option \<Rightarrow> json option \<Rightarrow> string option \<Rightarrow> 'x x402_call" where
  "x402_settlePayment F c requestId verificationId referralCode =
     x402_post F c ''/settle'' (settle_call_body c requestId verificationId referralCode)"

definition x402_getReceipt :: "'x network \<Rightarrow> x402_client \<Rightarrow> string \<Rightarrow> 'x x402_call" where
  "x402_getReceipt F c receiptId = x402_get F c (''/receipts/'' @ receiptId)"

definition x402_getSupportedNetworks :: "'x network \<Rightarrow> x402_client \<Rightarrow> 'x x402_call" where
  "x402_getSupportedNetworks F c = x402_get F c ''/supported''"

definition x402_verifyWebhookSignature :: "net_api \<Rightarrow> x402_client \<Rightarrow> string \<Rightarrow> string option \<Rightarrow> bool" where
  "x402_verifyWebhookSignature N c rawBody signatureHeader =
     sdk_verifyWebhookSignature N rawBody (xc_webhookSecret c) signatureHeader"

section \<open>The middleware\<close>

record middleware_options =
  mo_amount :: string
  mo_asset :: string
  mo_network :: string
  mo_invoiceId :: "string option"
  mo_description :: "string option"
  mo_autoSettle :: "bool option"

record payment_context =
  px_verified :: json
  px_settled :: "json option"
  px_receiptId :: "json option"

text \<open>What the middleware did: the payment given to \<open>next()\<close>, if it was called, and the reply, if any.\<close>

record mw_result =
  mw_next :: "payment_context option"
  mw_reply :: "reply option"

definition payment_required :: "middleware_options \<Rightarrow> string option \<Rightarrow> int \<Rightarrow> json" where
  "payment_required opts sellerWallet now = JObj
     [(''x402Version'', JStr ''1''), (''error'', JStr ''Payment required''),
      (''accepts'', JArr [JObj
        [(''scheme'', JStr ''exact''), (''network'', JStr (mo_network opts)),
         (''maxAmountRequired'', JStr (mo_amount opts)), (''asset'', JStr (mo_asset opts)),
         (''payTo'', JStr (case sellerWallet of Some a \<Rightarrow> a | None \<Rightarrow> '''')),
         (''description'', JStr (case mo_description opts of Some d \<Rightarrow> d | None \<Rightarrow> ''Access requires payment'')),
         (''invoiceId'', JStr (case mo_invoiceId opts of Some i \<Rightarrow> i | None \<Rightarrow> ''inv_'' @ int_str now))]])]"

definition refuse :: "json \<Rightarrow> ('w, exn, mw_result) prog" where
  "refuse v = ret \<lparr>mw_next = None, mw_reply = Some (mk_reply 402 (JObj (opt_json ''error'' (json_get v ''error''))))\<rparr>"

definition mw_failure :: "string \<Rightarrow> reply" where
  "mw_failure message =
     mk_reply 500 (JObj [(''error'', JObj [(''code'', JStr ''internal_error''), (''message'', JStr message)])])"

text \<open>\<open>next()\<close> is called in the \<open>try\<close>: what it throws becomes a reply of this middleware.\<close>

definition call_next :: "(payment_context \<Rightarrow> exn + unit) \<Rightarrow> payment_context \<Rightarrow> ('w, exn, mw_result) prog" where
  "call_next handler ctx = ret (case handler ctx of
     Inl e \<Rightarrow> \<lparr>mw_next = Some ctx, mw_reply = Some (mw_failure (exn_message e))\<rparr>
   | Inr _ \<Rightarrow> \<lparr>mw_next = Some ctx, mw_reply = None\<rparr>)"

definition get_prop :: "json \<Rightarrow> string \<Rightarrow> ('w, exn, json option) prog" where
  "get_prop j k = of_sum (js_get j k)"

text \<open>\<open>syntax\<close> is the text of the error \<open>JSON.parse\<close> throws.\<close>

definition decode_proof :: "(string \<Rightarrow> string) \<Rightarrow> string \<Rightarrow> exn + json" where
  "decode_proof syntax header =
     (let text = bytes_str (b64_decode header) in
      case json_parse text of Some j \<Rightarrow> Inr j | None \<Rightarrow> Inl (JsError ''SyntaxError'' (syntax text)))"

text \<open>What follows the answer of the facilitator to the proof.\<close>

definition mw_verified ::
  "'x network \<Rightarrow> x402_client \<Rightarrow> middleware_options \<Rightarrow> (payment_context \<Rightarrow> exn + unit) \<Rightarrow> json \<Rightarrow>
   ('x client_world, exn, mw_result) prog" where
  "mw_verified F c opts handler verified =
     seq (get_prop verified ''status'') (\<lambda>status.
       if status \<noteq> Some (JStr ''accepted'') then refuse verified
       else if mo_autoSettle opts \<noteq> Some False then
         seq (x402_settlePayment F c (json_get verified ''requestId'') (json_get verified ''verificationId'') None) (\<lambda>settled.
         seq (get_prop settled ''status'') (\<lambda>outcome.
           if outcome \<noteq> Some (JStr ''confirmed'') then refuse settled
           else call_next handler
             \<lparr>px_verified = verified, px_settled = Some settled, px_receiptId = json_get settled ''receiptId''\<rparr>))
       else call_next handler \<lparr>px_verified = verified, px_settled = None, px_receiptId = None\<rparr>)"

definition expressMiddleware ::
  "'x network \<Rightarrow> x402_client \<Rightarrow> middleware_options \<Rightarrow> (string \<Rightarrow> string) \<Rightarrow> (payment_context \<Rightarrow> exn + unit) \<Rightarrow>
   string option \<Rightarrow> string option \<Rightarrow> int \<Rightarrow> ('x client_world, exn, mw_result) prog" where
  "expressMiddleware F c opts syntax handler paymentHeader sellerWallet now =
     (case paymentHeader of
        Some (h # hs) \<Rightarrow>
          try_catch
            (seq (of_sum (decode_proof syntax (h # hs))) (\<lambda>proof.
             seq (x402_verifyPayment F c proof) (mw_verified F c opts handler)))
            (\<lambda>err. ret \<lparr>mw_next = None, mw_reply = Some (mw_failure (exn_message err))\<rparr>)
      | _ \<Rightarrow> ret \<lparr>mw_next = None, mw_reply = Some (mk_reply 402 (payment_required opts sellerWallet now))\<rparr>)"

section \<open>What the middleware lets through\<close>

text \<open>The log holds an answer to the request with this body, of any status.\<close>

definition told :: "client_event list \<Rightarrow> api_request \<Rightarrow> json \<Rightarrow> bool" where
  "told l rq j \<longleftrightarrow> (\<exists>a. Exchanged rq (Inr a) \<in> set l \<and> ha_json a = Inr j)"

lemma told_append: "told l1 rq j \<or> told l2 rq j \<Longrightarrow> told (l1 @ l2) rq j"
  unfolding told_def by auto

lemma x402_send_Inr:
  "x402_send F rq w = (Inr j, w') \<Longrightarrow> \<exists>l. cw_log w' = cw_log w @ l \<and> told l rq j"
  unfolding x402_send_def told_def by (auto dest!: exchange_log split: prod.splits sum.splits)

lemma get_prop_Inr [run_simps]:
  "get_prop j k w = (Inr v, w') \<longleftrightarrow> w' = w \<and> j \<noteq> JNull \<and> v = json_get j k"
  by (cases j) (auto simp: get_prop_def js_get_def of_sum_def)

lemma refuse_no_next: "refuse v w = (Inr r, w') \<Longrightarrow> mw_next r = None"
  by (auto simp: refuse_def ret_def)

lemma call_next_next: "call_next handler ctx w = (Inr r, w') \<Longrightarrow> mw_next r = Some ctx \<and> w' = w"
  by (auto simp: call_next_def ret_def split: sum.splits)

text \<open>The settlement the middleware asks for, and the answer it wants.\<close>

definition settled_with :: "x402_client \<Rightarrow> json \<Rightarrow> client_event list \<Rightarrow> json \<Rightarrow> bool" where
  "settled_with c verified l settled \<longleftrightarrow>
     told l (x402_post_request c ''/settle'' (settle_call_body c (json_get verified ''requestId'')
       (json_get verified ''verificationId'') None)) settled \<and>
     json_get settled ''status'' = Some (JStr ''confirmed'')"

lemma mw_verified_next:
  assumes "mw_verified F c opts handler v w = (Inr res, w')" "mw_next res = Some ctx"
  shows "px_verified ctx = v \<and> json_get v ''status'' = Some (JStr ''accepted'') \<and>
    (\<exists>l. cw_log w' = cw_log w @ l \<and>
       (mo_autoSettle opts = Some False \<or> (\<exists>settled. px_settled ctx = Some settled \<and> settled_with c v l settled)))"
proof -
  consider (unsettled) "mo_autoSettle opts = Some False" "json_get v ''status'' = Some (JStr ''accepted'')" "w' = w"
      "px_verified ctx = v"
    | (settled) st where "json_get v ''status'' = Some (JStr ''accepted'')"
      "x402_settlePayment F c (json_get v ''requestId'') (json_get v ''verificationId'') None w = (Inr st, w')"
      "json_get st ''status'' = Some (JStr ''confirmed'')" "px_verified ctx = v" "px_settled ctx = Some st"
    using assms unfolding mw_verified_def
    by (auto simp: run_simps split: if_splits dest!: refuse_no_next call_next_next)
  then show ?thesis
  proof cases
    case (settled st)
    then show ?thesis
      using x402_send_Inr [OF settled(2) [unfolded x402_settlePayment_def x402_post_def]] by (auto simp: settled_with_def)
  qed auto
qed

lemma middleware_answers:
  assumes "expressMiddleware F c opts syntax handler header wallet now w = (r, w')"
  obtains (Silent) res where "r = Inr res" "mw_next res = None"
    | (Ran) h pf w1 v res where "header = Some h" "decode_proof syntax h = Inr pf" "r = Inr res"
        "x402_verifyPayment F c pf w = (Inr v, w1)" "mw_verified F c opts handler v w1 = (Inr res, w')"
proof (cases "\<exists>x xs. header = Some (x # xs)")
  case False
  then show ?thesis using assms Silent by (auto simp: expressMiddleware_def ret_def split: option.splits list.splits)
next
  case True
  then obtain x xs where h: "header = Some (x # xs)" by blast
  let ?body = "seq (of_sum (decode_proof syntax (x # xs))) (\<lambda>proof. seq (x402_verifyPayment F c proof) (mw_verified F c opts handler))"
  obtain s w1 where b: "?body w = (s, w1)" by fastforce
  show ?thesis
  proof (cases s)
    case (Inl e)
    then show ?thesis using assms b by (intro Silent) (auto simp: expressMiddleware_def h try_catch_def ret_def)
  next
    case (Inr res)
    then have "r = Inr res" "w' = w1" using assms b by (auto simp: expressMiddleware_def h try_catch_def)
    then show ?thesis using b [unfolded Inr seq_Inr of_sum_eq] h Ran by blast
  qed
qed

text \<open>C25. The Express middleware calls \<open>next()\<close> only for a payment header that decodes to a proof which the
  facilitator, asked about just that proof, answered with \<open>accepted\<close>, and, unless \<open>autoSettle\<close> is off,
  whose settlement it was then asked for with the ids of that answer and answered with \<open>confirmed\<close>.
\<close>

theorem middleware_gate:
  assumes "expressMiddleware F c opts syntax handler header wallet now w = (r, w')"
  shows "\<exists>res. r = Inr res \<and> (\<forall>ctx. mw_next res = Some ctx \<longrightarrow>
    (\<exists>h proof l. header = Some h \<and> decode_proof syntax h = Inr proof \<and> cw_log w' = cw_log w @ l \<and>
       told l (x402_post_request c ''/verify'' proof) (px_verified ctx) \<and>
       json_get (px_verified ctx) ''status'' = Some (JStr ''accepted'') \<and>
       (mo_autoSettle opts = Some False \<or> (\<exists>settled. px_settled ctx = Some settled \<and>
          told l (x402_post_request c ''/settle'' (settle_call_body c (json_get (px_verified ctx) ''requestId'')
            (json_get (px_verified ctx) ''verificationId'') None)) settled \<and>
          json_get settled ''status'' = Some (JStr ''confirmed'')))))"
  using assms
proof (cases rule: middleware_answers)
  case (Ran h proof' w1 v res)
  obtain l1 where l1: "cw_log w1 = cw_log w @ l1" "told l1 (x402_post_request c ''/verify'' proof') v"
    using x402_send_Inr [OF Ran(4) [unfolded x402_verifyPayment_def x402_post_def]] by blast
  have "\<exists>h proof l. header = Some h \<and> decode_proof syntax h = Inr proof \<and> cw_log w' = cw_log w @ l \<and>
       told l (x402_post_request c ''/verify'' proof) (px_verified ctx) \<and>
       json_get (px_verified ctx) ''status'' = Some (JStr ''accepted'') \<and>
       (mo_autoSettle opts = Some False \<or> (\<exists>settled. px_settled ctx = Some settled \<and> settled_with c (px_verified ctx) l settled))"
    if nxt: "mw_next res = Some ctx" for ctx
  proof -
    obtain l2 where l2: "px_verified ctx = v" "json_get v ''status'' = Some (JStr ''accepted'')" "cw_log w' = cw_log w1 @ l2"
      "mo_autoSettle opts = Some False \<or> (\<exists>settled. px_settled ctx = Some settled \<and> settled_with c v l2 settled)"
      using mw_verified_next [OF Ran(5) nxt] by blast
    have "told (l1 @ l2) (x402_post_request c ''/verify'' proof') v" using l1(2) told_append by blast
    moreover have "settled_with c v (l1 @ l2) st" if "settled_with c v l2 st" for st
      using that told_append unfolding settled_with_def by blast
    moreover have "cw_log w' = cw_log w @ l1 @ l2" using l1(1) l2(3) by simp
    ultimately show ?thesis using Ran(1,2) l2 by blast
  qed
  then show ?thesis using Ran(3) unfolding settled_with_def by blast
qed simp

lemma sample_header: "json_parse (bytes_str (b64_decode ''e30='')) = Some (JObj [])"
  by code_simp

definition sample_x402 :: x402_client where
  "sample_x402 = new_x402 \<lparr>xo_facilitatorUrl = ''http://f/'', xo_sellerId = ''s'', xo_webhookSecret = None,
     xo_referralCode = None, xo_timeoutMs = None\<rparr>"

definition sample_mw :: middleware_options where
  "sample_mw = \<lparr>mo_amount = ''1'', mo_asset = ''USDC'', mo_network = ''base-mainnet'', mo_invoiceId = None,
     mo_description = None, mo_autoSettle = None\<rparr>"

lemma willing_mw:
  "\<exists>res ctx w'. expressMiddleware willing sample_x402 sample_mw (\<lambda>s. s) (\<lambda>ctx. Inr ()) (Some ''e30='') None 0
     \<lparr>cw_net = 0, cw_log = []\<rparr> = (Inr res, w') \<and> mw_next res = Some ctx \<and> mo_autoSettle sample_mw = None"
  by (simp add: expressMiddleware_def mw_verified_def decode_proof_def sample_header try_catch_def seq_def of_sum_def x402_verifyPayment_def
      x402_settlePayment_def x402_post_def x402_send_def exchange_def willing_def get_prop_def js_get_def call_next_def ret_def
      sample_mw_def Let_def)

lemma middleware_gate_witness:
  "\<exists>res ctx w' settled. expressMiddleware willing sample_x402 sample_mw (\<lambda>s. s) (\<lambda>ctx. Inr ()) (Some ''e30='') None 0
     \<lparr>cw_net = 0, cw_log = []\<rparr> = (Inr res, w') \<and> mw_next res = Some ctx \<and> px_settled ctx = Some settled \<and>
     json_get settled ''status'' = Some (JStr ''confirmed'')"
proof -
  obtain res ctx w' where run: "expressMiddleware willing sample_x402 sample_mw (\<lambda>s. s) (\<lambda>ctx. Inr ()) (Some ''e30='') None 0
     \<lparr>cw_net = 0, cw_log = []\<rparr> = (Inr res, w')" "mw_next res = Some ctx" "mo_autoSettle sample_mw = None"
    using willing_mw by blast
  show ?thesis using middleware_gate [OF run(1)] run by auto
qed

end
