(* ===== verification/PaymentRoutes.thy ===== *)
theory PaymentRoutes
  imports Verify Settle Http
begin

text \<open>
  \<open>POST /verify\<close> and \<open>POST /settle\<close> (\<open>routes/verify.route.ts\<close>, \<open>routes/settle.route.ts\<close>) and what
  the two services do to one payment together. A handler returns its reply and the
  notifications it starts; a failing notification is logged only. \<open>notifyWebhook\<close> is exported by
  no file of src/, so nothing is said of what becomes of one. The text of a Zod issue and the
  clock readings are arguments.
\<close>

section \<open>Replies\<close>

record notification =
  nf_event :: string
  nf_sellerId :: "string option"
  nf_payload :: json

definition accepted_json :: "accepted_payment \<Rightarrow> json" where
  "accepted_json a = JObj
     [(''requestId'', JStr (ac_requestId a)), (''status'', JStr ''accepted''),
      (''verificationId'', JStr (ac_verificationId a)), (''paymentRequestId'', JStr (ac_paymentRequestId a)),
      (''network'', JStr (ac_network a)), (''asset'', JStr (ac_asset a)), (''amount'', JStr (ac_amount a)),
      (''from'', JStr (ac_from a)), (''to'', JStr (ac_to a)), (''invoiceId'', JStr (ac_invoiceId a)),
      (''expiresAt'', JStr (ac_expiresAt a)), (''verifiedAt'', JStr (ac_verifiedAt a))]"

definition rejected_json :: "rejected_payment \<Rightarrow> json" where
  "rejected_json j = JObj
     [(''requestId'', JStr (rj_requestId j)), (''status'', JStr ''rejected''),
      (''error'', JObj [(''code'', JStr (rj_code j)), (''message'', JStr (rj_message j))]),
      (''httpStatus'', JNum (int (rj_httpStatus j))), (''rejectedAt'', JStr (rj_rejectedAt j))]"

definition verified_notice :: "accepted_payment \<Rightarrow> notification" where
  "verified_notice a =
     \<lparr>nf_event = ''payment.verified'', nf_sellerId = None, nf_payload = JObj
       [(''requestId'', JStr (ac_requestId a)), (''verificationId'', JStr (ac_verificationId a)),
        (''invoiceId'', JStr (ac_invoiceId a)), (''network'', JStr (ac_network a)), (''asset'', JStr (ac_asset a)),
        (''amount'', JStr (ac_amount a)), (''from'', JStr (ac_from a)), (''to'', JStr (ac_to a)),
        (''verifiedAt'', JStr (ac_verifiedAt a))]\<rparr>"

text \<open>\<open>result.sellerId\<close> is \<open>undefined\<close>: neither service returns one. \<open>late\<close> is the clock of the \<open>catch\<close>.\<close>

definition verifyRoute ::
  "verify_env \<Rightarrow> json \<Rightarrow> string \<Rightarrow> int \<Rightarrow> int \<Rightarrow> string \<Rightarrow> int \<Rightarrow> (world, exn, reply \<times> notification list) prog" where
  "verifyRoute E body requestId now clock uid late =
     try_catch
       (seq (runVerify E body requestId now clock uid) (\<lambda>result. case result of
          Rejected j \<Rightarrow> ret (mk_reply (rj_httpStatus j) (rejected_json j), [])
        | Accepted a \<Rightarrow> ret (mk_reply 200 (accepted_json a), [verified_notice a])))
       (\<lambda>err. seq (iso late) (\<lambda>t. ret (mk_reply 500 (JObj
          [(''requestId'', JStr requestId), (''status'', JStr ''rejected''),
           (''error'', JObj [(''code'', JStr ''internal_error''),
              (''message'', JStr ''An internal error occurred. Please retry.'')]),
           (''httpStatus'', JNum 500), (''rejectedAt'', JStr t)]), [])))"

record settle_body =
  sb_requestId :: string
  sb_verificationId :: string
  sb_referralCode :: "string option"

definition SettleBodySchema :: "json option \<Rightarrow> issues + settle_body" where
  "SettleBodySchema = zobject (\<lambda>kvs.
     zand (zand (zand (Inr settle_body.make)
       (zfield kvs ''requestId'' (zstring (\<lambda>s. 1 \<le> length s \<and> length s \<le> 128))))
       (zfield kvs ''verificationId'' (zstring (\<lambda>s. 1 \<le> length s \<and> length s \<le> 128))))
       (zfield kvs ''referralCode'' (zoptional (zstring (\<lambda>s. length s \<le> 50)))))"

definition settled_json :: "settle_ok \<Rightarrow> json" where
  "settled_json r = JObj
     ([(''requestId'', JStr (so_requestId r)), (''status'', JStr ''confirmed''),
       (''settlementId'', JStr (so_settlementId r))] @
      opt_str ''txHash'' (so_txHash r) @ opt_str ''feeAmount'' (so_feeAmount r) @
      opt_str ''developerShare'' (so_developerShare r) @ opt_str ''receiptId'' (so_receiptId r) @
      opt_str ''confirmedAt'' (so_confirmedAt r) @ [(''settledAt'', JStr (so_settledAt r))])"

definition failure_error :: "settle_failure \<Rightarrow> json" where
  "failure_error f = JObj [(''code'', JStr (sf_code f)), (''message'', JStr (sf_message f))]"

definition failure_json :: "settle_failure \<Rightarrow> json" where
  "failure_json f = JObj
     [(''requestId'', JStr (sf_requestId f)), (''status'', JStr ''failed''), (''error'', failure_error f),
      (''httpStatus'', JNum (int (sf_httpStatus f))), (''failedAt'', JStr (sf_failedAt f))]"

definition failed_notice :: "string \<Rightarrow> settle_failure \<Rightarrow> notification" where
  "failed_notice requestId f =
     \<lparr>nf_event = ''payment.failed'', nf_sellerId = None, nf_payload = JObj
       [(''requestId'', JStr requestId), (''error'', failure_error f), (''failedAt'', JStr (sf_failedAt f))]\<rparr>"

definition settled_notice :: "settle_ok \<Rightarrow> notification" where
  "settled_notice r =
     \<lparr>nf_event = ''payment.settled'', nf_sellerId = None, nf_payload = JObj
       ([(''requestId'', JStr (so_requestId r)), (''settlementId'', JStr (so_settlementId r))] @
        opt_str ''txHash'' (so_txHash r) @ opt_str ''feeAmount'' (so_feeAmount r) @
        opt_str ''developerShare'' (so_developerShare r) @ opt_str ''receiptId'' (so_receiptId r) @
        opt_str ''confirmedAt'' (so_confirmedAt r))\<rparr>"

definition internal_failure :: "string \<Rightarrow> string \<Rightarrow> reply" where
  "internal_failure requestId t = mk_reply 500 (JObj
     [(''requestId'', JStr requestId), (''status'', JStr ''failed''),
      (''error'', JObj [(''code'', JStr ''internal_error''),
         (''message'', JStr ''An internal error occurred. Please retry.'')]),
      (''httpStatus'', JNum 500), (''failedAt'', JStr t)])"

definition settleRoute ::
  "settle_env \<Rightarrow> (issues \<Rightarrow> string option) \<Rightarrow> json \<Rightarrow> string \<Rightarrow> string \<Rightarrow> int \<Rightarrow> int \<Rightarrow> int \<Rightarrow>
   (world, exn, reply \<times> notification list) prog" where
  "settleRoute S issueText body settlementId receiptId now clock late =
     (case SettleBodySchema (Some body) of
        Inl is \<Rightarrow>
          seq (iso late) (\<lambda>t. ret (mk_reply 400 (JObj
            [(''requestId'', JStr ''''), (''status'', JStr ''rejected''),
             (''error'', JObj [(''code'', JStr ''invalid_payload''),
                (''message'', JStr (case issueText is of Some m \<Rightarrow> m | None \<Rightarrow> ''Validation failed''))]),
             (''httpStatus'', JNum 400), (''failedAt'', JStr t)]), []))
      | Inr b \<Rightarrow>
          try_catch
            (seq (runSettle S (sb_requestId b) (sb_verificationId b) (sb_referralCode b) settlementId receiptId now clock)
              (\<lambda>result. case result of
                 NotSettled f \<Rightarrow> ret (mk_reply (sf_httpStatus f) (failure_json f), [failed_notice (sb_requestId b) f])
               | Settled r \<Rightarrow> ret (mk_reply 200 (settled_json r), [settled_notice r])))
            (\<lambda>err. seq (iso late) (\<lambda>t. ret (internal_failure (sb_requestId b) t, []))))"

section \<open>Body schemas\<close>

text \<open>
  The schemas the two routes give to Fastify. A body that lacks a required property, or is not an
  object where one is required, is refused before the handler: the validation error goes to the
  error handler. \<open>schemaText\<close> is the text of that error, and \<open>coerce\<close> the rest of the validation:
  another refusal, or the body with its values coerced to the types of the schema.
\<close>

datatype body_schema = SString | SInteger | SObject "string list" "(string \<times> body_schema) list"

fun lacks_required :: "body_schema \<Rightarrow> json \<Rightarrow> bool"
and lacks_nested :: "(string \<times> body_schema) list \<Rightarrow> json \<Rightarrow> bool" where
  "lacks_required (SObject required properties) body =
     (case body of
        JObj kvs \<Rightarrow> \<not> list_all (\<lambda>k. map_of kvs k \<noteq> None) required \<or> lacks_nested properties body
      | _ \<Rightarrow> True)"
| "lacks_required SString body = False"
| "lacks_required SInteger body = False"
| "lacks_nested [] body = False"
| "lacks_nested ((k, schema) # properties) body =
     ((case json_get body k of Some v \<Rightarrow> lacks_required schema v | None \<Rightarrow> False) \<or> lacks_nested properties body)"

definition verify_body_schema :: body_schema where
  "verify_body_schema = SObject
     [''version'', ''scheme'', ''network'', ''asset'', ''invoiceId'', ''requiredAmount'', ''recipient'', ''payload'']
     [(''version'', SString), (''scheme'', SString), (''network'', SString), (''asset'', SString),
      (''invoiceId'', SString), (''requiredAmount'', SString), (''recipient'', SString),
      (''payload'', SObject [''signature'', ''authorization'']
         [(''signature'', SString),
          (''authorization'', SObject [''from'', ''to'', ''value'', ''validAfter'', ''validBefore'', ''nonce'']
             [(''from'', SString), (''to'', SString), (''value'', SString), (''validAfter'', SInteger),
              (''validBefore'', SInteger), (''nonce'', SString)])])]"

definition settle_body_schema :: body_schema where
  "settle_body_schema = SObject [''requestId'', ''verificationId'']
     [(''requestId'', SString), (''verificationId'', SString), (''referralCode'', SString)]"

record body_validation =
  bv_schemaText :: "body_schema \<Rightarrow> json \<Rightarrow> string"
  bv_coerce :: "body_schema \<Rightarrow> json \<Rightarrow> string + json"

definition validated ::
  "body_validation \<Rightarrow> body_schema \<Rightarrow> json \<Rightarrow> (json \<Rightarrow> ('w, exn, 'a) prog) \<Rightarrow> ('w, exn, 'a) prog" where
  "validated A schema body handler =
     (if lacks_required schema body then throw (ValidationError (bv_schemaText A schema body))
      else
        (case bv_coerce A schema body of
           Inl message \<Rightarrow> throw (ValidationError message)
         | Inr body' \<Rightarrow> handler body'))"

text \<open>The routes as they are registered: the schema, then the handler.\<close>

definition verifyEndpoint ::
  "body_validation \<Rightarrow> verify_env \<Rightarrow> json \<Rightarrow> string \<Rightarrow> int \<Rightarrow> int \<Rightarrow> string \<Rightarrow> int \<Rightarrow>
   (world, exn, reply \<times> notification list) prog" where
  "verifyEndpoint A E body requestId now clock uid late =
     validated A verify_body_schema body (\<lambda>body. verifyRoute E body requestId now clock uid late)"

definition settleEndpoint ::
  "body_validation \<Rightarrow> settle_env \<Rightarrow> (issues \<Rightarrow> string option) \<Rightarrow> json \<Rightarrow> string \<Rightarrow> string \<Rightarrow> int \<Rightarrow> int \<Rightarrow> int \<Rightarrow>
   (world, exn, reply \<times> notification list) prog" where
  "settleEndpoint A S issueText body settlementId receiptId now clock late =
     validated A settle_body_schema body (\<lambda>body. settleRoute S issueText body settlementId receiptId now clock late)"

lemma validated_lacks:
  assumes "k \<in> set required" "json_get body k = None"
  shows "validated A (SObject required properties) body handler =
    throw (ValidationError (bv_schemaText A (SObject required properties) body))"
  using assms by (cases body) (auto simp: validated_def list_all_iff)

text \<open>A proof without a version and a settlement without a verification do not reach the handlers.\<close>

lemma no_version_refused:
  "json_get body ''version'' = None \<Longrightarrow> verifyEndpoint A E body rid now clock uid late =
     throw (ValidationError (bv_schemaText A verify_body_schema body))"
  unfolding verifyEndpoint_def verify_body_schema_def by (rule validated_lacks) simp_all

lemma no_verificationId_refused:
  "json_get body ''verificationId'' = None \<Longrightarrow> settleEndpoint A S issueText body sid rcid now clock late =
     throw (ValidationError (bv_schemaText A settle_body_schema body))"
  unfolding settleEndpoint_def settle_body_schema_def by (rule validated_lacks) simp_all

section \<open>Lemmas\<close>

lemma runVerify_status:
  assumes "runVerify E raw rid now clock uid w = (Inr (Rejected j), w')"
  shows "rj_httpStatus j \<in> {400, 402, 409, 500}"
  using assms unfolding runVerify_def verify_claim_def verify_signed_def Let_def
  by (auto simp: run_simps reject_run split: option.splits)

lemma settleReject_status:
  "settleReject clock rid code msg st w = (Inr (NotSettled f), w') \<Longrightarrow> sf_httpStatus f = st"
  by (auto simp: settleReject_def run_simps)

text \<open>The request row an accepted verification leaves behind.\<close>

definition stored_request :: "string \<Rightarrow> verify_request \<Rightarrow> network_row \<Rightarrow> int \<Rightarrow> payment_request" where
  "stored_request rid body nr clock = (let auth = vp_authorization (vr_payload body) in
     \<lparr>pr_id = rid, pr_sellerId = None, pr_buyerAddress = au_from auth, pr_networkId = nw_id nr,
      pr_asset = vr_asset body, pr_amount = au_value auth, pr_invoiceId = vr_invoiceId body,
      pr_scheme = vr_scheme body, pr_expiresAt = au_validBefore auth * 1000, pr_createdAt = clock\<rparr>)"

context verify_service
begin

lemma persist_request:
  assumes "persistVerification E rid body nw st ec rs h n uid clock w = (Inr ids, w')"
    and "\<forall>r\<in>set (requests w). pr_id r \<noteq> rid"
  shows "\<exists>nr. requests w' = requests w @ [stored_request rid body nr clock] \<and> settlements w' = settlements w \<and>
    submitted w' = submitted w"
  using assms unfolding persistVerification_def stored_request_def Let_def
  by (fastforce simp: run_simps elim!: Q.upsert_keep_cases V.create_cases dest!: N.find_Some)

lemma persist_fresh_id:
  assumes "persistVerification E rid body nw st ec rs h n uid clock w = (Inr ids, w')"
  shows "\<forall>v\<in>set (verifications w). pv_id v \<noteq> uid"
  using assms unfolding persistVerification_def Let_def
  by (auto simp: run_simps verification_clash_def
      elim!: Q.upsert_keep_cases V.create_cases dest!: N.find_Some)

lemma accepted_stores:
  assumes "runVerify E raw rid now clock uid w = (Inr (Accepted a), w')"
    and "\<forall>r\<in>set (requests w). pr_id r \<noteq> rid"
  shows "\<exists>body nr. ve_parse E raw = Inr body \<and> requests w' = requests w @ [stored_request rid body nr clock] \<and>
    settlements w' = settlements w \<and> submitted w' = submitted w \<and>
    verifications w' = verifications w @
      [verification_row uid rid VAccepted None None (body_hash E body) (body_nonce body) clock] \<and>
    (\<forall>v\<in>set (verifications w). pv_id v \<noteq> uid) \<and> ac_verificationId a = uid"
  using assms(1)
proof (cases rule: run_split)
  case (Claim body nw asset)
  from Claim(3) obtain k1 k2 vs w1 where
    c: "claimNonceRedis (ve_redis E) (body_nonce body) (body_hash E body) (keys w) = (Inr None, k1)" and
    p: "checkReplayPostgres (ve_verification E) (body_nonce body) (body_hash E body) (verifications w) = (Inr None, vs)" and
    s: "verify_signed E rid body nw asset clock uid (w\<lparr>keys := k1, verifications := vs\<rparr>) = (Inr (Accepted a), w')"
    unfolding verify_claim_def Let_def body_hash_def [symmetric] body_nonce_def [symmetric]
    by (auto simp: run_simps)
  note vs = checkReplayPostgres_None [OF V.prisma_table_axioms p]
  from s obtain ids where pv: "persistVerification E rid body nw VAccepted None None (body_hash E body) (body_nonce body)
      uid clock (w\<lparr>keys := k1, verifications := vs\<rparr>) = (Inr ids, w')"
    unfolding verify_signed_def Let_def body_hash_def [symmetric] body_nonce_def [symmetric]
    by (auto simp: run_simps)
  have "\<exists>nr. requests w' = requests w @ [stored_request rid body nr clock] \<and> settlements w' = settlements w \<and>
      submitted w' = submitted w"
    using persist_request [OF pv] assms(2) by simp
  moreover have "verifications w' = verifications w @
      [verification_row uid rid VAccepted None None (body_hash E body) (body_nonce body) clock]"
    using persist_ok [OF pv] vs by simp
  moreover have "\<forall>v\<in>set (verifications w). pv_id v \<noteq> uid" using persist_fresh_id [OF pv] vs by simp
  ultimately show ?thesis using Claim(1) signed_accepted(4) [OF s] by auto
qed simp

end

text \<open>The transfer the settle service asks for when the request names no seller.\<close>

definition buyer_call :: "payment_verification \<Rightarrow> payment_request \<Rightarrow> transfer_call \<Rightarrow> bool" where
  "buyer_call v pr c \<longleftrightarrow> tc_from c = pr_buyerAddress pr \<and> tc_to c = Some (pr_buyerAddress pr) \<and>
     tc_value c = bigint_of (pr_amount pr) \<and> tc_validAfter c = 0 \<and>
     tc_validBefore c = pr_expiresAt pr div 1000 \<and> tc_nonce c = pv_nonce v \<and>
     tc_v c = sg_v (splitSignature (''0x'' @ or_null_str (pv_signatureHash v)))"

definition submits :: "(transfer_call \<Rightarrow> bool) \<Rightarrow> world \<Rightarrow> world \<Rightarrow> bool" where
  "submits P w w' \<longleftrightarrow> (\<exists>more. submitted w' = submitted w @ more \<and> (\<forall>p\<in>set more. P (snd p)))"

interpretation submits: step_relation "submits P" for P
proof unfold_locales
  fix w1 w2 w3
  assume "submits P w1 w2" "submits P w2 w3"
  then show "submits P w1 w3" unfolding submits_def by fastforce
qed (simp add: submits_def)

lemma steps_submits_same: "(\<And>w r w'. m w = (r, w') \<Longrightarrow> submitted w' = submitted w) \<Longrightarrow> steps (submits P) m"
  by (rule stepsI) (auto simp: submits_def)

lemma seq_ret: "seq (ret x) f = f x" and seq_throw: "seq (throw e) f = throw e"
  by (auto simp: seq_def ret_def throw_def)

lemma steps_submits_chain:
  assumes "P (call_of req)"
  shows "steps (submits P) (on_chain (submitOnChain C req))"
proof (rule stepsI)
  fix w r w'
  assume "on_chain (submitOnChain C req) w = (r, w')"
  then obtain log where "submitOnChain C req (submitted w) = (r, log)" "submitted w' = log"
    by (auto simp: on_chain_def zoom_eq)
  with submit_log assms show "submits P w w'" unfolding submits_def by (fastforce dest: in_set_takeD)
qed

context settle_service
begin

lemma submit_calls:
  assumes "pr_sellerId pr = None"
  shows "steps (submits (buyer_call v pr)) (settle_submit S rid ref v pr nw sid rcid now)"
proof -
  have payee: "settle_payee S pr = ret (Some (pr_buyerAddress pr))" by (simp add: settle_payee_def assms)
  have call: "buyer_call v pr (call_of
      \<lparr>oc_from = pr_buyerAddress pr, oc_to = Some (pr_buyerAddress pr), oc_value = bigint_of (pr_amount pr),
       oc_validAfter = 0, oc_validBefore = pr_expiresAt pr div 1000, oc_nonce = pv_nonce v,
       oc_signature = ''0x'' @ or_null_str (pv_signatureHash v), oc_assetAddress = a,
       oc_rpcUrl = u, oc_fallbackRpcUrl = f\<rparr>)" for a u f
    by (simp add: buyer_call_def call_of_def Let_def)
  show ?thesis
  proof (cases "decimal (pr_amount pr)")
    case False
    then have n: "js_BigInt (pr_amount pr) =
        throw (JsError ''SyntaxError'' (''Cannot convert '' @ pr_amount pr @ '' to a BigInt''))"
      by (auto simp: js_BigInt_def)
    show ?thesis unfolding settle_submit_def n seq_throw by (intro submits.steps_intros)
  next
    case True
    then have n: "js_BigInt (pr_amount pr) = ret (bigint_of (pr_amount pr))" by (auto simp: js_BigInt_def)
    show ?thesis
      unfolding settle_submit_def n payee seq_ret
      by (intro submits.steps_intros steps_submits_chain call)
         (auto intro!: steps_submits_same simp: run_simps in_transaction_def dest: iso_same)
  qed
qed

lemma locked_calls:
  assumes "pr_sellerId pr = None"
  shows "steps (submits (buyer_call v pr)) (settle_locked S rid ref v pr nw sid rcid now clock)"
  unfolding settle_locked_def
  by (intro submits.steps_intros submit_calls [OF assms])
     (auto intro!: steps_submits_same simp: run_simps dest: settleReject_run)

end

lemma find_unique_request:
  "\<forall>r\<in>set rs. pr_id r \<noteq> rid \<Longrightarrow> pr_id q = rid \<Longrightarrow> List.find (\<lambda>r. pr_id r = rid) (rs @ [q]) = Some q"
  by (induction rs) auto

lemma hex_bytes_length: "2 * length (hex_bytes s) \<le> length s"
  by (induction s rule: hex_bytes.induct) auto

lemma hash_no_v: "length h = 64 \<Longrightarrow> sg_v (splitSignature (''0x'' @ h)) = None"
  using hex_bytes_length [of h] by (simp add: splitSignature_def Let_def)

section \<open>Properties\<close>

text \<open>C5. What becomes of a verified payment: \<open>runVerify\<close> stores the request without a seller, so when
  \<open>runSettle\<close> settles it, every transfer it submits goes from the payer to the payer, not to the
  recipient that was signed, with a lower bound of the validity of 0 and the hash of the signature
  in place of the signature, from which no \<open>v\<close> can be split.\<close>

theorem settle_transfers_to_payer:
  assumes "verify_service E" and "settle_service S" and "\<forall>s. length (ve_sha256 E s) = 64"
    and "\<forall>r\<in>set (requests w). pr_id r \<noteq> rid"
    and "runVerify E raw rid now clock uid w = (Inr (Accepted a), w1)"
    and "runSettle S rid (ac_verificationId a) ref sid rcid now' clock' w1 = (r, w2)"
  shows "\<exists>body more. ve_parse E raw = Inr body \<and> submitted w2 = submitted w @ more \<and>
    (\<forall>p\<in>set more. let auth = vp_authorization (vr_payload body) in
       tc_from (snd p) = au_from auth \<and> tc_to (snd p) = Some (au_from auth) \<and>
       tc_value (snd p) = bigint_of (au_value auth) \<and> tc_validAfter (snd p) = 0 \<and>
       tc_validBefore (snd p) = au_validBefore auth \<and> tc_nonce (snd p) = Some (au_nonce auth) \<and>
       tc_v (snd p) = None)"
proof -
  from verify_service.accepted_stores [OF assms(1,5,4)] obtain body nr where
    body: "ve_parse E raw = Inr body" and
    rq: "requests w1 = requests w @ [stored_request rid body nr clock]" and
    sub: "submitted w1 = submitted w" and
    vs: "verifications w1 = verifications w @
      [verification_row uid rid VAccepted None None (body_hash E body) (body_nonce body) clock]" and
    id: "\<forall>v\<in>set (verifications w). pv_id v \<noteq> uid" "ac_verificationId a = uid"
    by blast
  obtain c w3 where chk: "settle_check S rid (ac_verificationId a) clock' w1 = (c, w3)" by fastforce
  have w3: "w3 = w1" by (rule settle_service.check_same [OF assms(2) chk])
  show ?thesis
  proof (cases "\<exists>v pr nw. c = Inr (Proceed v pr nw)")
    case False
    then have "w2 = w1" using assms(6) chk w3
      by (cases c) (auto simp: runSettle_def seq_def ret_def split: checked.splits)
    then show ?thesis using body sub by auto
  next
    case True
    then obtain v pr nw where p: "c = Inr (Proceed v pr nw)" by blast
    note k = settle_service.check_proceed [OF assms(2) chk [unfolded p w3]]
    have v: "v = verification_row uid rid VAccepted None None (body_hash E body) (body_nonce body) clock"
      using k vs id by auto
    have pr: "pr = stored_request rid body nr clock"
      using k rq find_unique_request [OF assms(4)] by (simp add: stored_request_def Let_def)
    have seller: "pr_sellerId pr = None" by (simp add: pr stored_request_def Let_def)
    have "settle_locked S rid ref v pr nw sid rcid now' clock' w1 = (r, w2)"
      using assms(6) chk p w3 by (simp add: runSettle_def seq_def)
    from stepsD [OF settle_service.locked_calls [OF assms(2) seller] this] obtain more where
      more: "submitted w2 = submitted w1 @ more" "\<forall>p\<in>set more. buyer_call v pr (snd p)"
      unfolding submits_def by blast
    have hash: "sg_v (splitSignature (''0x'' @ body_hash E body)) = None"
      using assms(3) hash_no_v by (simp add: body_hash_def hashSignature_def)
    have "let auth = vp_authorization (vr_payload body) in
       tc_from (snd p) = au_from auth \<and> tc_to (snd p) = Some (au_from auth) \<and>
       tc_value (snd p) = bigint_of (au_value auth) \<and> tc_validAfter (snd p) = 0 \<and>
       tc_validBefore (snd p) = au_validBefore auth \<and> tc_nonce (snd p) = Some (au_nonce auth) \<and>
       tc_v (snd p) = None" if "p \<in> set more" for p
      using more(2) that hash
      by (auto simp: buyer_call_def pr stored_request_def v verification_row_def or_null_str_def body_nonce_def Let_def)
    then show ?thesis using body more(1) sub by auto
  qed
qed

text \<open>One payment through both services.\<close>

definition flow_env :: verify_env where
  "flow_env = sample_env\<lparr>ve_sha256 := (\<lambda>_. replicate 64 (CHR ''a''))\<rparr>"

definition flow_request :: verify_request where
  "flow_request = sample_request\<lparr>vr_asset := ''USDC''\<rparr>"

definition flow_raw :: json where
  "flow_raw = encode_request flow_request"

lemma flow_service: "verify_service flow_env"
  by (simp add: verify_service_def flow_env_def sample_env_def mock_redis_store table_of_prisma)

lemma flow_parsed: "ve_parse flow_env flow_raw = Inr flow_request"
proof -
  have "wf_request flow_request" by code_simp
  then show ?thesis by (simp add: flow_env_def sample_env_def flow_raw_def parse_encode_roundtrip_aux)
qed

lemma flow_admissible: "admissible flow_env flow_request 1000000 base_config usdc_on_base"
  by code_simp

definition flow_world :: world where
  "flow_world = sample_world\<lparr>
     keys := [nonce_key (''0x'' @ replicate 64 (CHR ''d'')) \<mapsto> 1, sig_key (replicate 64 (CHR ''a'')) \<mapsto> 1],
     requests := [stored_request ''r1'' flow_request base_network 1000500],
     verifications := [verification_row ''u1'' ''r1'' VAccepted None None (replicate 64 (CHR ''a''))
       (''0x'' @ replicate 64 (CHR ''d'')) 1000500]\<rparr>"

lemma flow_verifies:
  "\<exists>a. runVerify flow_env flow_raw ''r1'' 1000000 1000500 ''u1'' sample_world = (Inr (Accepted a), flow_world) \<and>
     ac_verificationId a = ''u1''"
  unfolding run_admissible [OF flow_parsed flow_admissible]
  by (simp add: sample_run_simps sample_defs flow_env_def flow_request_def flow_world_def hashSignature_def
      stored_request_def verification_row_def)

lemma flow_settles:
  "settled_result (runSettle sample_settle ''r1'' ''u1'' None ''s1'' ''q1'' 1000000 1000000 flow_world) \<and>
   submitted (snd (runSettle sample_settle ''r1'' ''u1'' None ''s1'' ''q1'' 1000000 1000000 flow_world)) \<noteq> []"
  by (simp add: settle_run_simps flow_world_def sample_world_def stored_request_def verification_row_def flow_request_def
      sample_request_def lock_key_def nonce_key_def sig_key_def)

theorem settle_transfers_to_payer_witness:
  "\<exists>a r w2 p. runVerify flow_env flow_raw ''r1'' 1000000 1000500 ''u1'' sample_world = (Inr (Accepted a), flow_world) \<and>
     runSettle sample_settle ''r1'' (ac_verificationId a) None ''s1'' ''q1'' 1000000 1000000 flow_world = (r, w2) \<and>
     p \<in> set (submitted w2) \<and> tc_to (snd p) = Some (''0x'' @ replicate 40 (CHR ''a'')) \<and> tc_v (snd p) = None \<and>
     ac_to a = ''0x'' @ replicate 40 (CHR ''B'')"
proof -
  obtain a where v: "runVerify flow_env flow_raw ''r1'' 1000000 1000500 ''u1'' sample_world = (Inr (Accepted a), flow_world)"
    and id: "ac_verificationId a = ''u1''" using flow_verifies by blast
  obtain r w2 where s: "runSettle sample_settle ''r1'' (ac_verificationId a) None ''s1'' ''q1'' 1000000 1000000 flow_world = (r, w2)"
    by fastforce
  have h: "\<forall>s. length (ve_sha256 flow_env s) = 64" by (simp add: flow_env_def)
  have fresh: "\<forall>r\<in>set (requests sample_world). pr_id r \<noteq> ''r1''" by (simp add: sample_world_def empty_world_def)
  have none: "submitted sample_world = []" by (simp add: sample_world_def empty_world_def)
  have some: "submitted w2 \<noteq> []" using flow_settles s by (simp add: id)
  obtain nw asset where "ac_to a = au_to (vp_authorization (vr_payload flow_request))"
    using verify_accept_sound [OF flow_service v] flow_parsed by auto
  then have to: "ac_to a = ''0x'' @ replicate 40 (CHR ''B'')" by (simp add: flow_request_def sample_request_def)
  from settle_transfers_to_payer [OF flow_service sample_settle_service h fresh v s] some none flow_parsed
  obtain p where "p \<in> set (submitted w2)" "tc_to (snd p) = Some (au_from (vp_authorization (vr_payload flow_request)))"
    "tc_v (snd p) = None"
    by (cases "submitted w2") (auto simp: Let_def)
  moreover have "au_from (vp_authorization (vr_payload flow_request)) = ''0x'' @ replicate 40 (CHR ''a'')"
    by (simp add: flow_request_def sample_request_def)
  ultimately show ?thesis using v s to by metis
qed

text \<open>\<open>POST /verify\<close> answers every request, while the clock is in range, with 200, 400, 402, 409 or 500:
  with 200 exactly when the payment was accepted, and only then it starts its one notification,
  which names no seller. A thrown error becomes 500.\<close>

theorem verify_route_replies:
  assumes "valid_time late"
  shows "\<exists>r ns. fst (verifyRoute E body rid now clock uid late w) = Inr (r, ns) \<and>
      (reply_status r = Some 200 \<longleftrightarrow> (\<exists>a w'. runVerify E body rid now clock uid w = (Inr (Accepted a), w'))) \<and>
      reply_status r \<in> Some ` {200, 400, 402, 409, 500} \<and>
      (ns = [] \<longleftrightarrow> reply_status r \<noteq> Some 200) \<and> (\<forall>n\<in>set ns. nf_sellerId n = None \<and> nf_event n = ''payment.verified'')"
proof -
  obtain t where t: "toISOString late = Some t" using assms toISOString_Some_iff by blast
  obtain s w' where run: "runVerify E body rid now clock uid w = (s, w')" by fastforce
  consider (Err) e where "s = Inl e" | (Rej) j where "s = Inr (Rejected j)" | (Acc) a where "s = Inr (Accepted a)"
    by (cases s) (auto, metis verify_response.exhaust)
  then show ?thesis
  proof cases
    case Rej
    have "rj_httpStatus j \<in> {400, 402, 409, 500}" using runVerify_status run Rej by blast
    then show ?thesis using run Rej by (auto simp: verifyRoute_def try_catch_def seq_def ret_def)
  qed (use run t in \<open>simp_all add: verifyRoute_def try_catch_def seq_def ret_def iso_def verified_notice_def\<close>)
qed

theorem verify_route_replies_witness:
  "\<exists>r ns. fst (verifyRoute sample_env sample_raw ''r1'' 1000000 1000500 ''u1'' 0 sample_world) = Inr (r, ns) \<and>
     reply_status r = Some 200 \<and> length ns > 0"
proof -
  have v: "valid_time 0" by (simp add: valid_time_def)
  show ?thesis
    using verify_route_replies [OF v, of sample_env sample_raw "''r1''" 1000000 1000500 "''u1''" sample_world] sample_accepted
    by (auto simp: accepted_iff)
qed

text \<open>\<open>POST /settle\<close> answers every request: with 400 and without any effect when the body is malformed;
  with 200 exactly when the service reports a confirmed settlement; it starts one notification
  for every answer of the service, which names no seller, so no failure is notified when the
  service throws.\<close>

theorem settle_route_replies:
  assumes "valid_time late"
  shows "\<exists>r ns. fst (settleRoute S issueText body sid rcid now clock late w) = Inr (r, ns) \<and>
      (\<forall>n\<in>set ns. nf_sellerId n = None) \<and>
      (case SettleBodySchema (Some body) of
         Inl is \<Rightarrow> reply_status r = Some 400 \<and> ns = [] \<and> snd (settleRoute S issueText body sid rcid now clock late w) = w
       | Inr b \<Rightarrow>
           (case fst (runSettle S (sb_requestId b) (sb_verificationId b) (sb_referralCode b) sid rcid now clock w) of
              Inl e \<Rightarrow> reply_status r = Some 500 \<and> ns = []
            | Inr (Settled ok) \<Rightarrow> reply_status r = Some 200 \<and> map nf_event ns = [''payment.settled'']
            | Inr (NotSettled f) \<Rightarrow> reply_status r = Some (sf_httpStatus f) \<and> map nf_event ns = [''payment.failed'']))"
proof -
  obtain t where t: "toISOString late = Some t" using assms toISOString_Some_iff by blast
  show ?thesis
  proof (cases "SettleBodySchema (Some body)")
    case (Inl i)
    then show ?thesis using t by (simp add: settleRoute_def seq_def iso_def ret_def)
  next
    case (Inr b)
    obtain s w' where run: "runSettle S (sb_requestId b) (sb_verificationId b) (sb_referralCode b) sid rcid now clock w = (s, w')"
      by fastforce
    show ?thesis using Inr run t
      by (auto simp: settleRoute_def try_catch_def seq_def ret_def iso_def settled_notice_def failed_notice_def
          internal_failure_def split: sum.splits settle_response.splits)
  qed
qed

theorem settle_route_replies_witness:
  "\<exists>r. fst (settleRoute sample_settle (\<lambda>_. None) (JObj [(''requestId'', JStr ''r1''), (''verificationId'', JStr ''v1'')])
     ''s1'' ''q1'' 1000000 1000000 0 settle_world) = r \<and> (\<exists>p ns. r = Inr (p, ns) \<and> reply_status p = Some 200)"
proof -
  have v: "valid_time 0" by (simp add: valid_time_def)
  have b: "SettleBodySchema (Some (JObj [(''requestId'', JStr ''r1''), (''verificationId'', JStr ''v1'')])) =
      Inr \<lparr>sb_requestId = ''r1'', sb_verificationId = ''v1'', sb_referralCode = None\<rparr>"
    by (simp add: SettleBodySchema_def zobject_def zand_def zfield_def zstring_def zoptional_def settle_body.defs)
  show ?thesis
    using settle_route_replies [OF v, of sample_settle "\<lambda>_. None" "JObj [(''requestId'', JStr ''r1''), (''verificationId'', JStr ''v1'')]"
        "''s1''" "''q1''" 1000000 1000000 settle_world] sample_settles
    by (auto simp: b settled_result_iff)
qed

end
