(* ===== verification/Receipts.thy ===== *)
theory Receipts
  imports Settle Json "HOL-Library.Multiset"
begin

text \<open>
  Reading a receipt: \<open>GET /receipts/:id\<close> of \<open>routes/receipts.route.ts\<close>, the functions of
  \<open>receipt-service.ts\<close> that map a stored receipt to the one handed out, and the audit log of
  \<open>audit-logger.ts\<close>. A receipt written by the settle service is read back with the amounts, the
  transaction and the time that the settlement reported.
\<close>

section \<open>The audit log\<close>

record audit_row =
  al_entityType :: string
  al_entityId :: string
  al_action :: string
  al_actor :: string
  al_payload :: json
  al_createdAt :: int

record audit_entry =
  an_entityType :: string
  an_entityId :: string
  an_action :: string
  an_actor :: string
  an_payload :: "json option"

text \<open>\<open>entry.payload ?? {}\<close>; \<open>createdAt\<close> is filled by the database.\<close>

definition audit_row_of :: "audit_entry \<Rightarrow> int \<Rightarrow> audit_row" where
  "audit_row_of entry clock =
     \<lparr>al_entityType = an_entityType entry, al_entityId = an_entityId entry, al_action = an_action entry,
      al_actor = an_actor entry, al_payload = (case an_payload entry of Some p \<Rightarrow> p | None \<Rightarrow> JObj []),
      al_createdAt = clock\<rparr>"

definition writeAuditLog :: "audit_row delegate \<Rightarrow> audit_entry \<Rightarrow> int \<Rightarrow> (audit_row list, exn, unit) prog" where
  "writeAuditLog T entry clock =
     try_catch (seq (db_create T (audit_row_of entry clock)) (\<lambda>_. ret ())) (\<lambda>err. ret ())"

definition getAuditTrail :: "audit_row delegate \<Rightarrow> string \<Rightarrow> string \<Rightarrow> (audit_row list, exn, audit_row list) prog" where
  "getAuditTrail T entityType entityId =
     seq (db_findMany T (\<lambda>r. al_entityType r = entityType \<and> al_entityId r = entityId))
       (\<lambda>rows. ret (sort_key al_createdAt rows))"

section \<open>The route\<close>

definition null_or :: "json option \<Rightarrow> json" where
  "null_or v = (case v of Some j \<Rightarrow> j | None \<Rightarrow> JNull)"

definition payload_field :: "json \<Rightarrow> string \<Rightarrow> ('w, exn, json) prog" where
  "payload_field payload k =
     (case payload of
        JNull \<Rightarrow> throw (JsError ''TypeError'' (''Cannot read properties of null (reading '' @ quoted k @ '')''))
      | _ \<Rightarrow> ret (null_or (json_get payload k)))"

definition receipt_error :: "nat \<Rightarrow> string \<Rightarrow> string \<Rightarrow> reply" where
  "receipt_error status code message =
     mk_reply status (JObj [(''error'', JObj [(''code'', JStr code), (''message'', JStr message)])])"

definition receiptsRoute :: "payment_receipt delegate \<Rightarrow> string \<Rightarrow> (world, exn, reply) prog" where
  "receiptsRoute R rid =
     try_catch
       (seq (on_receipts (db_find R (\<lambda>r. rc_id r = rid))) (\<lambda>found. case found of
          None \<Rightarrow> ret (receipt_error 404 ''receipt_not_found'' (''No receipt found with id: '' @ rid))
        | Some receipt \<Rightarrow>
            seq (include_row requests (\<lambda>q. pr_id q = rc_requestId receipt)) (\<lambda>request.
            let payload = rc_responsePayload receipt in
            seq (payload_field payload ''network'') (\<lambda>network.
            seq (payload_field payload ''grossAmount'') (\<lambda>grossAmount.
            seq (payload_field payload ''feeAmount'') (\<lambda>feeAmount.
            seq (payload_field payload ''developerShare'') (\<lambda>developerShare.
            seq (payload_field payload ''netAmount'') (\<lambda>netAmount.
            seq (payload_field payload ''feeBps'') (\<lambda>feeBps.
            seq (payload_field payload ''txHash'') (\<lambda>txHash.
            seq (payload_field payload ''referralCode'') (\<lambda>referralCode.
            seq (payload_field payload ''confirmedAt'') (\<lambda>confirmedAt.
            seq (iso (rc_createdAt receipt)) (\<lambda>createdAt.
            ret (mk_reply 200 (JObj
              [(''receiptId'', JStr (rc_id receipt)), (''requestId'', JStr (rc_requestId receipt)),
               (''protocolVersion'', JStr (rc_protocolVersion receipt)), (''network'', network),
               (''asset'', JStr (pr_asset request)), (''grossAmount'', grossAmount), (''feeAmount'', feeAmount),
               (''developerShare'', developerShare), (''netAmount'', netAmount), (''feeBps'', feeBps),
               (''txHash'', txHash), (''referralCode'', referralCode), (''confirmedAt'', confirmedAt),
               (''createdAt'', JStr createdAt)])))))))))))))))
       (\<lambda>err. ret (receipt_error 500 ''internal_error'' ''An internal error occurred.''))"

section \<open>Reading back what the settle service wrote\<close>

lemma payload_field_eq: "payload \<noteq> JNull \<Longrightarrow> payload_field payload k = ret (null_or (json_get payload k))"
  by (cases payload) (simp_all add: payload_field_def)

text \<open>The receipt of a settlement that this call submitted.\<close>

lemma settled_receipt:
  assumes "settle_service S" "runSettle S rid vid ref sid rcid now clock w = (Inr (Settled ok), w')"
    "\<forall>s\<in>set (settlements w). ps_requestId s \<noteq> rid"
  shows "\<exists>pr network (res :: onchain_result) fees confirmed.
    List.find (\<lambda>r. pr_id r = rid) (requests w') = Some pr \<and> toISOString now = Some confirmed \<and>
    receipts w' = receipts w @ [\<lparr>rc_id = rcid, rc_requestId = rid, rc_protocolVersion = ''x402-v1'',
       rc_responsePayload = receipt_payload sid (or_txHash res) network pr (bigint_of (pr_amount pr)) fees ref confirmed,
       rc_createdAt = now\<rparr>] \<and>
    (\<forall>q\<in>set (receipts w). rc_id q \<noteq> rcid) \<and>
    ok = \<lparr>so_requestId = rid, so_settlementId = sid, so_txHash = Some (or_txHash res),
        so_feeAmount = Some (int_str (cf_platformFee fees)),
        so_developerShare = Some (int_str (cf_developerShare fees)), so_receiptId = Some rcid,
        so_confirmedAt = Some confirmed, so_settledAt = confirmed\<rparr>"
  using assms(2)
proof (cases rule: settle_service.run_cases [OF assms(1), consumes 1, case_names Answer Locked])
  case Answer
  then show ?thesis using settle_service.check_answer [OF assms(1) Answer(1)] assms(3) by auto
next
  case (Locked v pr nw)
  obtain w1 where w1: "w1 = lock_world rid sid ref now w"
    "settle_submit S rid ref v pr nw sid rcid now w1 = (Inr (Settled ok), w')"
    using Locked(2) by (cases rule: settle_service.locked_cases [OF assms(1)]) auto
  have now: "toISOString now = Some (so_settledAt ok)"
    using w1(2) unfolding settle_submit_def by (auto simp: run_simps)
  show ?thesis
    using settle_service.submit_trace [OF assms(1) w1(2)]
  proof (elim exE conjE, goal_cases)
    case (1 network asset payee res log fees confirmed ss rs k)
    note c = settle_service.commit_ok [OF assms(1) 1(5)]
    have "List.find (\<lambda>r. pr_id r = rid) (requests w') = Some pr"
      using settle_service.check_proceed [OF assms(1) Locked(1)] 1(7) w1(1) by (simp add: lock_world_def)
    moreover have "\<forall>q\<in>set (receipts w). rc_id q \<noteq> rcid" and w: "receipts w1 = receipts w"
      using c w1(1) by (auto simp: receipt_clash_def lock_world_def)
    moreover have "receipts w' = rs" using 1(7) by simp
    moreover note trans [OF this conjunct1 [OF c], unfolded w]
    moreover note 1(8) [unfolded settle_response.inject]
    moreover have "toISOString now = Some confirmed" using now 1(8) by simp
    ultimately show ?case
      by - (rule exI, rule exI, rule exI, rule exI, rule exI, intro conjI, assumption+)
  qed
qed

text \<open>C21. A settlement that was just submitted and confirmed is read back: \<open>GET /receipts\<close> with the receipt id
  it reported answers 200 with the request, the transaction, the fee, the developer share and the
  confirmation time it reported, the amount of the request, and no \<open>status\<close>.
\<close>

theorem receipt_readback:
  assumes "settle_service S" "prisma_table R receipt_clash" "\<And>p rs. \<exists>f. fst (db_find R p rs) = Inr f"
    and "runSettle S rid vid ref sid rcid now clock w = (Inr (Settled ok), w')"
    and "\<forall>s\<in>set (settlements w). ps_requestId s \<noteq> rid"
  shows "\<exists>pr p. pr \<in> set (requests w') \<and> pr_id pr = rid \<and> receiptsRoute R rcid w' = (Inr p, w') \<and> reply_status p = Some 200 \<and>
    map (json_get (reply_body p))
      [''receiptId'', ''requestId'', ''asset'', ''grossAmount'', ''txHash'', ''feeAmount'', ''developerShare'', ''confirmedAt''] =
    map Some [JStr rcid, JStr rid, JStr (pr_asset pr), JStr (int_str (bigint_of (pr_amount pr))), null_or_str (so_txHash ok),
      null_or_str (so_feeAmount ok), null_or_str (so_developerShare ok), null_or_str (so_confirmedAt ok)] \<and>
    json_get (reply_body p) ''status'' = None"
proof -
  obtain pr network and res :: onchain_result and fees confirmed where s: "List.find (\<lambda>r. pr_id r = rid) (requests w') = Some pr"
    "toISOString now = Some confirmed"
    "receipts w' = receipts w @ [\<lparr>rc_id = rcid, rc_requestId = rid, rc_protocolVersion = ''x402-v1'',
       rc_responsePayload = receipt_payload sid (or_txHash res) network pr (bigint_of (pr_amount pr)) fees ref confirmed,
       rc_createdAt = now\<rparr>]"
    "\<forall>q\<in>set (receipts w). rc_id q \<noteq> rcid"
    "ok = \<lparr>so_requestId = rid, so_settlementId = sid, so_txHash = Some (or_txHash res),
        so_feeAmount = Some (int_str (cf_platformFee fees)),
        so_developerShare = Some (int_str (cf_developerShare fees)), so_receiptId = Some rcid,
        so_confirmedAt = Some confirmed, so_settledAt = confirmed\<rparr>"
    using settled_receipt [OF assms(1,4,5)] by blast
  let ?rc = "\<lparr>rc_id = rcid, rc_requestId = rid, rc_protocolVersion = ''x402-v1'',
       rc_responsePayload = receipt_payload sid (or_txHash res) network pr (bigint_of (pr_amount pr)) fees ref confirmed,
       rc_createdAt = now\<rparr>"
  obtain f where f: "db_find R (\<lambda>r. rc_id r = rcid) (receipts w') = (Inr f, receipts w')"
    using assms(3) [of "\<lambda>r. rc_id r = rcid" "receipts w'"] prisma_table.find_state [OF assms(2)] by (metis prod.collapse)
  have "f = Some ?rc"
  proof (cases f)
    case None
    then show ?thesis using prisma_table.find_None [OF assms(2) f [unfolded None]] s(3) by auto
  next
    case (Some x)
    then show ?thesis using prisma_table.find_Some [OF assms(2) f [unfolded Some]] s(3,4) by auto
  qed
  moreover have "pr \<in> set (requests w') \<and> pr_id pr = rid"
    using s(1) by (auto simp: find_Some_iff)
  ultimately show ?thesis
    using f s by (intro exI [where x = pr])
      (simp add: receiptsRoute_def try_catch_def seq_def on_receipts_def zoom_def include_row_def payload_field_eq
        receipt_payload_def ret_def iso_def null_or_def mk_reply_def null_or_str_def Let_def)
qed

lemma table_find_answers: "\<exists>f. fst (db_find (table_of c) p rs) = Inr f"
  by (simp add: table_of_def)

theorem receipt_readback_witness:
  "\<exists>ok w' p. runSettle sample_settle ''r1'' ''v1'' None ''s1'' ''q1'' 1000000 1000000 settle_world = (Inr (Settled ok), w') \<and>
     receiptsRoute (table_of receipt_clash) ''q1'' w' = (Inr p, w') \<and>
     json_get (reply_body p) ''txHash'' = Some (null_or_str (so_txHash ok)) \<and> json_get (reply_body p) ''status'' = None"
proof -
  obtain ok w' where run: "runSettle sample_settle ''r1'' ''v1'' None ''s1'' ''q1'' 1000000 1000000 settle_world
       = (Inr (Settled ok), w')"
    using sample_settles by (auto simp: settled_result_iff)
  have "\<forall>s\<in>set (settlements settle_world). ps_requestId s \<noteq> ''r1''"
    by (simp add: settle_world_def empty_world_def)
  from receipt_readback [OF sample_settle_service table_of_prisma table_find_answers run this] run show ?thesis
    by auto
qed

text \<open>
  The audit log never stops its caller: an insertion that fails leaves the log as it was, and the
  trail of an entity is what was written for it, oldest first.
\<close>

theorem audit_never_fails:
  assumes "prisma_table T (\<lambda>_ _. False)"
  shows "\<exists>rows'. writeAuditLog T entry clock rows = (Inr (), rows') \<and> (rows' = rows \<or> rows' = rows @ [audit_row_of entry clock]) \<and>
    (\<forall>trail. fst (getAuditTrail T t i rows') = Inr trail \<longrightarrow>
       sorted (map al_createdAt trail) \<and> mset trail = mset (filter (\<lambda>r. al_entityType r = t \<and> al_entityId r = i) rows'))"
proof -
  obtain s rows' where c: "db_create T (audit_row_of entry clock) rows = (s, rows')" by fastforce
  have r: "rows' = rows \<or> rows' = rows @ [audit_row_of entry clock]"
    by (rule prisma_table.create_cases [OF assms c]) auto
  have w: "writeAuditLog T entry clock rows = (Inr (), rows')"
    using c by (cases s) (auto simp: writeAuditLog_def try_catch_def seq_def ret_def)
  have trail: "sorted (map al_createdAt trail) \<and> mset trail = mset (filter (\<lambda>r. al_entityType r = t \<and> al_entityId r = i) rows')"
    if got: "fst (getAuditTrail T t i rows') = Inr trail" for trail
  proof -
    obtain f rs where f: "db_findMany T (\<lambda>r. al_entityType r = t \<and> al_entityId r = i) rows' = (f, rs)" by fastforce
    then obtain xs where "f = Inr xs" "trail = sort_key al_createdAt xs"
      using got by (cases f) (auto simp: getAuditTrail_def seq_def ret_def)
    then show ?thesis using prisma_table.findMany_run [OF assms, of _ rows' xs rs] f by simp
  qed
  show ?thesis using w r trail by blast
qed

section \<open>The receipt service\<close>

text \<open>
  \<open>receipt-service.ts\<close> reads a relation \<open>settlement\<close> and columns that the schema of the database
  does not have; the query is a parameter, and its rows hold what the functions read.
\<close>

record receipt_source =
  rs_id :: string
  rs_requestId :: string
  rs_settlementId :: "string option"
  rs_protocolVersion :: string
  rs_payload :: "(string \<times> json) list"
  rs_chain :: "json option"
  rs_referralCode :: "string option"
  rs_seller :: string
  rs_createdAt :: int

record receipt_dto =
  rd_receiptId :: string
  rd_requestId :: string
  rd_settlementId :: string
  rd_protocolVersion :: string
  rd_networkName :: string
  rd_chainId :: string
  rd_asset :: string
  rd_seller :: string
  rd_buyer :: string
  rd_amount :: string
  rd_txHash :: string
  rd_feeAmount :: string
  rd_developerShare :: string
  rd_referralCode :: "string option"
  rd_confirmedAt :: string
  rd_createdAt :: string

text \<open>\<open>String(v ?? '')\<close>\<close>

definition text_or_empty :: "json option \<Rightarrow> string" where
  "text_or_empty v = (case v of None \<Rightarrow> [] | Some JNull \<Rightarrow> [] | Some j \<Rightarrow> js_String j)"

definition receipt_dto_of :: "receipt_source \<Rightarrow> string \<Rightarrow> receipt_dto" where
  "receipt_dto_of r createdAt =
     (let field = (\<lambda>k. text_or_empty (map_of (rs_payload r) k)) in
      \<lparr>rd_receiptId = rs_id r, rd_requestId = rs_requestId r,
       rd_settlementId = (case rs_settlementId r of Some s \<Rightarrow> s | None \<Rightarrow> []),
       rd_protocolVersion = rs_protocolVersion r, rd_networkName = field ''network'',
       rd_chainId = text_or_empty (rs_chain r), rd_asset = field ''asset'', rd_seller = field ''seller'',
       rd_buyer = field ''buyer'', rd_amount = field ''amount'', rd_txHash = field ''txHash'',
       rd_feeAmount = field ''feeAmount'', rd_developerShare = field ''developerShare'',
       rd_referralCode = rs_referralCode r, rd_confirmedAt = field ''confirmedAt'', rd_createdAt = createdAt\<rparr>)"

record receipt_world =
  rw_receipts :: "receipt_source list"
  rw_audit :: "audit_row list"

definition getReceiptById ::
  "receipt_source delegate \<Rightarrow> audit_row delegate \<Rightarrow> string \<Rightarrow> int \<Rightarrow> (receipt_world, exn, receipt_dto) prog" where
  "getReceiptById R T rid clock =
     seq (zoom rw_receipts (\<lambda>x w. w\<lparr>rw_receipts := x\<rparr>) (db_find R (\<lambda>r. rs_id r = rid))) (\<lambda>found. case found of
       None \<Rightarrow> throw (Facilitator (createError ''not_found'' (Some (''No receipt found for id: '' @ rid)) None))
     | Some receipt \<Rightarrow>
         seq (zoom rw_audit (\<lambda>x w. w\<lparr>rw_audit := x\<rparr>) (writeAuditLog T
                \<lparr>an_entityType = ''payment_receipt'', an_entityId = rs_id receipt, an_action = ''receipt.read'',
                 an_actor = ''operator'', an_payload = Some (JObj [(''receiptId'', JStr (rs_id receipt))])\<rparr> clock)) (\<lambda>_.
         seq (iso (rs_createdAt receipt)) (\<lambda>createdAt.
         ret (receipt_dto_of receipt createdAt))))"

text \<open>
  Pages are counted from 1 and hold at most 100 receipts. The query engine refuses a negative
  \<open>skip\<close>; a negative \<open>take\<close> counts from the end of the list and is not used here.
\<close>

definition page_rows :: "int \<Rightarrow> int \<Rightarrow> 'a list \<Rightarrow> exn + 'a list" where
  "page_rows skip n rows =
     (if skip < 0 then Inl (plainError ''Invalid value for skip argument: Value can only be positive'')
      else Inr (take (nat n) (drop (nat skip) rows)))"

fun map_iso :: "receipt_source list \<Rightarrow> exn + receipt_dto list" where
  "map_iso [] = Inr []"
| "map_iso (r # rs) =
     (case toISOString (rs_createdAt r) of
        None \<Rightarrow> Inl RangeError
      | Some c \<Rightarrow> (case map_iso rs of Inl e \<Rightarrow> Inl e | Inr ds \<Rightarrow> Inr (receipt_dto_of r c # ds)))"

definition listReceiptsBySeller ::
  "receipt_source delegate \<Rightarrow> string \<Rightarrow> int option \<Rightarrow> int option \<Rightarrow> (receipt_source list, exn, receipt_dto list) prog" where
  "listReceiptsBySeller R seller page_opt perPage_opt =
     (let page = (case page_opt of Some p \<Rightarrow> p | None \<Rightarrow> 1);
          perPage = min (case perPage_opt of Some n \<Rightarrow> n | None \<Rightarrow> 20) 100;
          skip = (page - 1) * perPage
      in seq (db_findMany R (\<lambda>r. rs_seller r = seller)) (\<lambda>rows.
         seq (of_sum (page_rows skip perPage (sort_key (\<lambda>r. - rs_createdAt r) rows))) (\<lambda>receipts.
         of_sum (map_iso receipts))))"

text \<open>A page holds at most 100 receipts, all of the seller, newest first.\<close>

lemma map_iso_rows: "map_iso rs = Inr ds \<Longrightarrow> length ds = length rs \<and> map rd_receiptId ds = map rs_id rs"
  by (induction rs arbitrary: ds) (auto simp: receipt_dto_of_def Let_def split: option.splits sum.splits)

theorem receipts_page:
  assumes "prisma_table R clash" "listReceiptsBySeller R seller page perPage rows = (Inr ds, rows')"
  shows "rows' = rows \<and> length ds \<le> 100 \<and>
    (\<exists>rs. map rd_receiptId ds = map rs_id rs \<and> set rs \<subseteq> {r \<in> set rows. rs_seller r = seller} \<and>
       sorted_wrt (\<lambda>r q. rs_createdAt r \<ge> rs_createdAt q) rs)"
proof -
  let ?n = "min (case perPage of Some n \<Rightarrow> n | None \<Rightarrow> 20) 100"
  let ?skip = "((case page of Some p \<Rightarrow> p | None \<Rightarrow> 1) - 1) * ?n"
  let ?sorted = "sort_key (\<lambda>r. - rs_createdAt r) (filter (\<lambda>r. rs_seller r = seller) rows)"
  obtain rs where rs: "page_rows ?skip ?n ?sorted = Inr rs" "map_iso rs = Inr ds" "rows' = rows"
    using assms(2) unfolding listReceiptsBySeller_def Let_def
    by (auto simp: run_simps dest!: prisma_table.findMany_run [OF assms(1)])
  have rs': "rs = take (nat ?n) (drop (nat ?skip) ?sorted)" using rs(1) by (auto simp: page_rows_def split: if_splits)
  have "sorted_wrt (\<lambda>r q. rs_createdAt r \<ge> rs_createdAt q) ?sorted"
    using sorted_sort_key [of "\<lambda>r. - rs_createdAt r"] by (simp add: sorted_map)
  then have "sorted_wrt (\<lambda>r q. rs_createdAt r \<ge> rs_createdAt q) rs" unfolding rs' by (intro sorted_wrt_take sorted_wrt_drop)
  moreover have "set rs \<subseteq> {r \<in> set rows. rs_seller r = seller}"
    unfolding rs' using set_take_subset set_drop_subset by (force dest: in_set_takeD in_set_dropD)
  moreover have "length rs \<le> 100" unfolding rs' by simp
  moreover have "length ds = length rs" "map rd_receiptId ds = map rs_id rs"
    using map_iso_rows [OF rs(2)] by simp_all
  ultimately show ?thesis using rs(3) by (intro conjI exI [where x = rs]) simp_all
qed

end
