(* ===== verification/Interop.thy ===== *)
theory Interop
  imports AgentClient X402Client PaymentRoutes Receipts
begin

text \<open>
  The published clients against the routes of the facilitator: \<open>facilitator\<close> is the network in
  which the requests of a client are answered by \<open>verifyEndpoint\<close>, \<open>settleEndpoint\<close> and
  \<open>receiptsRoute\<close> on the state of the services.
\<close>

section \<open>The facilitator as a network\<close>

record facilitator_env =
  fa_validation :: body_validation
  fa_verify :: verify_env
  fa_settle :: settle_env
  fa_receipts :: "payment_receipt delegate"
  fa_issueText :: "issues \<Rightarrow> string option"
  fa_id :: "nat \<Rightarrow> world \<Rightarrow> string"
  fa_clock :: "world \<Rightarrow> int"

text \<open>What a handler ends in, as the client sees it; an error goes through the error handler.\<close>

definition answer_of :: "(exn + reply) \<times> world \<Rightarrow> fetched \<times> world" where
  "answer_of res =
     (case res of (r, w) \<Rightarrow>
        let p = (case r of Inr p \<Rightarrow> p | Inl e \<Rightarrow> snd (snd (errorHandler e '''' None))) in
        (Inr \<lparr>ha_status = (case reply_status p of Some s \<Rightarrow> int s | None \<Rightarrow> 500), ha_json = Inr (reply_body p)\<rparr>, w))"

definition reply_only :: "(world, exn, reply \<times> notification list) prog \<Rightarrow> (world, exn, reply) prog" where
  "reply_only m = seq m (\<lambda>p. ret (fst p))"

definition body_of :: "api_request \<Rightarrow> json" where
  "body_of rq = (case ar_body rq of Some b \<Rightarrow> b | None \<Rightarrow> JNull)"

definition facilitator :: "facilitator_env \<Rightarrow> string \<Rightarrow> world network" where
  "facilitator E base rq w =
     (let now = fa_clock E w in
      answer_of
        ((if ar_method rq = ''POST'' \<and> ar_url rq = base @ ''/verify'' then
            reply_only (verifyEndpoint (fa_validation E) (fa_verify E) (body_of rq) (fa_id E 0 w) now now (fa_id E 1 w) now)
          else if ar_method rq = ''POST'' \<and> ar_url rq = base @ ''/settle'' then
            reply_only (settleEndpoint (fa_validation E) (fa_settle E) (fa_issueText E) (body_of rq) (fa_id E 2 w) (fa_id E 3 w) now now now)
          else if ar_method rq = ''GET'' \<and> startsWith (ar_url rq) (base @ ''/receipts/'') then
            receiptsRoute (fa_receipts E) (drop (length base + 10) (ar_url rq))
          else ret (mk_reply 404 (JObj [(''message'', JStr ''Not Found'')]))) w))"

section \<open>What the endpoints answer\<close>

lemma settle_body_no_verification: "json_get (settle_request_body r) ''verificationId'' = None"
  by (cases r) (auto simp: settle_request_body_def)

section \<open>The clients against the routes\<close>

lemma http_simps [simp]:
  "ar_method (sdk_http c verb path body) = verb" "ar_url (sdk_http c verb path body) = sc_baseUrl c @ path"
  "ar_body (sdk_http c verb path body) = body"
  "ar_method (agent_http a verb path body) = verb" "ar_url (agent_http a verb path body) = ac_baseUrl a @ path"
  "ar_body (agent_http a verb path body) = body"
  "ar_method (x402_post_request x path v) = ''POST''" "ar_url (x402_post_request x path v) = xc_baseUrl x @ path"
  "ar_body (x402_post_request x path v) = Some v"
  by (simp_all add: sdk_http_def agent_http_def x402_post_request_def)

text \<open>The answer of the facilitator to a body its schemas refuse.\<close>

definition schema_answer :: "string \<Rightarrow> json" where
  "schema_answer message = reply_body (snd (snd (errorHandler (ValidationError message) '''' None)))"

lemma schema_answer_fields:
  "json_get (schema_answer m) ''status'' = None" "json_get (schema_answer m) ''code'' = None"
  "spread (json_get (schema_answer m) ''error'') ''code'' = Some (JStr ''validation_error'')"
  "\<exists>kvs. schema_answer m = JObj kvs"
  by (simp_all add: schema_answer_def errorHandler_def Let_def mk_reply_def spread_def)

lemma answer_refused:
  "answer_of (reply_only (throw (ValidationError m)) w) = (Inr \<lparr>ha_status = 400, ha_json = Inr (schema_answer m)\<rparr>, w)"
  by (simp add: answer_of_def reply_only_def seq_def throw_def schema_answer_def errorHandler_def Let_def mk_reply_def)

lemma facilitator_verify:
  assumes "json_get body ''version'' = None"
    and "ar_method rq = ''POST''" "ar_url rq = base @ ''/verify''" "ar_body rq = Some body"
  shows "\<exists>m. facilitator E base rq w = (Inr \<lparr>ha_status = 400, ha_json = Inr (schema_answer m)\<rparr>, w)"
  using assms answer_refused by (auto simp: facilitator_def body_of_def Let_def no_version_refused)

lemma facilitator_settle:
  assumes "ar_method rq = ''POST''" "ar_url rq = base @ ''/settle''" "ar_body rq = Some body"
    and "json_get body ''verificationId'' = None"
  shows "\<exists>m. facilitator E base rq w = (Inr \<lparr>ha_status = 400, ha_json = Inr (schema_answer m)\<rparr>, w)"
  using assms answer_refused by (auto simp: facilitator_def body_of_def Let_def no_verificationId_refused)

text \<open>A client that sends a request to which the answer is such an error.\<close>

lemma sdk_request_refused:
  assumes "F (sdk_http c verb path body) (cw_net w) = (Inr \<lparr>ha_status = 400, ha_json = Inr j\<rparr>, cw_net w)"
    "spread (json_get j ''error'') ''code'' = Some (JStr ''validation_error'')"
  shows "\<exists>err w'. sdk_request F c verb path body 0 w = (Inl (FacilitatorAPIError err), w') \<and>
    ae_code err = Some (JStr ''validation_error'') \<and> ae_httpStatus err = 400 \<and> cw_net w' = cw_net w \<and>
    cw_log w' = cw_log w @ [Exchanged (sdk_http c verb path body) (Inr \<lparr>ha_status = 400, ha_json = Inr j\<rparr>)]"
proof -
  obtain kvs where "j = JObj kvs" using assms(2) by (cases j) (auto simp: spread_def)
  then show ?thesis
    using assms by (simp add: sdk_request.simps seq_def exchange_def sdk_answer_def answer_ok_def js_get_def api_error_of_def
        api_isRetryable_def code_in_def throw_def)
qed

text \<open>\<open>settle(requestId)\<close> of the published client can never settle anything with this facilitator: whatever
  the id, one request is sent, the schema of the route refuses it for the missing \<open>verificationId\<close> without
  touching the state of the services, and the client throws \<open>validation_error\<close> without a retry.
\<close>

theorem sdk_settle_refused:
  "\<exists>err w' x. sdk_settle (facilitator E (sc_baseUrl c)) c requestId w = (Inl (FacilitatorAPIError err), w') \<and>
    ae_code err = Some (JStr ''validation_error'') \<and> cw_net w' = cw_net w \<and>
    cw_log w' = cw_log w @ [Exchanged (sdk_http c ''POST'' ''/settle'' (Some (settle_request_body requestId))) x]"
proof -
  obtain m where j: "facilitator E (sc_baseUrl c) (sdk_http c ''POST'' ''/settle'' (Some (settle_request_body requestId))) (cw_net w) =
      (Inr \<lparr>ha_status = 400, ha_json = Inr (schema_answer m)\<rparr>, cw_net w)"
    using facilitator_settle [OF _ _ _ settle_body_no_verification [of requestId],
        where rq = "sdk_http c ''POST'' ''/settle'' (Some (settle_request_body requestId))" and base = "sc_baseUrl c" and w = "cw_net w"]
    by auto
  show ?thesis
    using sdk_request_refused [of "facilitator E (sc_baseUrl c)", OF j schema_answer_fields(3)]
    unfolding sdk_settle_def sdk_post_def by blast
qed

text \<open>A facilitator with tables in memory, and a clock that stands still.\<close>

definition sample_facilitator :: facilitator_env where
  "sample_facilitator = \<lparr>fa_validation = \<lparr>bv_schemaText = (\<lambda>schema body. ''body must have the required properties''),
       bv_coerce = (\<lambda>schema body. Inr body)\<rparr>,
     fa_verify = sample_env, fa_settle = sample_settle, fa_receipts = table_of receipt_clash,
     fa_issueText = (\<lambda>_. None), fa_id = (\<lambda>n w. ''id''), fa_clock = (\<lambda>w. 1000000)\<rparr>"

text \<open>C22. None of the three published clients can pay with this facilitator: a proof of the type it documents
  has no \<open>version\<close> (the types say \<open>x402Version\<close>), a property the schema of the verify route requires, so
  the proof does not even reach the handler. \<open>pay\<close> of the SDK throws \<open>validation_error\<close>, \<open>pay\<close> of the
  client for agents throws \<open>unknown_error\<close> (it looks for the code beside \<open>error\<close>, not in it), and the
  Express middleware does not call \<open>next()\<close>. The first two send that one request only, and the state
  of the services is the same after each of the three.
\<close>

theorem clients_cannot_pay:
  assumes "json_get proof ''version'' = None"
  shows "(\<exists>err w1 x1. sdk_pay (facilitator E (sc_baseUrl c)) c proof w = (Inl (FacilitatorAPIError err), w1) \<and>
      ae_code err = Some (JStr ''validation_error'') \<and> cw_net w1 = cw_net w \<and>
      cw_log w1 = cw_log w @ [Exchanged (sdk_http c ''POST'' ''/verify'' (Some proof)) x1]) \<and>
    (\<exists>err w2 x2. agent_pay (facilitator E (ac_baseUrl a)) a proof w = (Inl (FacilitatorError err), w2) \<and>
      fe2_code err = JStr ''unknown_error'' \<and> cw_net w2 = cw_net w \<and>
      cw_log w2 = cw_log w @ [Exchanged (agent_http a ''POST'' ''/verify'' (Some proof)) x2]) \<and>
    (decode_proof syntax header = Inr proof \<longrightarrow>
      (\<exists>res w3. expressMiddleware (facilitator E (xc_baseUrl x)) x opts syntax handler (Some header) wallet now w = (Inr res, w3) \<and>
        mw_next res = None \<and> cw_net w3 = cw_net w))"
proof (intro conjI impI)
  obtain m where "facilitator E (sc_baseUrl c) (sdk_http c ''POST'' ''/verify'' (Some proof)) (cw_net w) =
      (Inr \<lparr>ha_status = 400, ha_json = Inr (schema_answer m)\<rparr>, cw_net w)"
    using facilitator_verify [OF assms, where rq = "sdk_http c ''POST'' ''/verify'' (Some proof)" and base = "sc_baseUrl c"
        and w = "cw_net w"] by auto
  from sdk_request_refused [of "facilitator E (sc_baseUrl c)", OF this schema_answer_fields(3)]
  show "\<exists>err w1 x1. sdk_pay (facilitator E (sc_baseUrl c)) c proof w = (Inl (FacilitatorAPIError err), w1) \<and>
      ae_code err = Some (JStr ''validation_error'') \<and> cw_net w1 = cw_net w \<and>
      cw_log w1 = cw_log w @ [Exchanged (sdk_http c ''POST'' ''/verify'' (Some proof)) x1]"
    by (auto simp: sdk_pay_def sdk_verify_def sdk_post_def seq_def)
next
  obtain m where j: "facilitator E (ac_baseUrl a) (agent_http a ''POST'' ''/verify'' (Some proof)) (cw_net w) =
      (Inr \<lparr>ha_status = 400, ha_json = Inr (schema_answer m)\<rparr>, cw_net w)"
    using facilitator_verify [OF assms, where rq = "agent_http a ''POST'' ''/verify'' (Some proof)" and base = "ac_baseUrl a"
        and w = "cw_net w"] by auto
  obtain kvs where "schema_answer m = JObj kvs" using schema_answer_fields(4) by blast
  then show "\<exists>err w2 x2. agent_pay (facilitator E (ac_baseUrl a)) a proof w = (Inl (FacilitatorError err), w2) \<and>
      fe2_code err = JStr ''unknown_error'' \<and> cw_net w2 = cw_net w \<and>
      cw_log w2 = cw_log w @ [Exchanged (agent_http a ''POST'' ''/verify'' (Some proof)) x2]"
    using j schema_answer_fields(2) [of m]
    by (simp add: agent_pay_def agent_verify_def agent_request.simps seq_def exchange_def answer_error_def js_get_def
        answer_ok_def agent_isRetryable_def code_in_def nullish_or_def throw_def)
next
  assume d: "decode_proof syntax header = Inr proof"
  obtain m where j: "facilitator E (xc_baseUrl x) (x402_post_request x ''/verify'' proof) (cw_net w) =
      (Inr \<lparr>ha_status = 400, ha_json = Inr (schema_answer m)\<rparr>, cw_net w)"
    using facilitator_verify [OF assms, where rq = "x402_post_request x ''/verify'' proof" and base = "xc_baseUrl x"
        and w = "cw_net w"] by auto
  obtain kvs where "schema_answer m = JObj kvs" using schema_answer_fields(4) by blast
  then show "\<exists>res w3. expressMiddleware (facilitator E (xc_baseUrl x)) x opts syntax handler (Some header) wallet now w = (Inr res, w3) \<and>
        mw_next res = None \<and> cw_net w3 = cw_net w"
    using j d schema_answer_fields(1) [of m]
    by (cases header) (auto simp: expressMiddleware_def mw_verified_def try_catch_def seq_def of_sum_def x402_verifyPayment_def
        x402_post_def x402_send_def exchange_def get_prop_def js_get_def refuse_def ret_def)
qed

lemma sample_header_version:
  "json_parse (bytes_str (b64_decode ''eyJ4NDAyVmVyc2lvbiI6IjEifQ=='')) = Some (JObj [(''x402Version'', JStr ''1'')])"
  by code_simp

lemma clients_cannot_pay_witness:
  "\<exists>res w3. expressMiddleware (facilitator sample_facilitator (xc_baseUrl sample_x402)) sample_x402 sample_mw (\<lambda>s. s) (\<lambda>ctx. Inr ())
       (Some ''eyJ4NDAyVmVyc2lvbiI6IjEifQ=='') None 0 \<lparr>cw_net = sample_world, cw_log = []\<rparr> = (Inr res, w3) \<and>
     mw_next res = None \<and> cw_net w3 = sample_world"
proof -
  have v: "json_get (JObj [(''x402Version'', JStr ''1'')]) ''version'' = None" by simp
  have d: "decode_proof (\<lambda>s. s) ''eyJ4NDAyVmVyc2lvbiI6IjEifQ=='' = Inr (JObj [(''x402Version'', JStr ''1'')])"
    by (simp add: decode_proof_def sample_header_version)
  show ?thesis
    using conjunct2 [OF conjunct2 [OF clients_cannot_pay [OF v, where E = sample_facilitator and w = "\<lparr>cw_net = sample_world, cw_log = []\<rparr>"
        and x = sample_x402 and opts = sample_mw and handler = "\<lambda>ctx. Inr ()" and wallet = None and now = 0]], rule_format, OF d]
    by simp
qed

section \<open>Polling a settled payment\<close>

lemma facilitator_receipt:
  assumes "receiptsRoute (fa_receipts E) rid w = (Inr p, w)" "reply_status p = Some 200"
  shows "facilitator E (sc_baseUrl c) (sdk_http c ''GET'' (''/receipts/'' @ rid) None) w =
    (Inr \<lparr>ha_status = 200, ha_json = Inr (reply_body p)\<rparr>, w)"
proof -
  have "startsWith (sc_baseUrl c @ ''/receipts/'' @ rid) (sc_baseUrl c @ ''/receipts/'')"
    using startsWith_append [of "sc_baseUrl c @ ''/receipts/''" rid] by simp
  then show ?thesis
    using assms by (simp add: facilitator_def answer_of_def Let_def)
qed

text \<open>C27. After a settlement that this facilitator confirmed, \<open>pollSettlement\<close> of the SDK on its receipt
  makes exactly \<open>maxAttempts\<close> rounds, 30 by default: in each it asks once for the receipt, is answered 200
  with that receipt, and sleeps for the interval; then it throws a timeout of the whole time. The route
  sends no \<open>status\<close>, the field the loop waits for. The services are left as they were.
\<close>

theorem poll_after_settlement:
  assumes "settle_service (fa_settle E)" "prisma_table (fa_receipts E) receipt_clash"
    and "\<And>p rs. \<exists>f. fst (db_find (fa_receipts E) p rs) = Inr f"
    and "runSettle (fa_settle E) rid vid ref sid rcid now clock w = (Inr (Settled ok), w')"
    and "\<forall>s\<in>set (settlements w). ps_requestId s \<noteq> rid"
    and "interval = (case intervalMs of Some i \<Rightarrow> i | None \<Rightarrow> 2000)" "rounds = (case maxAttempts of Some m \<Rightarrow> m | None \<Rightarrow> 30)"
  shows "\<exists>receipt. json_get receipt ''receiptId'' = Some (JStr rcid) \<and>
    pollSettlement (facilitator E (sc_baseUrl c)) c rcid intervalMs maxAttempts \<lparr>cw_net = w', cw_log = l\<rparr> =
      (Inl (FacilitatorTimeoutError (interval * rounds)),
       \<lparr>cw_net = w', cw_log = l @ concat (replicate (nat rounds)
          [Exchanged (sdk_http c ''GET'' (''/receipts/'' @ rcid) None) (Inr \<lparr>ha_status = 200, ha_json = Inr receipt\<rparr>),
           Slept interval])\<rparr>)"
proof -
  obtain p where p: "receiptsRoute (fa_receipts E) rcid w' = (Inr p, w')" "reply_status p = Some 200"
    "json_get (reply_body p) ''status'' = None" "json_get (reply_body p) ''receiptId'' = Some (JStr rcid)"
    using receipt_readback [OF assms(1-5)] by auto
  have notnull: "reply_body p \<noteq> JNull" using p(4) by auto
  let ?e = "Exchanged (sdk_http c ''GET'' (''/receipts/'' @ rcid) None) (Inr \<lparr>ha_status = 200, ha_json = Inr (reply_body p)\<rparr>)"
  have get: "\<exists>j. sdk_getReceipt (facilitator E (sc_baseUrl c)) c rcid cw = (Inr j, cw\<lparr>cw_log := cw_log cw @ [?e]\<rparr>) \<and>
      j \<noteq> JNull \<and> json_get j ''status'' = None" if "cw_net cw = w'" for cw
    using facilitator_receipt [of E, OF p(1,2), of c] that notnull p(3)
    by (simp add: sdk_getReceipt_def sdk_get_def sdk_request.simps seq_def exchange_def sdk_answer_def answer_ok_def ret_def)
  show ?thesis
    unfolding pollSettlement_def Let_def assms(6) assms(7)
    using poll_rounds_stuck [OF get, where w = "\<lparr>cw_net = w', cw_log = l\<rparr>"] p(4) by (intro exI [of _ "reply_body p"]) simp
qed

theorem poll_after_settlement_witness:
  "\<exists>ok w' cw. runSettle sample_settle ''r1'' ''v1'' None ''s1'' ''q1'' 1000000 1000000 settle_world = (Inr (Settled ok), w') \<and>
     pollSettlement (facilitator sample_facilitator (sc_baseUrl sample_client)) sample_client ''q1'' None None \<lparr>cw_net = w', cw_log = []\<rparr>
       = (Inl (FacilitatorTimeoutError 60000), cw) \<and> length (cw_log cw) = 60"
proof -
  obtain ok w' where run: "runSettle sample_settle ''r1'' ''v1'' None ''s1'' ''q1'' 1000000 1000000 settle_world
       = (Inr (Settled ok), w')"
    using sample_settles by (auto simp: settled_result_iff)
  have f: "fa_settle sample_facilitator = sample_settle" "fa_receipts sample_facilitator = table_of receipt_clash"
    by (simp_all add: sample_facilitator_def)
  have none: "\<forall>s\<in>set (settlements settle_world). ps_requestId s \<noteq> ''r1''"
    by (simp add: settle_world_def empty_world_def)
  have n: "length (concat (replicate n [x, y])) = 2 * n" for n and x y :: client_event by (induction n) simp_all
  show ?thesis
    using poll_after_settlement [of sample_facilitator, unfolded f, OF sample_settle_service table_of_prisma table_find_answers run none
        refl refl, of sample_client None None "[]"] run by (auto simp: n)
qed

end
