(* ===== verification/PubSub.thy ===== *)
theory PubSub
  imports WebhookSecret Settle
begin

text \<open>
  The bridge from Redis to the event streams: \<open>settlement-pubsub.ts\<close>, a map from request ids to
  sets of callbacks with one Redis subscription per id, and the stream handler of
  \<open>routes/sse.route.ts\<close>. Commands of the subscriber connection take effect in the order they are
  sent. A client is a number; a call of \<open>subscribeToSettlement\<close> is two steps, before and after the
  \<open>await\<close>, between which other clients may run.
\<close>

section \<open>The hub\<close>

text \<open>
  Where a call of \<open>subscribeToSettlement\<close> stands: suspended in \<open>await sub.subscribe\<close>, with the answer that
  Redis is going to give, resolved with the function to unsubscribe, or rejected.
\<close>

datatype call_phase = Idle | Awaiting bool | Joined | Thrown

record hub =
  hb_listeners :: "string \<Rightarrow> nat set option"
  hb_channels :: "string set"
  hb_phase :: "nat \<times> string \<Rightarrow> call_phase"

definition hub_init :: hub where
  "hub_init = \<lparr>hb_listeners = Map.empty, hb_channels = {}, hb_phase = (\<lambda>_. Idle)\<rparr>"

definition set_phase :: "nat \<Rightarrow> string \<Rightarrow> call_phase \<Rightarrow> hub \<Rightarrow> hub" where
  "set_phase c rid p h = h\<lparr>hb_phase := (hb_phase h)((c, rid) := p)\<rparr>"

text \<open>\<open>listeners.get(requestId)!.add(callback)\<close>, which throws when the entry is gone.\<close>

definition add_callback :: "nat \<Rightarrow> string \<Rightarrow> hub \<Rightarrow> hub" where
  "add_callback c rid h =
     (case hb_listeners h rid of
        None \<Rightarrow> set_phase c rid Thrown h
      | Some cs \<Rightarrow> set_phase c rid Joined (h\<lparr>hb_listeners := (hb_listeners h)(rid \<mapsto> insert c cs)\<rparr>))"

text \<open>
  Up to the \<open>await\<close>, when there is one. The connection is subscribed to the channel when Redis accepts the
  command; the entry of the map is made either way.
\<close>

definition subscribe_begin :: "nat \<Rightarrow> string \<Rightarrow> bool \<Rightarrow> hub \<Rightarrow> hub" where
  "subscribe_begin c rid accepted h =
     (if hb_listeners h rid = None then
        set_phase c rid (Awaiting accepted)
          (h\<lparr>hb_listeners := (hb_listeners h)(rid \<mapsto> {}),
             hb_channels := (if accepted then insert rid (hb_channels h) else hb_channels h)\<rparr>)
      else add_callback c rid h)"

text \<open>After the \<open>await\<close>; when the command was refused the call throws, and the entry stays.\<close>

definition subscribe_end :: "nat \<Rightarrow> string \<Rightarrow> hub \<Rightarrow> hub" where
  "subscribe_end c rid h = add_callback c rid h"

definition subscribe_refused :: "nat \<Rightarrow> string \<Rightarrow> hub \<Rightarrow> hub" where
  "subscribe_refused c rid h = set_phase c rid Thrown h"

definition unsubscribe :: "nat \<Rightarrow> string \<Rightarrow> hub \<Rightarrow> hub" where
  "unsubscribe c rid h =
     (case hb_listeners h rid of
        None \<Rightarrow> h
      | Some cs \<Rightarrow>
          let h1 = set_phase c rid Idle h in
          if cs - {c} = {} then
            h1\<lparr>hb_listeners := (hb_listeners h)(rid := None), hb_channels := hb_channels h - {rid}\<rparr>
          else h1\<lparr>hb_listeners := (hb_listeners h)(rid \<mapsto> cs - {c})\<rparr>)"

text \<open>\<open>String(data.status ?? 'settlement.update')\<close>\<close>

definition event_of :: "json option \<Rightarrow> string" where
  "event_of v = (case v of None \<Rightarrow> ''settlement.update'' | Some JNull \<Rightarrow> ''settlement.update'' | Some j \<Rightarrow> js_String j)"

text \<open>
  The \<open>message\<close> handler: the clients called, with the event and the data; \<open>None\<close> when it throws
  (the message is \<open>null\<close>). A channel the connection is not subscribed to delivers nothing.
\<close>

definition on_message :: "string \<Rightarrow> string \<Rightarrow> hub \<Rightarrow> (nat \<times> string \<times> json) set option" where
  "on_message rid message h =
     (if rid \<notin> hb_channels h then Some {}
      else case hb_listeners h rid of
        None \<Rightarrow> Some {}
      | Some cs \<Rightarrow>
          (case json_parse message of
             None \<Rightarrow> Some {}
           | Some data \<Rightarrow>
               (case js_get data ''status'' of
                  Inl e \<Rightarrow> None
                | Inr v \<Rightarrow> Some ((\<lambda>c. (c, event_of v, data)) ` cs))))"

record settlement_update =
  up_status :: string
  up_txHash :: "string option"
  up_receiptId :: "string option"
  up_errorReason :: "string option"

definition update_json :: "settlement_update \<Rightarrow> string \<Rightarrow> json" where
  "update_json u timestamp = JObj
     ([(''status'', JStr (up_status u))] @ opt_str ''txHash'' (up_txHash u) @ opt_str ''receiptId'' (up_receiptId u) @
      opt_str ''errorReason'' (up_errorReason u) @ [(''timestamp'', JStr timestamp)])"

definition publishSettlementUpdate :: "settlement_update \<Rightarrow> string \<Rightarrow> string" where
  "publishSettlementUpdate u timestamp = js_stringify (update_json u timestamp)"

section \<open>The abstract service\<close>

datatype hub_op = Begin nat string bool | End nat string | Refused nat string | Leave nat string

fun hub_step :: "hub_op \<Rightarrow> hub \<Rightarrow> hub" where
  "hub_step (Begin c rid accepted) h = subscribe_begin c rid accepted h"
| "hub_step (End c rid) h = subscribe_end c rid h"
| "hub_step (Refused c rid) h = subscribe_refused c rid h"
| "hub_step (Leave c rid) h = unsubscribe c rid h"

text \<open>A call is resumed once, and only a client that joined can leave; nobody joins twice.\<close>

fun hub_guard :: "hub_op \<Rightarrow> hub \<Rightarrow> bool" where
  "hub_guard (Begin c rid accepted) h = (hb_phase h (c, rid) = Idle \<or> hb_phase h (c, rid) = Thrown)"
| "hub_guard (End c rid) h = (hb_phase h (c, rid) = Awaiting True)"
| "hub_guard (Refused c rid) h = (hb_phase h (c, rid) = Awaiting False)"
| "hub_guard (Leave c rid) h = (hb_phase h (c, rid) = Joined)"

inductive hub_run :: "hub_op list \<Rightarrow> hub \<Rightarrow> bool" where
  hub_run_init: "hub_run [] hub_init"
| hub_run_step: "hub_run ops h \<Longrightarrow> hub_guard op h \<Longrightarrow> hub_run (ops @ [op]) (hub_step op h)"

text \<open>
  What the bridge promises is a set of subscriptions and, for each call, where it stands. Every step moves exactly
  one call to another phase: it joins, or waits or throws while nobody is subscribed to the request,
  or leaves. \<open>subscribed\<close> is what the map of the code holds.
\<close>

definition subscribed :: "hub \<Rightarrow> (nat \<times> string) set" where
  "subscribed h = {(c, rid). \<exists>cs. hb_listeners h rid = Some cs \<and> c \<in> cs}"

type_synonym hub_spec = "(nat \<times> string) set \<times> (nat \<times> string \<Rightarrow> call_phase)"

definition joins :: "nat \<Rightarrow> string \<Rightarrow> hub_spec \<Rightarrow> hub_spec \<Rightarrow> bool" where
  "joins c rid a b \<longleftrightarrow> (c, rid) \<notin> fst a \<and> b = (insert (c, rid) (fst a), (snd a)((c, rid) := Joined))"

definition stays_out :: "nat \<Rightarrow> string \<Rightarrow> call_phase \<Rightarrow> hub_spec \<Rightarrow> hub_spec \<Rightarrow> bool" where
  "stays_out c rid p a b \<longleftrightarrow> (\<forall>d. (d, rid) \<notin> fst a) \<and> snd a (c, rid) \<noteq> p \<and> b = (fst a, (snd a)((c, rid) := p))"

fun abs_step :: "hub_op \<Rightarrow> hub_spec \<Rightarrow> hub_spec \<Rightarrow> bool" where
  "abs_step (Begin c rid accepted) a b = (joins c rid a b \<or> stays_out c rid (Awaiting accepted) a b)"
| "abs_step (End c rid) a b = (joins c rid a b \<or> stays_out c rid Thrown a b)"
| "abs_step (Refused c rid) a b = ((c, rid) \<notin> fst a \<and> snd a (c, rid) \<noteq> Thrown \<and> b = (fst a, (snd a)((c, rid) := Thrown)))"
| "abs_step (Leave c rid) a b = ((c, rid) \<in> fst a \<and> b = (fst a - {(c, rid)}, (snd a)((c, rid) := Idle)))"

definition hub_abs :: "hub \<Rightarrow> hub_spec" where
  "hub_abs h = (subscribed h, hb_phase h)"

text \<open>
  The map holds the calls that joined, and a channel is kept only for an entry; an entry has its channel
  while the command of no call for the request was refused.
\<close>

definition refused_in :: "hub_op list \<Rightarrow> string \<Rightarrow> bool" where
  "refused_in ops rid \<longleftrightarrow> (\<exists>c. Begin c rid False \<in> set ops)"

definition hub_inv :: "hub_op list \<Rightarrow> hub \<Rightarrow> bool" where
  "hub_inv ops h \<longleftrightarrow> subscribed h = {x. hb_phase h x = Joined} \<and>
     (\<forall>rid \<in> hb_channels h. hb_listeners h rid \<noteq> None) \<and>
     (\<forall>rid. hb_listeners h rid \<noteq> None \<longrightarrow> \<not> refused_in ops rid \<longrightarrow> rid \<in> hb_channels h)"

lemma set_phase_simps [simp]:
  "hb_listeners (set_phase c rid p h) = hb_listeners h" "hb_channels (set_phase c rid p h) = hb_channels h"
  "hb_phase (set_phase c rid p h) = (hb_phase h)((c, rid) := p)" "subscribed (set_phase c rid p h) = subscribed h"
  by (simp_all add: set_phase_def subscribed_def)

lemma subscribed_none: "hb_listeners h rid = None \<Longrightarrow> (c, rid) \<notin> subscribed h"
  by (simp add: subscribed_def)

lemma subscribed_upd:
  "subscribed (h\<lparr>hb_listeners := (hb_listeners h)(rid \<mapsto> cs)\<rparr>) = {(c, r). if r = rid then c \<in> cs else (c, r) \<in> subscribed h}"
  "subscribed (h\<lparr>hb_listeners := (hb_listeners h)(rid := None), hb_channels := ch\<rparr>) = {(c, r). r \<noteq> rid \<and> (c, r) \<in> subscribed h}"
  "subscribed (h\<lparr>hb_listeners := (hb_listeners h)(rid \<mapsto> cs), hb_channels := ch\<rparr>) = {(c, r). if r = rid then c \<in> cs else (c, r) \<in> subscribed h}"
  by (auto simp: subscribed_def split: if_splits)

lemma refused_in_snoc: "refused_in (ops @ [op]) rid \<longleftrightarrow> refused_in ops rid \<or> (\<exists>c. op = Begin c rid False)"
  by (auto simp: refused_in_def)

lemma add_callback_step:
  assumes "hub_inv ops h" "hb_phase h (c, rid) \<noteq> Joined" "hb_phase h (c, rid) \<noteq> Thrown \<or> hb_listeners h rid \<noteq> None"
  shows "hub_inv ops (add_callback c rid h) \<and>
    (joins c rid (hub_abs h) (hub_abs (add_callback c rid h)) \<or>
     hb_listeners h rid = None \<and> stays_out c rid Thrown (hub_abs h) (hub_abs (add_callback c rid h)))"
proof (cases "hb_listeners h rid")
  case None
  then show ?thesis
    using assms subscribed_none [OF None]
    by (auto simp: add_callback_def hub_inv_def hub_abs_def stays_out_def)
next
  case (Some cs)
  have "subscribed (add_callback c rid h) = insert (c, rid) (subscribed h)"
    using Some by (auto simp: add_callback_def subscribed_upd) (auto simp: subscribed_def)
  then show ?thesis
    using assms Some by (auto simp: add_callback_def hub_inv_def hub_abs_def joins_def)
qed

lemma begin_first_step:
  assumes "hub_inv ops h" "hb_listeners h rid = None" "hb_phase h (c, rid) = Idle \<or> hb_phase h (c, rid) = Thrown"
  shows "hub_inv (ops @ [Begin c rid ok]) (subscribe_begin c rid ok h) \<and>
    stays_out c rid (Awaiting ok) (hub_abs h) (hub_abs (subscribe_begin c rid ok h))"
proof -
  have "subscribed (subscribe_begin c rid ok h) = subscribed h"
    using assms(2) by (auto simp: subscribe_begin_def subscribed_upd subscribed_def split: if_splits)
  then show ?thesis
    using assms subscribed_none [OF assms(2)]
    by (auto simp: subscribe_begin_def hub_inv_def hub_abs_def stays_out_def refused_in_snoc)
qed

lemma leave_step:
  assumes "hub_inv ops h" "hb_phase h (c, rid) = Joined"
  shows "hub_inv (ops @ [Leave c rid]) (unsubscribe c rid h) \<and> abs_step (Leave c rid) (hub_abs h) (hub_abs (unsubscribe c rid h))"
proof -
  have mem: "(c, rid) \<in> subscribed h" using assms by (simp add: hub_inv_def)
  then obtain cs where cs: "hb_listeners h rid = Some cs" "c \<in> cs" by (auto simp: subscribed_def)
  have "subscribed (unsubscribe c rid h) = subscribed h - {(c, rid)}"
    using cs by (auto simp: unsubscribe_def Let_def subscribed_def set_phase_def split: if_splits)
  then show ?thesis
    using assms mem cs by (auto simp: unsubscribe_def Let_def hub_inv_def hub_abs_def refused_in_snoc split: if_splits)
qed

lemma hub_inv_more: "hub_inv ops h \<Longrightarrow> hub_inv (ops @ [op]) h"
  by (auto simp: hub_inv_def refused_in_snoc)

lemma hub_step_inv:
  assumes "hub_inv ops h" "hub_guard op h"
  shows "hub_inv (ops @ [op]) (hub_step op h) \<and> abs_step op (hub_abs h) (hub_abs (hub_step op h))"
proof (cases op)
  case (Begin c rid ok)
  then show ?thesis
  proof (cases "hb_listeners h rid = None")
    case True
    then show ?thesis using Begin begin_first_step [OF assms(1) True, of c ok] assms(2) by simp
  next
    case False
    then have "subscribe_begin c rid ok h = add_callback c rid h" by (auto simp: subscribe_begin_def)
    then show ?thesis
      using Begin False assms(2) add_callback_step [OF assms(1), of c rid] hub_inv_more by auto
  qed
next
  case (End c rid)
  then show ?thesis
    using assms(2) add_callback_step [OF assms(1), of c rid] hub_inv_more by (auto simp: subscribe_end_def)
next
  case (Refused c rid)
  then show ?thesis
    using assms by (auto simp: subscribe_refused_def hub_inv_def hub_abs_def refused_in_snoc)
next
  case (Leave c rid)
  then show ?thesis using assms(2) leave_step [OF assms(1), of c rid] by simp
qed

lemma hub_run_inv: "hub_run ops h \<Longrightarrow> hub_inv ops h"
proof (induction rule: hub_run.induct)
  case hub_run_init
  then show ?case by (simp add: hub_inv_def hub_init_def subscribed_def)
next
  case (hub_run_step ops h op)
  then show ?case using hub_step_inv by blast
qed

section \<open>Properties of the hub\<close>

text \<open>C15. The bridge implements a set of subscriptions: in any interleaving of the calls, refused commands
  included, each step of the map and the Redis connection is a step of the specification, which moves exactly one
  call (it joins, leaves, or waits or throws without joining), the calls in the map are those that joined, and the
  connection is subscribed to the channel of every request that has a client, unless Redis refused a command for it.
\<close>

theorem hub_refines:
  assumes "hub_run ops h" "hub_guard op h"
  shows "abs_step op (hub_abs h) (hub_abs (hub_step op h)) \<and> hub_abs (hub_step op h) \<noteq> hub_abs h \<and>
    subscribed (hub_step op h) = {x. hb_phase (hub_step op h) x = Joined} \<and>
    (\<forall>c rid. (c, rid) \<in> subscribed (hub_step op h) \<longrightarrow> \<not> refused_in (ops @ [op]) rid \<longrightarrow> rid \<in> hb_channels (hub_step op h))"
proof -
  note step = hub_step_inv [OF hub_run_inv [OF assms(1)] assms(2)]
  have "hub_abs (hub_step op h) \<noteq> hub_abs h"
    using conjunct2 [OF step] by (cases op) (auto simp: joins_def stays_out_def prod_eq_iff fun_eq_iff)
  moreover have "hb_listeners (hub_step op h) rid \<noteq> None" if "(c, rid) \<in> subscribed (hub_step op h)" for c rid
    using that subscribed_none by blast
  ultimately show ?thesis using step unfolding hub_inv_def by blast
qed

lemma one_client: "hub_run [Begin 1 ''r'' True] (subscribe_begin 1 ''r'' True hub_init)"
  using hub_run_step [OF hub_run_init, of "Begin 1 ''r'' True"] by (simp add: hub_init_def)

lemmas hub_run_defs = hub_init_def subscribe_begin_def subscribe_end_def subscribe_refused_def add_callback_def unsubscribe_def
  set_phase_def

lemma two_clients:
  "hub_run [Begin 1 ''r'' True, Begin 2 ''r'' True] (subscribe_begin 2 ''r'' True (subscribe_begin 1 ''r'' True hub_init))"
  using hub_run_step [OF one_client, of "Begin 2 ''r'' True"] by (simp add: hub_run_defs)

lemma hub_refines_witness:
  "abs_step (End 1 ''r'') (hub_abs (subscribe_begin 2 ''r'' True (subscribe_begin 1 ''r'' True hub_init)))
     (hub_abs (hub_step (End 1 ''r'') (subscribe_begin 2 ''r'' True (subscribe_begin 1 ''r'' True hub_init))))"
  using hub_refines [OF two_clients, of "End 1 ''r''"] by (simp add: hub_run_defs)

text \<open>C16. What is published arrives: in any state that the calls can lead to, unless Redis refused a command for the
  request, the message of \<open>publishSettlementUpdate\<close> is handed to exactly the clients subscribed to the request, with
  its status as the event and data that have each field of the update, the time, and nothing else.
\<close>

theorem publish_delivers:
  assumes "hub_run ops h" "\<not> refused_in ops rid"
  shows "\<exists>data. on_message rid (publishSettlementUpdate u timestamp) h =
      Some ((\<lambda>c. (c, up_status u, data)) ` {c. hb_phase h (c, rid) = Joined}) \<and>
    json_get data = Map.empty(''status'' \<mapsto> JStr (up_status u), ''timestamp'' \<mapsto> JStr timestamp,
      ''txHash'' := map_option JStr (up_txHash u), ''receiptId'' := map_option JStr (up_receiptId u),
      ''errorReason'' := map_option JStr (up_errorReason u))"
proof (intro exI conjI)
  have inv: "hub_inv ops h" using hub_run_inv [OF assms(1)] .
  have "wf_json (update_json u timestamp)"
    by (auto simp: update_json_def opt_str_def split: option.splits)
  then have parsed: "json_parse (publishSettlementUpdate u timestamp) = Some (update_json u timestamp)"
    by (simp add: publishSettlementUpdate_def json_roundtrip)
  have status: "js_get (update_json u timestamp) ''status'' = Inr (Some (JStr (up_status u)))"
    by (simp add: js_get_def update_json_def)
  have joined: "{c. hb_phase h (c, rid) = Joined} = {c. (c, rid) \<in> subscribed h}" using inv by (simp add: hub_inv_def)
  show "on_message rid (publishSettlementUpdate u timestamp) h =
      Some ((\<lambda>c. (c, up_status u, update_json u timestamp)) ` {c. hb_phase h (c, rid) = Joined})"
  proof (cases "hb_listeners h rid")
    case None
    then show ?thesis using joined by (simp add: on_message_def subscribed_def)
  next
    case (Some cs)
    then have "rid \<in> hb_channels h" using inv assms(2) unfolding hub_inv_def by blast
    then show ?thesis using Some joined by (simp add: on_message_def parsed status event_of_def subscribed_def)
  qed
  show "json_get (update_json u timestamp) = Map.empty(''status'' \<mapsto> JStr (up_status u), ''timestamp'' \<mapsto> JStr timestamp,
      ''txHash'' := map_option JStr (up_txHash u), ''receiptId'' := map_option JStr (up_receiptId u),
      ''errorReason'' := map_option JStr (up_errorReason u))"
    by (auto simp: update_json_def opt_str_def fun_eq_iff split: option.split)
qed

lemma publish_delivers_witness:
  "on_message ''r'' (publishSettlementUpdate \<lparr>up_status = ''settlement.confirmed'', up_txHash = None, up_receiptId = None,
       up_errorReason = None\<rparr> ''t'') (subscribe_begin 2 ''r'' True (subscribe_begin 1 ''r'' True hub_init)) \<noteq> Some {}"
proof -
  have ok: "\<not> refused_in [Begin 1 ''r'' True, Begin 2 ''r'' True] ''r''" by (simp add: refused_in_def)
  let ?h = "subscribe_begin 2 ''r'' True (subscribe_begin 1 ''r'' True hub_init)"
  let ?u = "\<lparr>up_status = ''settlement.confirmed'', up_txHash = None, up_receiptId = None, up_errorReason = None\<rparr>"
  have joined: "2 \<in> {c. hb_phase ?h (c, ''r'') = Joined}" by (simp add: hub_run_defs)
  obtain data where "on_message ''r'' (publishSettlementUpdate ?u ''t'') ?h =
      Some ((\<lambda>c. (c, up_status ?u, data)) ` {c. hb_phase ?h (c, ''r'') = Joined})"
    using publish_delivers [OF two_clients ok, of ?u "''t''"] by blast
  then show ?thesis using joined by (metis empty_iff image_is_empty option.inject)
qed

text \<open>
  A second client that joins and leaves while the first waits for Redis removes the entry the first
  needs: its call throws.
\<close>

theorem hub_race:
  "\<exists>ops h. hub_run ops h \<and> (\<forall>rid. \<not> refused_in ops rid) \<and> hb_phase h (1, ''r'') = Thrown"
proof -
  let ?h2 = "subscribe_begin 2 ''r'' True (subscribe_begin 1 ''r'' True hub_init)"
  have 3: "hub_run ([Begin 1 ''r'' True, Begin 2 ''r'' True] @ [Leave 2 ''r'']) (unsubscribe 2 ''r'' ?h2)"
    using hub_run_step [OF two_clients, of "Leave 2 ''r''"] by (simp add: hub_run_defs)
  have "hub_run ([Begin 1 ''r'' True, Begin 2 ''r'' True, Leave 2 ''r''] @ [End 1 ''r'']) (subscribe_end 1 ''r'' (unsubscribe 2 ''r'' ?h2))"
    using hub_run_step [OF 3, of "End 1 ''r''"] by (simp add: hub_run_defs)
  moreover have "hb_phase (subscribe_end 1 ''r'' (unsubscribe 2 ''r'' ?h2)) (1, ''r'') = Thrown"
    by (simp add: hub_run_defs)
  ultimately show ?thesis by (fastforce simp: refused_in_def)
qed

text \<open>
  After a refused \<open>subscribe\<close> command the entry stays, so the next client joins without a
  subscription and hears nothing.
\<close>

theorem hub_deaf:
  "\<exists>ops h. hub_run ops h \<and> hb_phase h (2, ''r'') = Joined \<and> (\<forall>m. on_message ''r'' m h = Some {})"
proof -
  let ?h1 = "subscribe_begin 1 ''r'' False hub_init"
  have 1: "hub_run [Begin 1 ''r'' False] ?h1"
    using hub_run_step [OF hub_run_init, of "Begin 1 ''r'' False"] by (simp add: hub_init_def)
  have 2: "hub_run ([Begin 1 ''r'' False] @ [Refused 1 ''r'']) (subscribe_refused 1 ''r'' ?h1)"
    using hub_run_step [OF 1, of "Refused 1 ''r''"] by (simp add: hub_run_defs)
  have "hub_run ([Begin 1 ''r'' False, Refused 1 ''r''] @ [Begin 2 ''r'' True]) (subscribe_begin 2 ''r'' True (subscribe_refused 1 ''r'' ?h1))"
    using hub_run_step [OF 2, of "Begin 2 ''r'' True"] by (simp add: hub_run_defs)
  moreover have "hb_phase (subscribe_begin 2 ''r'' True (subscribe_refused 1 ''r'' ?h1)) (2, ''r'') = Joined"
    "\<forall>m. on_message ''r'' m (subscribe_begin 2 ''r'' True (subscribe_refused 1 ''r'' ?h1)) = Some {}"
    by (simp_all add: hub_run_defs on_message_def)
  ultimately show ?thesis by blast
qed

section \<open>The event stream\<close>

text \<open>
  One connection: what was written, whether it was ended, which timers run, and whether the end is
  scheduled (\<open>setTimeout(close, 100)\<close>).
\<close>

record stream =
  sm_written :: "string list"
  sm_ended :: bool
  sm_heartbeat :: bool
  sm_timeout :: bool
  sm_closing :: bool

definition stream_open :: stream where
  "stream_open = \<lparr>sm_written = [], sm_ended = False, sm_heartbeat = False, sm_timeout = False, sm_closing = False\<rparr>"

definition newline :: string where
  "newline = [CHR 0x0A]"

definition sse_frame :: "string \<Rightarrow> json \<Rightarrow> string" where
  "sse_frame event data = ''event: '' @ event @ newline @ ''data: '' @ js_stringify data @ newline @ newline"

definition sse_send :: "string \<Rightarrow> json \<Rightarrow> stream \<Rightarrow> stream" where
  "sse_send event data s = (if sm_ended s then s else s\<lparr>sm_written := sm_written s @ [sse_frame event data]\<rparr>)"

definition sse_close :: "stream \<Rightarrow> stream" where
  "sse_close s = (if sm_ended s then s else s\<lparr>sm_ended := True\<rparr>)"

text \<open>The name of a status in the database, and \<open>statusMap\<close>, which has no \<open>processing\<close>.\<close>

fun db_status :: "settlement_status \<Rightarrow> string" where
  "db_status SPending = ''pending''"
| "db_status SProcessing = ''processing''"
| "db_status SConfirmed = ''confirmed''"
| "db_status SFailed = ''failed''"

fun statusMap :: "settlement_status \<Rightarrow> string option" where
  "statusMap SConfirmed = Some ''settlement.confirmed''"
| "statusMap SFailed = Some ''settlement.failed''"
| "statusMap SPending = Some ''settlement.pending''"
| "statusMap SProcessing = None"

definition db_event :: "string \<Rightarrow> payment_settlement \<Rightarrow> string option \<Rightarrow> json" where
  "db_event rid st confirmed = JObj
     ([(''requestId'', JStr rid), (''status'', JStr (db_status (ps_status st))), (''txHash'', null_or_str (ps_txHash st))] @
      opt_str ''confirmedAt'' confirmed @ [(''source'', JStr ''db'')])"

text \<open>
  The handler up to the subscription: the stream, and whether it goes on to subscribe. The row is what
  the query by \<open>requestId\<close> found, and \<open>confirmed\<close> its \<open>confirmedAt?.toISOString()\<close>. An event that is
  \<open>undefined\<close> is written as such.
\<close>

definition stream_start :: "string \<Rightarrow> payment_settlement option \<Rightarrow> string option \<Rightarrow> stream \<times> bool" where
  "stream_start rid found confirmed =
     (case found of
        None \<Rightarrow> (stream_open\<lparr>sm_heartbeat := True, sm_timeout := True\<rparr>, True)
      | Some st \<Rightarrow>
          let event = (case statusMap (ps_status st) of Some e \<Rightarrow> e | None \<Rightarrow> ''undefined'');
              s = sse_send event (db_event rid st confirmed) stream_open
          in if ps_status st \<noteq> SPending then (sse_close s, False)
             else (s\<lparr>sm_heartbeat := True, sm_timeout := True\<rparr>, True))"

definition TERMINAL_EVENTS :: "string set" where
  "TERMINAL_EVENTS = {''settlement.confirmed'', ''settlement.failed''}"

text \<open>\<open>{ ...data, requestId: id, source: 'realtime' }\<close>\<close>

definition realtime :: "string \<Rightarrow> json \<Rightarrow> json" where
  "realtime rid data = JObj (AList.update ''source'' (JStr ''realtime'') (AList.update ''requestId'' (JStr rid)
     (case data of JObj kvs \<Rightarrow> kvs | _ \<Rightarrow> [])))"

definition stream_event :: "string \<Rightarrow> string \<Rightarrow> json \<Rightarrow> stream \<Rightarrow> stream" where
  "stream_event rid event data s =
     (let s1 = sse_send event (realtime rid data) s in
      if event \<in> TERMINAL_EVENTS then s1\<lparr>sm_heartbeat := False, sm_timeout := False, sm_closing := True\<rparr> else s1)"

definition stream_heartbeat :: "stream \<Rightarrow> stream" where
  "stream_heartbeat s =
     (if sm_ended s then s\<lparr>sm_heartbeat := False\<rparr> else s\<lparr>sm_written := sm_written s @ ['': heartbeat'' @ newline @ newline]\<rparr>)"

definition stream_timeout :: "stream \<Rightarrow> stream" where
  "stream_timeout s = sse_close (sse_send ''timeout''
     (JObj [(''message'', JStr ''Stream timeout. Poll GET /receipts/:id for final status.'')])
     (s\<lparr>sm_heartbeat := False, sm_timeout := False\<rparr>))"

definition stream_closed :: "stream \<Rightarrow> stream" where
  "stream_closed s = s\<lparr>sm_heartbeat := False, sm_timeout := False\<rparr>"

text \<open>What can happen to a stream that went on: events, ticks of a running timer, the scheduled end.\<close>

inductive stream_run :: "string \<Rightarrow> stream \<Rightarrow> bool" for rid where
  run_start: "stream_start rid found confirmed = (s, True) \<Longrightarrow> stream_run rid s"
| run_event: "stream_run rid s \<Longrightarrow> stream_run rid (stream_event rid e data s)"
| run_heartbeat: "stream_run rid s \<Longrightarrow> sm_heartbeat s \<Longrightarrow> stream_run rid (stream_heartbeat s)"
| run_timeout: "stream_run rid s \<Longrightarrow> sm_timeout s \<Longrightarrow> stream_run rid (stream_timeout s)"
| run_close: "stream_run rid s \<Longrightarrow> sm_closing s \<Longrightarrow> stream_run rid (sse_close s)"
| run_gone: "stream_run rid s \<Longrightarrow> stream_run rid (stream_closed s)"

text \<open>
  Every stream is on its way to its end: while it is open, and its client there, either its timeout
  is running or the end is scheduled; and nothing is written after the end.
\<close>

lemma stream_open_live:
  "stream_run rid s \<Longrightarrow> sm_heartbeat s \<Longrightarrow> sm_timeout s"
  by (induction rule: stream_run.induct)
    (auto simp: stream_start_def stream_open_def stream_event_def stream_heartbeat_def stream_timeout_def stream_closed_def
      sse_send_def sse_close_def Let_def split: option.splits if_splits)

theorem stream_after_end:
  assumes "sm_ended s"
  shows "sm_written (stream_event rid e data s) = sm_written s \<and> sm_written (stream_heartbeat s) = sm_written s \<and>
    sm_written (stream_timeout s) = sm_written s \<and> sm_ended (stream_event rid e data s)"
  using assms by (simp add: stream_event_def stream_heartbeat_def stream_timeout_def sse_send_def sse_close_def Let_def)

text \<open>The stream of a request whose settlement is being processed, the status every settlement of
  \<open>runSettle\<close> has until it is decided, is closed at once with an event called \<open>undefined\<close>: its client
  is never subscribed and hears nothing of the outcome. A pending settlement, or none, goes on to
  subscribe.
\<close>

theorem stream_processing_closed:
  "stream_start rid (Some (new_settlement sid rid ref now)) None =
    (\<lparr>sm_written = [sse_frame ''undefined'' (db_event rid (new_settlement sid rid ref now) None)], sm_ended = True,
      sm_heartbeat = False, sm_timeout = False, sm_closing = False\<rparr>, False) \<and>
   snd (stream_start rid None None) \<and>
   snd (stream_start rid (Some ((new_settlement sid rid ref now)\<lparr>ps_status := SPending\<rparr>)) None)"
  by (simp add: stream_start_def sse_send_def sse_close_def stream_open_def Let_def)

end
