(* ===== verification/KeyProvider.thy ===== *)
theory KeyProvider
  imports Retrying
begin

text \<open>
  \<open>key-provider.ts\<close>: the facilitator's private key from the environment, AWS KMS or Vault, cached
  after the first call. \<open>process.env\<close> is the argument \<open>env\<close>; the KMS client, an optional package, and
  \<open>fetch\<close> are parameters, and every request sent is in the log of the state.
\<close>

section \<open>State and parameters\<close>

text \<open>\<open>kp_kms\<close> is \<open>None\<close> when the package cannot be imported; \<open>Decrypt\<close> may fail or give no plaintext.\<close>

type_synonym kms_client = "string \<Rightarrow> string \<Rightarrow> nat list \<Rightarrow> exn + nat list option"

record key_env =
  kp_env :: "string \<Rightarrow> string option"
  kp_kms :: "kms_client option"

record 'x key_state =
  ks_cached :: "string option"
  ks_world :: "'x client_world"

definition kerror :: "string \<Rightarrow> exn + 'a" where
  "kerror m = Inl (plainError m)"

definition with_0x :: "string \<Rightarrow> string" where
  "with_0x s = (if startsWith s ''0x'' then s else ''0x'' @ s)"

definition checked_key :: "string \<Rightarrow> string \<Rightarrow> exn + string" where
  "checked_key message s = (let key = with_0x s in if hex0x 64 key then Inr key else kerror message)"

section \<open>The providers\<close>

definition resolveFromEnv :: "key_env \<Rightarrow> exn + string" where
  "resolveFromEnv K =
     (case kp_env K ''FACILITATOR_PRIVATE_KEY'' of
        Some (c # cs) \<Rightarrow> checked_key
          ''FACILITATOR_PRIVATE_KEY must be a 32-byte hex string (64 hex chars, optionally prefixed with 0x)'' (c # cs)
      | _ \<Rightarrow> kerror ''FACILITATOR_PRIVATE_KEY is not set. Required when PRIVATE_KEY_PROVIDER=env.'')"

definition resolveFromAwsKms :: "key_env \<Rightarrow> exn + string" where
  "resolveFromAwsKms K =
     (case kp_kms K of
        None \<Rightarrow> kerror (''PRIVATE_KEY_PROVIDER=awskms requires @aws-sdk/client-kms. '' @
                      ''Install with: npm install @aws-sdk/client-kms'')
      | Some kms \<Rightarrow>
          (case (kp_env K ''AWS_REGION'', kp_env K ''KMS_KEY_ID'', kp_env K ''FACILITATOR_PRIVATE_KEY_CIPHERTEXT'') of
             (Some (r # rs), Some (k # ks), Some (c # cs)) \<Rightarrow>
               (case kms (r # rs) (k # ks) (b64_decode (c # cs)) of
                  Inl e \<Rightarrow> Inl e
                | Inr None \<Rightarrow> kerror ''AWS KMS DecryptCommand returned no plaintext''
                | Inr (Some bytes) \<Rightarrow>
                    checked_key ''KMS decrypted value is not a valid 32-byte private key'' (js_trim (bytes_str bytes)))
           | _ \<Rightarrow> kerror ''PRIVATE_KEY_PROVIDER=awskms requires: AWS_REGION, KMS_KEY_ID, FACILITATOR_PRIVATE_KEY_CIPHERTEXT''))"

definition send :: "'x network \<Rightarrow> api_request \<Rightarrow> ('x client_world, exn, http_answer) prog" where
  "send F rq = (\<lambda>w. exchange F rq w)"

text \<open>\<open>json.auth?.client_token\<close>: a \<open>TypeError\<close> on \<open>null\<close>, \<open>undefined\<close> below a missing member.\<close>

definition opt_chain :: "exn + json option \<Rightarrow> string \<Rightarrow> exn + json option" where
  "opt_chain v k =
     (case v of Inl e \<Rightarrow> Inl e | Inr None \<Rightarrow> Inr None | Inr (Some JNull) \<Rightarrow> Inr None | Inr (Some j) \<Rightarrow> js_get j k)"

text \<open>The values on which \<open>!v\<close> is true.\<close>

definition falsy :: "json option \<Rightarrow> bool" where
  "falsy v = (v \<in> {None, Some JNull, Some (JBool False), Some (JNum 0), Some (JStr [])})"

text \<open>A token that is not a string is written into the header as \<open>String\<close> does.\<close>

definition token_of :: "exn + json option \<Rightarrow> exn + string" where
  "token_of v =
     (case v of
        Inl e \<Rightarrow> Inl e
      | Inr x \<Rightarrow>
          if falsy x then kerror ''Vault AppRole login returned no client_token''
          else (case x of Some j \<Rightarrow> Inr (js_String j) | None \<Rightarrow> Inr []))"

text \<open>A secret that is not a string has no \<open>startsWith\<close>.\<close>

definition secret_of :: "exn + json option \<Rightarrow> string \<Rightarrow> exn + string" where
  "secret_of v message =
     (case v of
        Inl e \<Rightarrow> Inl e
      | Inr x \<Rightarrow>
          if falsy x then kerror message
          else (case x of Some (JStr s) \<Rightarrow> Inr s
                | _ \<Rightarrow> Inl (JsError ''TypeError'' ''plaintext.startsWith is not a function'')))"

definition login_request :: "string \<Rightarrow> string \<Rightarrow> string \<Rightarrow> api_request" where
  "login_request addr roleId secretId =
     \<lparr>ar_method = ''POST'', ar_url = addr @ ''/v1/auth/approle/login'', ar_headers = [(''Content-Type'', ''application/json'')],
      ar_body = Some (JObj [(''role_id'', JStr roleId), (''secret_id'', JStr secretId)])\<rparr>"

definition vaultAppRoleLogin :: "'x network \<Rightarrow> key_env \<Rightarrow> string \<Rightarrow> ('x client_world, exn, string) prog" where
  "vaultAppRoleLogin F K addr =
     (case (kp_env K ''VAULT_ROLE_ID'', kp_env K ''VAULT_SECRET_ID'') of
        (Some (r # rs), Some (s # ss)) \<Rightarrow>
          seq (send F (login_request addr (r # rs) (s # ss))) (\<lambda>response.
            if \<not> answer_ok response then
              throw (plainError (''Vault AppRole login failed: HTTP '' @ int_str (ha_status response)))
            else seq (of_sum (ha_json response)) (\<lambda>json.
              of_sum (token_of (opt_chain (js_get json ''auth'') ''client_token''))))
      | _ \<Rightarrow> throw (plainError ''PRIVATE_KEY_PROVIDER=vault without VAULT_TOKEN requires VAULT_ROLE_ID and VAULT_SECRET_ID''))"

definition env_default :: "key_env \<Rightarrow> string \<Rightarrow> string \<Rightarrow> string" where
  "env_default K k d = (case kp_env K k of Some v \<Rightarrow> v | None \<Rightarrow> d)"

definition secret_request :: "string \<Rightarrow> string \<Rightarrow> string \<Rightarrow> api_request" where
  "secret_request addr secretPath token =
     \<lparr>ar_method = ''GET'', ar_url = addr @ ''/v1/'' @ secretPath,
      ar_headers = [(''X-Vault-Token'', token), (''Content-Type'', ''application/json'')], ar_body = None\<rparr>"

definition resolveFromVault :: "'x network \<Rightarrow> key_env \<Rightarrow> ('x client_world, exn, string) prog" where
  "resolveFromVault F K =
     (let secretPath = env_default K ''VAULT_SECRET_PATH'' ''secret/data/facilitatorx402/private-key'';
          field = env_default K ''VAULT_SECRET_FIELD'' ''private_key''
      in case kp_env K ''VAULT_ADDR'' of
        Some (a # addr) \<Rightarrow>
          seq (case kp_env K ''VAULT_TOKEN'' of Some t \<Rightarrow> ret t | None \<Rightarrow> vaultAppRoleLogin F K (a # addr)) (\<lambda>vaultToken.
          seq (send F (secret_request (a # addr) secretPath vaultToken)) (\<lambda>response.
            if \<not> answer_ok response then
              throw (plainError (''Vault KV read failed: HTTP '' @ int_str (ha_status response) @ '' at '' @ secretPath))
            else seq (of_sum (ha_json response)) (\<lambda>json.
              seq (of_sum (secret_of (opt_chain (opt_chain (js_get json ''data'') ''data'') field)
                (''Vault secret at '' @ quoted secretPath @ '' does not contain field '' @ quoted field))) (\<lambda>plaintext.
              of_sum (checked_key ''Vault secret is not a valid 32-byte private key'' plaintext)))))
      | _ \<Rightarrow> throw (plainError ''PRIVATE_KEY_PROVIDER=vault requires VAULT_ADDR''))"

section \<open>The cache\<close>

definition on_net :: "('x client_world, exn, 'a) prog \<Rightarrow> ('x key_state, exn, 'a) prog" where
  "on_net = zoom ks_world (\<lambda>x s. s\<lparr>ks_world := x\<rparr>)"

definition store_key :: "string \<Rightarrow> ('x key_state, exn, string) prog" where
  "store_key key = (\<lambda>s. (Inr key, s\<lparr>ks_cached := Some key\<rparr>))"

definition resolve_key :: "'x network \<Rightarrow> key_env \<Rightarrow> ('x key_state, exn, string) prog" where
  "resolve_key F K =
     (let provider = env_default K ''PRIVATE_KEY_PROVIDER'' ''env'' in
      if provider = ''env'' then of_sum (resolveFromEnv K)
      else if provider = ''awskms'' then of_sum (resolveFromAwsKms K)
      else if provider = ''vault'' then on_net (resolveFromVault F K)
      else throw (plainError (''Unknown PRIVATE_KEY_PROVIDER: '' @ provider @ ''. Valid values: env, awskms, vault'')))"

text \<open>The empty string would not count as cached; a resolved key is never empty.\<close>

definition getPrivateKey :: "'x network \<Rightarrow> key_env \<Rightarrow> ('x key_state, exn, string) prog" where
  "getPrivateKey F K = (\<lambda>s.
     case ks_cached s of
       Some (c # cs) \<Rightarrow> (Inr (c # cs), s)
     | _ \<Rightarrow> seq (resolve_key F K) store_key s)"

definition invalidateKeyCache :: "'x key_state \<Rightarrow> 'x key_state" where
  "invalidateKeyCache s = s\<lparr>ks_cached := None\<rparr>"

section \<open>Lemmas\<close>

lemma checked_key_Inr: "checked_key m s = Inr k \<Longrightarrow> hex0x 64 k"
  by (auto simp: checked_key_def kerror_def Let_def split: if_splits)

lemma resolveFromEnv_Inr: "resolveFromEnv K = Inr k \<Longrightarrow> hex0x 64 k"
  by (auto simp: resolveFromEnv_def kerror_def dest: checked_key_Inr split: option.splits list.splits)

lemma resolveFromAwsKms_Inr: "resolveFromAwsKms K = Inr k \<Longrightarrow> hex0x 64 k"
  by (auto simp: resolveFromAwsKms_def kerror_def dest: checked_key_Inr split: option.splits list.splits sum.splits)

lemma resolveFromVault_Inr: "resolveFromVault F K w = (Inr k, w') \<Longrightarrow> hex0x 64 k"
  unfolding resolveFromVault_def Let_def by (auto simp: run_simps dest: checked_key_Inr)

lemma resolve_key_Inr: "resolve_key F K s = (Inr k, s') \<Longrightarrow> hex0x 64 k"
  unfolding resolve_key_def Let_def on_net_def
  by (auto simp: run_simps split: if_splits dest: resolveFromEnv_Inr resolveFromAwsKms_Inr resolveFromVault_Inr)

lemma resolve_key_cached: "resolve_key F K s = (r, s') \<Longrightarrow> ks_cached s' = ks_cached s"
  by (cases r) (auto simp: resolve_key_def on_net_def run_simps Let_def split: if_splits)

definition cache_ok :: "'x key_state \<Rightarrow> bool" where
  "cache_ok s \<longleftrightarrow> (\<forall>k. ks_cached s = Some k \<longrightarrow> hex0x 64 k)"

lemma getPrivateKey_cached: "ks_cached s = Some k \<Longrightarrow> hex0x 64 k \<Longrightarrow> getPrivateKey F K s = (Inr k, s)"
  by (cases k) (auto simp: getPrivateKey_def hex0x_def)

section \<open>The key\<close>

text \<open>C39. Whatever the provider, the environment and the answers of KMS and Vault, a key that is returned is
  \<open>0x\<close> and 64 hexadecimal digits; it is cached, so that later calls return it without a request and
  whatever became of the environment, until the cache is invalidated; and a call that fails leaves the
  cache as it was.
\<close>

theorem private_key_sound:
  assumes "cache_ok s" "getPrivateKey F K s = (r, s')"
  shows "cache_ok s' \<and>
    (\<forall>k. r = Inr k \<longrightarrow> hex0x 64 k \<and> ks_cached s' = Some k \<and> getPrivateKey F' K' s' = (Inr k, s') \<and>
       ks_cached (invalidateKeyCache s') = None) \<and>
    (\<forall>e. r = Inl e \<longrightarrow> ks_cached s' = ks_cached s)"
proof (cases "ks_cached s")
  case (Some k)
  then have k: "hex0x 64 k" using assms(1) by (simp add: cache_ok_def)
  then have "s' = s" "r = Inr k" using getPrivateKey_cached [OF Some k, of F K] assms(2) by auto
  then show ?thesis
    using getPrivateKey_cached [OF Some k] assms(1) Some k by (auto simp: invalidateKeyCache_def)
next
  case None
  then have run: "seq (resolve_key F K) store_key s = (r, s')"
    using assms(2) by (simp add: getPrivateKey_def)
  obtain q s1 where q: "resolve_key F K s = (q, s1)" by fastforce
  show ?thesis
  proof (cases q)
    case (Inl e)
    then have "s' = s1" "r = Inl e" using run q by (auto simp: seq_def)
    then show ?thesis using resolve_key_cached [OF q] None assms(1) by (auto simp: cache_ok_def)
  next
    case (Inr k)
    then have r: "r = Inr k" "s' = s1\<lparr>ks_cached := Some k\<rparr>" using run q by (auto simp: seq_def store_key_def)
    have k: "hex0x 64 k" using resolve_key_Inr q Inr by blast
    then have "getPrivateKey F' K' s' = (Inr k, s')" using r(2) by (intro getPrivateKey_cached) simp_all
    then show ?thesis using r k by (auto simp: cache_ok_def invalidateKeyCache_def)
  qed
qed

definition sample_private_key :: string where
  "sample_private_key = replicate 64 (CHR ''a'')"

definition vault_server :: "nat network" where
  "vault_server rq n = (Inr \<lparr>ha_status = 200, ha_json = Inr (if ar_method rq = ''POST''
      then JObj [(''auth'', JObj [(''client_token'', JStr ''t'')])]
      else JObj [(''data'', JObj [(''data'', JObj [(''private_key'', JStr sample_private_key)])])])\<rparr>, n)"

definition vault_env :: key_env where
  "vault_env = \<lparr>kp_env = [''PRIVATE_KEY_PROVIDER'' \<mapsto> ''vault'', ''VAULT_ADDR'' \<mapsto> ''https://v'', ''VAULT_ROLE_ID'' \<mapsto> ''r'',
      ''VAULT_SECRET_ID'' \<mapsto> ''s''], kp_kms = None\<rparr>"

lemma vault_run:
  "\<exists>s'. getPrivateKey vault_server vault_env \<lparr>ks_cached = None, ks_world = \<lparr>cw_net = 0, cw_log = []\<rparr>\<rparr> =
     (Inr (''0x'' @ sample_private_key), s') \<and> length (cw_log (ks_world s')) = 2"
proof -
  have k: "checked_key m sample_private_key = Inr (''0x'' @ sample_private_key)" for m
    by (simp add: checked_key_def with_0x_def sample_private_key_def startsWith_def hex0x_def is_hex_def numeral_eq_Suc)
  have n: "sample_private_key \<noteq> []" by (simp add: sample_private_key_def)
  show ?thesis
    by (simp add: getPrivateKey_def resolve_key_def env_default_def vault_env_def on_net_def zoom_def resolveFromVault_def
        vaultAppRoleLogin_def send_def exchange_def vault_server_def seq_def ret_def of_sum_def answer_ok_def js_get_def opt_chain_def
        token_of_def secret_of_def falsy_def login_request_def secret_request_def store_key_def Let_def k n)
qed

lemma private_key_sound_witness:
  "\<exists>s'. getPrivateKey vault_server vault_env \<lparr>ks_cached = None, ks_world = \<lparr>cw_net = 0, cw_log = []\<rparr>\<rparr> =
     (Inr (''0x'' @ sample_private_key), s') \<and> hex0x 64 (''0x'' @ sample_private_key) \<and>
     getPrivateKey vault_server \<lparr>kp_env = Map.empty, kp_kms = None\<rparr> s' = (Inr (''0x'' @ sample_private_key), s')"
proof -
  obtain s' where run: "getPrivateKey vault_server vault_env \<lparr>ks_cached = None, ks_world = \<lparr>cw_net = 0, cw_log = []\<rparr>\<rparr> =
     (Inr (''0x'' @ sample_private_key), s')" using vault_run by blast
  have "cache_ok \<lparr>ks_cached = None, ks_world = \<lparr>cw_net = (0::nat), cw_log = []\<rparr>\<rparr>" by (simp add: cache_ok_def)
  from private_key_sound [OF this run, where F' = vault_server and K' = "\<lparr>kp_env = Map.empty, kp_kms = None\<rparr>"] run show ?thesis by blast
qed

end
