(* ===== verification/Admin.thy ===== *)
theory Admin
  imports Sellers FeeEngine
begin

text \<open>
  The operator's routes, \<open>routes/admin.route.ts\<close>: networks, their assets and the sellers, behind the
  header \<open>X-Admin-Api-Key\<close>. The state is the three tables. A path parameter \<open>chainId\<close> is an integer:
  the schema of the route has Fastify convert or refuse it. The JSON of a whole row is a parameter.
\<close>

section \<open>Tables\<close>

record asset_row =
  ast_id :: string
  ast_networkId :: string
  ast_symbol :: string
  ast_address :: string
  ast_decimals :: int
  ast_minAmount :: string
  ast_maxAmount :: string
  ast_active :: bool
  ast_createdAt :: int

definition asset_clash :: "asset_row \<Rightarrow> asset_row \<Rightarrow> bool" where
  "asset_clash r q \<longleftrightarrow> ast_id r = ast_id q \<or> ast_networkId r = ast_networkId q \<and>
     (ast_symbol r = ast_symbol q \<or> ast_address r = ast_address q)"

record admin_db =
  ad_networks :: "network_row list"
  ad_assets :: "asset_row list"
  ad_sellers :: "seller_row list"

record admin_env =
  ae_key :: "string option"
  ae_network :: "network_row delegate"
  ae_asset :: "asset_row delegate"
  ae_seller :: "seller_row delegate"
  ae_net :: net_api
  ae_issueText :: "issues \<Rightarrow> string option"
  ae_networkJson :: "network_row \<Rightarrow> asset_row list option \<Rightarrow> json"
  ae_assetJson :: "asset_row \<Rightarrow> json"

type_synonym 'a admin_prog = "(admin_db, exn, 'a) prog"

definition in_networks :: "(network_row list, exn, 'a) prog \<Rightarrow> 'a admin_prog" where
  "in_networks = zoom ad_networks (\<lambda>x w. w\<lparr>ad_networks := x\<rparr>)"

definition in_assets :: "(asset_row list, exn, 'a) prog \<Rightarrow> 'a admin_prog" where
  "in_assets = zoom ad_assets (\<lambda>x w. w\<lparr>ad_assets := x\<rparr>)"

definition in_sellers :: "(seller_row list, exn, 'a) prog \<Rightarrow> 'a admin_prog" where
  "in_sellers = zoom ad_sellers (\<lambda>x w. w\<lparr>ad_sellers := x\<rparr>)"

lemmas in_defs = in_networks_def in_assets_def in_sellers_def

text \<open>\<open>.catch(() => null)\<close>\<close>

definition or_null :: "('w, exn, 'a) prog \<Rightarrow> ('w, exn, 'a option) prog" where
  "or_null m = try_catch (seq m (\<lambda>x. ret (Some x))) (\<lambda>_. ret None)"

section \<open>Bodies\<close>

definition zbool :: "json option \<Rightarrow> issues + bool" where
  "zbool v = (case v of Some (JBool b) \<Rightarrow> Inr b | _ \<Rightarrow> Inl [[]])"

definition zdefault :: "'a \<Rightarrow> (json option \<Rightarrow> issues + 'a) \<Rightarrow> json option \<Rightarrow> issues + 'a" where
  "zdefault d sch v = zmap (\<lambda>x. case x of Some y \<Rightarrow> y | None \<Rightarrow> d) (zoptional sch v)"

record network_body =
  nb_chainId :: int
  nb_name :: string
  nb_rpcUrl :: string
  nb_fallbackRpcUrl :: "string option"
  nb_nativeCurrency :: string
  nb_blockExplorer :: string
  nb_active :: bool

definition AddNetworkBody :: "net_api \<Rightarrow> json option \<Rightarrow> issues + network_body" where
  "AddNetworkBody N = zobject (\<lambda>kvs.
     zand (zand (zand (zand (zand (zand (zand (Inr network_body.make)
       (zfield kvs ''chainId'' (znumber (\<lambda>n. 0 < n))))
       (zfield kvs ''name'' (zstring (\<lambda>s. 1 \<le> length s \<and> length s \<le> 64))))
       (zfield kvs ''rpcUrl'' (zurl N)))
       (zfield kvs ''fallbackRpcUrl'' (zoptional (zurl N))))
       (zfield kvs ''nativeCurrency'' (zdefault ''ETH'' (zstring (\<lambda>_. True)))))
       (zfield kvs ''blockExplorer'' (zurl N)))
       (zfield kvs ''active'' (zdefault True zbool)))"

text \<open>\<open>AddNetworkBody.partial()\<close>: every key is optional, and a missing one has no default.\<close>

record network_patch =
  np_chainId :: "int option"
  np_name :: "string option"
  np_rpcUrl :: "string option"
  np_fallbackRpcUrl :: "string option"
  np_nativeCurrency :: "string option"
  np_blockExplorer :: "string option"
  np_active :: "bool option"

definition PartialNetworkBody :: "net_api \<Rightarrow> json option \<Rightarrow> issues + network_patch" where
  "PartialNetworkBody N = zobject (\<lambda>kvs.
     zand (zand (zand (zand (zand (zand (zand (Inr network_patch.make)
       (zfield kvs ''chainId'' (zoptional (znumber (\<lambda>n. 0 < n)))))
       (zfield kvs ''name'' (zoptional (zstring (\<lambda>s. 1 \<le> length s \<and> length s \<le> 64)))))
       (zfield kvs ''rpcUrl'' (zoptional (zurl N))))
       (zfield kvs ''fallbackRpcUrl'' (zoptional (zurl N))))
       (zfield kvs ''nativeCurrency'' (zoptional (zstring (\<lambda>_. True)))))
       (zfield kvs ''blockExplorer'' (zoptional (zurl N))))
       (zfield kvs ''active'' (zoptional zbool)))"

definition keep_or :: "'a \<Rightarrow> 'a option \<Rightarrow> 'a" where
  "keep_or old new = (case new of Some v \<Rightarrow> v | None \<Rightarrow> old)"

definition patched :: "network_patch \<Rightarrow> network_row \<Rightarrow> network_row" where
  "patched b n = n\<lparr>nw_chainId := keep_or (nw_chainId n) (np_chainId b), nw_name := keep_or (nw_name n) (np_name b),
     nw_rpcUrl := keep_or (nw_rpcUrl n) (np_rpcUrl b),
     nw_fallbackRpcUrl := (case np_fallbackRpcUrl b of Some u \<Rightarrow> Some u | None \<Rightarrow> nw_fallbackRpcUrl n),
     nw_nativeCurrency := keep_or (nw_nativeCurrency n) (np_nativeCurrency b),
     nw_blockExplorer := keep_or (nw_blockExplorer n) (np_blockExplorer b), nw_active := keep_or (nw_active n) (np_active b)\<rparr>"

record asset_body =
  ab_symbol :: string
  ab_address :: string
  ab_decimals :: int
  ab_minAmount :: string
  ab_maxAmount :: string
  ab_active :: bool

definition AddAssetBody :: "json option \<Rightarrow> issues + asset_body" where
  "AddAssetBody = zobject (\<lambda>kvs.
     zand (zand (zand (zand (zand (zand (Inr asset_body.make)
       (zfield kvs ''symbol'' (zstring (\<lambda>s. 1 \<le> length s \<and> length s \<le> 20))))
       (zfield kvs ''address'' (zstring (hex0x 40))))
       (zfield kvs ''decimals'' (zdefault 6 (znumber (\<lambda>n. 0 \<le> n \<and> n \<le> 18)))))
       (zfield kvs ''minAmount'' (zdefault ''1'' (zstring (\<lambda>_. True)))))
       (zfield kvs ''maxAmount'' (zdefault ''1000000000'' (zstring (\<lambda>_. True)))))
       (zfield kvs ''active'' (zdefault True zbool)))"

section \<open>Access\<close>

definition admin_refusal :: reply where
  "admin_refusal = mk_reply 401 (error_body ''unauthorized'' ''Invalid or missing admin API key''
     (Some ''Provide X-Admin-Api-Key header''))"

definition adminAuthHook :: "string option \<Rightarrow> string option \<Rightarrow> reply option" where
  "adminAuthHook configured key =
     (if \<not> truthy configured \<or> key \<noteq> configured then Some admin_refusal else None)"

section \<open>Handlers\<close>

definition invalid_body :: "admin_env \<Rightarrow> issues \<Rightarrow> reply" where
  "invalid_body E is = mk_reply 400 (error_body ''invalid_payload'' ''Validation failed'' (ae_issueText E is))"

definition no_network :: "string \<Rightarrow> reply" where
  "no_network message = mk_reply 404 (error_body ''not_found'' ''Network not found'' (Some message))"

definition no_chain :: "int \<Rightarrow> reply" where
  "no_chain chainId = no_network (''chainId '' @ int_str chainId @ '' not found'')"

definition no_content :: reply where
  "no_content = mk_reply 204 JNull"

definition listNetworks :: "admin_env \<Rightarrow> reply admin_prog" where
  "listNetworks E =
     seq (in_networks (db_findMany (ae_network E) (\<lambda>_. True))) (\<lambda>networks.
     seq (\<lambda>w. (Inr (ad_assets w), w)) (\<lambda>assets.
     ret (mk_reply 200 (JArr (map (\<lambda>n. ae_networkJson E n (Some (filter (\<lambda>a. ast_networkId a = nw_id n) assets)))
       (sort_key nw_createdAt networks))))))"

definition added_network :: "network_body \<Rightarrow> string \<Rightarrow> int \<Rightarrow> network_row" where
  "added_network b ulid clock =
     \<lparr>nw_id = ulid, nw_chainId = nb_chainId b, nw_name = nb_name b, nw_rpcUrl = nb_rpcUrl b,
      nw_fallbackRpcUrl = nb_fallbackRpcUrl b, nw_nativeCurrency = nb_nativeCurrency b, nw_blockExplorer = nb_blockExplorer b,
      nw_active = nb_active b, nw_addedBy = ''admin'', nw_createdAt = clock\<rparr>"

definition addNetwork :: "admin_env \<Rightarrow> json option \<Rightarrow> string \<Rightarrow> int \<Rightarrow> reply admin_prog" where
  "addNetwork E rawBody ulid clock =
     (case AddNetworkBody (ae_net E) rawBody of
        Inl is \<Rightarrow> ret (invalid_body E is)
      | Inr body \<Rightarrow>
          seq (in_networks (db_find (ae_network E) (\<lambda>n. nw_chainId n = nb_chainId body))) (\<lambda>existing.
          case existing of
            Some _ \<Rightarrow> ret (mk_reply 409 (error_body ''duplicate_network'' ''Network already exists''
              (Some (''chainId '' @ int_str (nb_chainId body) @ '' already registered''))))
          | None \<Rightarrow>
              seq (in_networks (db_create (ae_network E) (added_network body ulid clock))) (\<lambda>network.
              ret (mk_reply 201 (ae_networkJson E network None)))))"

definition updateNetwork :: "admin_env \<Rightarrow> int \<Rightarrow> json option \<Rightarrow> reply admin_prog" where
  "updateNetwork E chainId rawBody =
     (case PartialNetworkBody (ae_net E) rawBody of
        Inl is \<Rightarrow> ret (invalid_body E is)
      | Inr body \<Rightarrow>
          seq (or_null (in_networks (db_update (ae_network E) (\<lambda>n. nw_chainId n = chainId) (patched body)))) (\<lambda>network.
          case network of
            None \<Rightarrow> ret (no_chain chainId)
          | Some n \<Rightarrow> ret (mk_reply 200 (ae_networkJson E n None))))"

definition disableNetwork :: "admin_env \<Rightarrow> int \<Rightarrow> reply admin_prog" where
  "disableNetwork E chainId =
     seq (or_null (in_networks (db_update (ae_network E) (\<lambda>n. nw_chainId n = chainId) (\<lambda>n. n\<lparr>nw_active := False\<rparr>)))) (\<lambda>_.
     ret no_content)"

definition added_asset :: "asset_body \<Rightarrow> string \<Rightarrow> string \<Rightarrow> int \<Rightarrow> asset_row" where
  "added_asset b networkId ulid clock =
     \<lparr>ast_id = ulid, ast_networkId = networkId, ast_symbol = ab_symbol b, ast_address = ab_address b,
      ast_decimals = ab_decimals b, ast_minAmount = ab_minAmount b, ast_maxAmount = ab_maxAmount b, ast_active = ab_active b,
      ast_createdAt = clock\<rparr>"

definition addAsset :: "admin_env \<Rightarrow> int \<Rightarrow> json option \<Rightarrow> string \<Rightarrow> int \<Rightarrow> reply admin_prog" where
  "addAsset E chainId rawBody ulid clock =
     (case AddAssetBody rawBody of
        Inl is \<Rightarrow> ret (invalid_body E is)
      | Inr body \<Rightarrow>
          seq (in_networks (db_find (ae_network E) (\<lambda>n. nw_chainId n = chainId))) (\<lambda>network.
          case network of
            None \<Rightarrow> ret (no_chain chainId)
          | Some n \<Rightarrow>
              seq (or_null (in_assets (db_create (ae_asset E) (added_asset body (nw_id n) ulid clock)))) (\<lambda>asset.
              case asset of
                None \<Rightarrow> ret (mk_reply 409 (error_body ''duplicate_asset'' ''Asset already registered on this network''
                  (Some (ab_symbol body @ '' already exists on chainId '' @ int_str chainId))))
              | Some a \<Rightarrow> ret (mk_reply 201 (ae_assetJson E a)))))"

definition disableAsset :: "admin_env \<Rightarrow> int \<Rightarrow> string \<Rightarrow> reply admin_prog" where
  "disableAsset E chainId symbol =
     seq (in_networks (db_find (ae_network E) (\<lambda>n. nw_chainId n = chainId))) (\<lambda>network.
     case network of
       None \<Rightarrow> ret (no_network '''')
     | Some n \<Rightarrow>
         seq (in_assets (db_updateMany (ae_asset E)
                (\<lambda>a. ast_networkId a = nw_id n \<and> ast_symbol a = toUpperCase symbol) (\<lambda>a. a\<lparr>ast_active := False\<rparr>))) (\<lambda>_.
         ret no_content))"

definition seller_item :: "seller_row \<Rightarrow> json" where
  "seller_item s = JObj
     [(''id'', JStr (se_id s)), (''name'', JStr (se_name s)), (''deviceType'', JStr (device_name (se_deviceType s))),
      (''walletAddress'', JStr (se_walletAddress s)), (''active'', JBool (se_active s)),
      (''createdAt'', null_or_str (toISOString (se_createdAt s)))]"

definition listSellers :: "admin_env \<Rightarrow> reply admin_prog" where
  "listSellers E =
     seq (in_sellers (db_findMany (ae_seller E) (\<lambda>_. True))) (\<lambda>sellers.
     ret (mk_reply 200 (JArr (map seller_item (sort_key (\<lambda>s. - se_createdAt s) sellers)))))"

definition deactivateSeller :: "admin_env \<Rightarrow> string \<Rightarrow> reply admin_prog" where
  "deactivateSeller E sellerId =
     seq (or_null (in_sellers (db_update (ae_seller E) (\<lambda>s. se_id s = sellerId) (\<lambda>s. s\<lparr>se_active := False\<rparr>)))) (\<lambda>_.
     ret no_content)"

section \<open>The routes behind the hook\<close>

datatype admin_request =
    ListNetworks
  | AddNetwork "json option"
  | UpdateNetwork int "json option"
  | DisableNetwork int
  | AddAsset int "json option"
  | DisableAsset int string
  | ListSellers
  | DeactivateSeller string

definition admin_handle :: "admin_env \<Rightarrow> admin_request \<Rightarrow> string \<Rightarrow> int \<Rightarrow> reply admin_prog" where
  "admin_handle E rq ulid clock =
     (case rq of
        ListNetworks \<Rightarrow> listNetworks E
      | AddNetwork body \<Rightarrow> addNetwork E body ulid clock
      | UpdateNetwork chainId body \<Rightarrow> updateNetwork E chainId body
      | DisableNetwork chainId \<Rightarrow> disableNetwork E chainId
      | AddAsset chainId body \<Rightarrow> addAsset E chainId body ulid clock
      | DisableAsset chainId symbol \<Rightarrow> disableAsset E chainId symbol
      | ListSellers \<Rightarrow> listSellers E
      | DeactivateSeller sellerId \<Rightarrow> deactivateSeller E sellerId)"

definition admin_route :: "admin_env \<Rightarrow> string option \<Rightarrow> admin_request \<Rightarrow> string \<Rightarrow> int \<Rightarrow> reply admin_prog" where
  "admin_route E key rq ulid clock =
     (case adminAuthHook (ae_key E) key of Some r \<Rightarrow> ret r | None \<Rightarrow> admin_handle E rq ulid clock)"

section \<open>What the routes keep\<close>

text \<open>Rows are changed in place, each by a change that \<open>P\<close> allows, and new ones come at the end.\<close>

definition grown :: "('r \<Rightarrow> 'r \<Rightarrow> bool) \<Rightarrow> 'r list \<Rightarrow> 'r list \<Rightarrow> bool" where
  "grown P xs ys \<longleftrightarrow> (\<exists>us vs. ys = us @ vs \<and> list_all2 P xs us)"

lemma grown_all: "list_all2 P xs ys \<Longrightarrow> grown P xs ys"
  unfolding grown_def by (intro exI [where x = ys] exI [where x = "[]"]) simp

lemma grown_refl: "(\<And>x. P x x) \<Longrightarrow> grown P xs xs"
  by (intro grown_all list_all2_refl)

lemma grown_trans:
  assumes "\<And>x y z. P x y \<Longrightarrow> P y z \<Longrightarrow> P x z" "grown P xs ys" "grown P ys zs"
  shows "grown P xs zs"
proof -
  obtain us vs ws xs' where 1: "ys = us @ vs" "list_all2 P xs us" "zs = ws @ xs'" "list_all2 P ys ws"
    using assms(2,3) by (auto simp: grown_def)
  then obtain w1 w2 where 2: "ws = w1 @ w2" "list_all2 P us w1" by (auto simp: list_all2_append1)
  have "list_all2 P xs w1" by (rule list_all2_trans [OF _ 1(2) 2(2)]) (rule assms(1))
  then show ?thesis using 1(3) 2(1) by (auto simp: grown_def)
qed

lemma grown_add: "(\<And>x. P x x) \<Longrightarrow> grown P xs (xs @ [x])"
  by (auto simp: grown_def list_all2_refl)

lemma grown_change: "(\<And>x. P x x) \<Longrightarrow> P v v' \<Longrightarrow> grown P (us @ v # vs) (us @ v' # vs)"
  by (intro grown_all list_all2_appendI) (simp_all add: list_all2_refl)

lemma grown_map: "(\<And>x. P x (f x)) \<Longrightarrow> grown P xs (map f xs)"
  by (intro grown_all) (simp add: list_all2_map2 list_all2_refl)

lemma grown_kept: "grown P xs ys \<Longrightarrow> x \<in> set xs \<Longrightarrow> \<exists>y\<in>set ys. P x y"
  by (auto simp: grown_def list_all2_conv_all_nth in_set_conv_nth) (metis Un_iff nth_mem)

definition network_kept :: "network_row \<Rightarrow> network_row \<Rightarrow> bool" where
  "network_kept n n' \<longleftrightarrow> nw_id n' = nw_id n \<and> nw_addedBy n' = nw_addedBy n \<and> nw_createdAt n' = nw_createdAt n"

definition asset_kept :: "asset_row \<Rightarrow> asset_row \<Rightarrow> bool" where
  "asset_kept a a' \<longleftrightarrow> a' = a \<or> ast_symbol a = toUpperCase (ast_symbol a) \<and> a' = a\<lparr>ast_active := False\<rparr>"

definition seller_kept :: "seller_row \<Rightarrow> seller_row \<Rightarrow> bool" where
  "seller_kept s s' \<longleftrightarrow> s' = s \<or> s' = s\<lparr>se_active := False\<rparr>"

definition admin_kept :: "admin_db \<Rightarrow> admin_db \<Rightarrow> bool" where
  "admin_kept db db' \<longleftrightarrow> grown network_kept (ad_networks db) (ad_networks db') \<and>
     grown asset_kept (ad_assets db) (ad_assets db') \<and> list_all2 seller_kept (ad_sellers db) (ad_sellers db')"

text \<open>Every asset belongs to a network.\<close>

definition assets_linked :: "admin_db \<Rightarrow> bool" where
  "assets_linked db \<longleftrightarrow> (\<forall>a\<in>set (ad_assets db). \<exists>n\<in>set (ad_networks db). nw_id n = ast_networkId a)"

lemma kept_refl [simp]: "network_kept n n" "asset_kept a a" "seller_kept s s"
  by (simp_all add: network_kept_def asset_kept_def seller_kept_def)

lemma kept_trans:
  "network_kept n1 n2 \<Longrightarrow> network_kept n2 n3 \<Longrightarrow> network_kept n1 n3"
  "asset_kept a1 a2 \<Longrightarrow> asset_kept a2 a3 \<Longrightarrow> asset_kept a1 a3"
  "seller_kept s1 s2 \<Longrightarrow> seller_kept s2 s3 \<Longrightarrow> seller_kept s1 s3"
  by (auto simp: network_kept_def asset_kept_def seller_kept_def)

interpretation kept: step_relation admin_kept
proof unfold_locales
  fix db show "admin_kept db db" by (simp add: admin_kept_def grown_refl list_all2_refl)
next
  fix d1 d2 d3 assume "admin_kept d1 d2" "admin_kept d2 d3"
  then show "admin_kept d1 d3"
    unfolding admin_kept_def by (blast intro: grown_trans list_all2_trans kept_trans)
qed

definition admin_tables :: "admin_env \<Rightarrow> bool" where
  "admin_tables E \<longleftrightarrow> prisma_table (ae_network E) network_clash \<and> prisma_table (ae_asset E) asset_clash \<and>
     prisma_table (ae_seller E) seller_clash"

lemma steps_or_null: "steps admin_kept m \<Longrightarrow> steps admin_kept (or_null m)"
  unfolding or_null_def by (intro kept.steps_try_catch kept.steps_seq kept.steps_ret)

section \<open>Each statement keeps the tables\<close>

lemma admin_tablesD:
  "admin_tables E \<Longrightarrow> prisma_table (ae_network E) network_clash"
  "admin_tables E \<Longrightarrow> prisma_table (ae_asset E) asset_clash"
  "admin_tables E \<Longrightarrow> prisma_table (ae_seller E) seller_clash"
  by (simp_all add: admin_tables_def)

lemma network_change:
  assumes "admin_tables E" "\<And>n. network_kept n (f n)"
  shows "steps admin_kept (in_networks (db_update (ae_network E) p f))"
proof (rule stepsI)
  fix db r db' assume run: "in_networks (db_update (ae_network E) p f) db = (r, db')"
  then obtain ns where ns: "db_update (ae_network E) p f (ad_networks db) = (r, ns)" "db' = db\<lparr>ad_networks := ns\<rparr>"
    by (auto simp: in_defs run_simps)
  have "grown network_kept (ad_networks db) ns"
    using assms(2)
    by (cases rule: prisma_table.update_cases [OF admin_tablesD(1) [OF assms(1)] ns(1)]) (auto intro: grown_refl grown_change)
  then show "admin_kept db db'" using ns(2) by (simp add: admin_kept_def grown_refl list_all2_refl)
qed

lemma network_create:
  assumes "admin_tables E"
  shows "steps admin_kept (in_networks (db_create (ae_network E) n))"
proof (rule stepsI)
  fix db r db' assume run: "in_networks (db_create (ae_network E) n) db = (r, db')"
  then obtain ns where ns: "db_create (ae_network E) n (ad_networks db) = (r, ns)" "db' = db\<lparr>ad_networks := ns\<rparr>"
    by (auto simp: in_defs run_simps)
  have "grown network_kept (ad_networks db) ns"
    using ns(1) by (cases rule: prisma_table.create_cases [OF admin_tablesD(1) [OF assms]]) (auto intro: grown_refl grown_add)
  then show "admin_kept db db'" using ns(2) by (simp add: admin_kept_def grown_refl list_all2_refl)
qed

lemma asset_create:
  assumes "admin_tables E"
  shows "steps admin_kept (in_assets (db_create (ae_asset E) a))"
proof (rule stepsI)
  fix db r db' assume run: "in_assets (db_create (ae_asset E) a) db = (r, db')"
  then obtain xs where xs: "db_create (ae_asset E) a (ad_assets db) = (r, xs)" "db' = db\<lparr>ad_assets := xs\<rparr>"
    by (auto simp: in_defs run_simps)
  have "grown asset_kept (ad_assets db) xs"
    using xs(1) by (cases rule: prisma_table.create_cases [OF admin_tablesD(2) [OF assms]]) (auto intro: grown_refl grown_add)
  then show "admin_kept db db'" using xs(2) by (simp add: admin_kept_def grown_refl list_all2_refl)
qed

lemma asset_disable_run:
  assumes "admin_tables E" "in_assets (db_updateMany (ae_asset E) p f) db = (r, db')"
  shows "(\<exists>n. r = Inr n \<and> db' = db\<lparr>ad_assets := map (\<lambda>a. if p a then f a else a) (ad_assets db)\<rparr>) \<or> (\<exists>e. r = Inl e \<and> db' = db)"
proof -
  obtain xs where xs: "db_updateMany (ae_asset E) p f (ad_assets db) = (r, xs)" "db' = db\<lparr>ad_assets := xs\<rparr>"
    using assms(2) by (auto simp: in_defs run_simps)
  then show ?thesis
    using prisma_table.updateMany_ok [OF admin_tablesD(2) [OF assms(1)], of p f "ad_assets db"]
      prisma_table.updateMany_err [OF admin_tablesD(2) [OF assms(1)], of p f "ad_assets db"]
    by (cases r) auto
qed

lemma asset_disable:
  assumes "admin_tables E" "\<And>a. p a \<Longrightarrow> ast_symbol a = toUpperCase (ast_symbol a)"
  shows "steps admin_kept (in_assets (db_updateMany (ae_asset E) p (\<lambda>a. a\<lparr>ast_active := False\<rparr>)))"
proof (rule stepsI)
  fix db r db' assume run: "in_assets (db_updateMany (ae_asset E) p (\<lambda>a. a\<lparr>ast_active := False\<rparr>)) db = (r, db')"
  show "admin_kept db db'"
    using asset_disable_run [OF assms(1) run]
  proof (elim disjE exE conjE)
    fix n assume "db' = db\<lparr>ad_assets := map (\<lambda>a. if p a then a\<lparr>ast_active := False\<rparr> else a) (ad_assets db)\<rparr>"
    moreover have "grown asset_kept (ad_assets db) (map (\<lambda>a. if p a then a\<lparr>ast_active := False\<rparr> else a) (ad_assets db))"
      using assms(2) by (intro grown_map) (auto simp: asset_kept_def)
    ultimately show ?thesis by (simp add: admin_kept_def grown_refl list_all2_refl)
  qed (simp add: kept.rel_refl)
qed

lemma seller_disable:
  assumes "admin_tables E"
  shows "steps admin_kept (in_sellers (db_update (ae_seller E) p (\<lambda>s. s\<lparr>se_active := False\<rparr>)))"
proof (rule stepsI)
  fix db r db' assume run: "in_sellers (db_update (ae_seller E) p (\<lambda>s. s\<lparr>se_active := False\<rparr>)) db = (r, db')"
  then obtain xs where xs: "db_update (ae_seller E) p (\<lambda>s. s\<lparr>se_active := False\<rparr>) (ad_sellers db) = (r, xs)"
      "db' = db\<lparr>ad_sellers := xs\<rparr>"
    by (auto simp: in_defs run_simps)
  have "list_all2 seller_kept (ad_sellers db) xs"
    by (cases rule: prisma_table.update_cases [OF admin_tablesD(3) [OF assms] xs(1)])
      (auto intro!: list_all2_appendI list_all2_refl simp: seller_kept_def)
  then show "admin_kept db db'" using xs(2) by (simp add: admin_kept_def grown_refl)
qed

lemma reads_keep:
  assumes "admin_tables E"
  shows "steps admin_kept (in_networks (db_find (ae_network E) p))"
    "steps admin_kept (in_networks (db_findMany (ae_network E) p))"
    "steps admin_kept (in_sellers (db_findMany (ae_seller E) q))"
    "steps admin_kept (\<lambda>w. (Inr (ad_assets w), w))"
  by (rule stepsI, auto simp: in_defs run_simps kept.rel_refl
      dest!: prisma_table.find_same [OF admin_tablesD(1) [OF assms]] prisma_table.findMany_same [OF admin_tablesD(1) [OF assms]]
        prisma_table.findMany_same [OF admin_tablesD(3) [OF assms]])+

lemma patched_kept: "network_kept n (patched b n)"
  by (simp add: network_kept_def patched_def)

lemma disabled_kept: "network_kept n (n\<lparr>nw_active := False\<rparr>)"
  by (simp add: network_kept_def)

lemma handle_kept:
  assumes "admin_tables E"
  shows "steps admin_kept (admin_handle E rq ulid clock)"
  unfolding admin_handle_def listNetworks_def addNetwork_def updateNetwork_def disableNetwork_def addAsset_def disableAsset_def
    listSellers_def deactivateSeller_def
  by (cases rq; simp only: admin_request.case)
    (intro kept.steps_seq kept.steps_case_option kept.steps_case_sum kept.steps_ret steps_or_null reads_keep [OF assms]
      network_create [OF assms] asset_create [OF assms] seller_disable [OF assms] network_change [OF assms]
      asset_disable [OF assms] patched_kept disabled_kept; simp)+

text \<open>Only \<open>addAsset\<close> adds an asset, and it has just found the network.\<close>

definition same_assets :: "admin_db \<Rightarrow> admin_db \<Rightarrow> bool" where
  "same_assets db db' \<longleftrightarrow> list_all2 asset_kept (ad_assets db) (ad_assets db')"

interpretation assets: step_relation same_assets
proof unfold_locales
  fix db show "same_assets db db" by (simp add: same_assets_def list_all2_refl)
next
  fix d1 d2 d3 assume "same_assets d1 d2" "same_assets d2 d3"
  then show "same_assets d1 d3" unfolding same_assets_def by (blast intro: list_all2_trans kept_trans)
qed

lemma elsewhere_same: "steps same_assets (in_networks m1)" "steps same_assets (in_sellers m2)"
    "steps same_assets (\<lambda>w. (Inr (ad_assets w), w))"
  by (rule stepsI, auto simp: in_defs run_simps same_assets_def list_all2_refl)+

lemma same_or_null: "steps same_assets m \<Longrightarrow> steps same_assets (or_null m)"
  unfolding or_null_def by (intro assets.steps_try_catch assets.steps_seq assets.steps_ret)

lemma disable_same:
  assumes "admin_tables E" "\<And>a. p a \<Longrightarrow> ast_symbol a = toUpperCase (ast_symbol a)"
  shows "steps same_assets (in_assets (db_updateMany (ae_asset E) p (\<lambda>a. a\<lparr>ast_active := False\<rparr>)))"
proof (rule stepsI)
  fix db r db' assume run: "in_assets (db_updateMany (ae_asset E) p (\<lambda>a. a\<lparr>ast_active := False\<rparr>)) db = (r, db')"
  have "list_all2 asset_kept (ad_assets db) (map (\<lambda>a. if p a then a\<lparr>ast_active := False\<rparr> else a) (ad_assets db))"
    using assms(2) by (auto simp: list_all2_map2 list_all2_same asset_kept_def)
  then show "same_assets db db'"
    using asset_disable_run [OF assms(1) run] by (auto simp: same_assets_def list_all2_refl)
qed

lemma handle_same:
  assumes "admin_tables E" "\<nexists>chainId body. rq = AddAsset chainId body"
  shows "steps same_assets (admin_handle E rq ulid clock)"
  using assms(2)
  unfolding admin_handle_def listNetworks_def addNetwork_def updateNetwork_def disableNetwork_def disableAsset_def
    listSellers_def deactivateSeller_def
  by (cases rq; simp only: admin_request.case admin_request.inject ex_simps simp_thms)
    ((intro assets.steps_seq assets.steps_case_option assets.steps_case_sum assets.steps_ret same_or_null elsewhere_same
      disable_same [OF assms(1)]; simp)+)?

lemma addAsset_run:
  assumes "admin_tables E" "addAsset E chainId rawBody ulid clock db = (r, db')"
  shows "ad_networks db' = ad_networks db \<and> (ad_assets db' = ad_assets db \<or>
    (\<exists>a. ad_assets db' = ad_assets db @ [a] \<and> (\<exists>n\<in>set (ad_networks db). nw_id n = ast_networkId a)))"
proof (cases "AddAssetBody rawBody")
  case (Inl e)
  then show ?thesis using assms(2) by (simp add: addAsset_def ret_def)
next
  case (Inr b)
  obtain f where f: "db_find (ae_network E) (\<lambda>n. nw_chainId n = chainId) (ad_networks db) = (f, ad_networks db)"
    using prisma_table.find_state [OF admin_tablesD(1) [OF assms(1)]] by (metis prod.collapse)
  show ?thesis
  proof (cases "\<exists>n. f = Inr (Some n)")
    case False
    then show ?thesis using assms(2) Inr f
      by (auto simp: addAsset_def in_defs zoom_def seq_def ret_def split: sum.splits option.splits)
  next
    case True
    then obtain n where n: "f = Inr (Some n)" by blast
    then have mem: "n \<in> set (ad_networks db)"
      using prisma_table.find_Some [OF admin_tablesD(1) [OF assms(1)]] f by blast
    obtain s xs where c: "db_create (ae_asset E) (added_asset b (nw_id n) ulid clock) (ad_assets db) = (s, xs)" by fastforce
    then have "ad_networks db' = ad_networks db \<and> ad_assets db' = xs"
      using assms(2) Inr f n
      by (cases s) (auto simp: addAsset_def in_defs zoom_def seq_def ret_def or_null_def try_catch_def)
    moreover have "xs = ad_assets db \<or> xs = ad_assets db @ [added_asset b (nw_id n) ulid clock]"
      by (cases rule: prisma_table.create_cases [OF admin_tablesD(2) [OF assms(1)] c]) auto
    ultimately show ?thesis using mem by (auto simp: added_asset_def)
  qed
qed

lemma list_all2_member: "list_all2 P xs ys \<Longrightarrow> y \<in> set ys \<Longrightarrow> \<exists>x\<in>set xs. P x y"
  by (metis in_set_conv_nth list_all2_conv_all_nth)

lemma asset_kept_network: "asset_kept a a' \<Longrightarrow> ast_networkId a' = ast_networkId a"
  by (auto simp: asset_kept_def)

lemma linked_kept:
  assumes "admin_kept db db'" "same_assets db db'" "assets_linked db"
  shows "assets_linked db'"
  unfolding assets_linked_def
proof
  fix a' assume "a' \<in> set (ad_assets db')"
  then obtain a where a: "a \<in> set (ad_assets db)" "ast_networkId a' = ast_networkId a"
    using list_all2_member [OF assms(2) [unfolded same_assets_def]] asset_kept_network by blast
  then obtain n where "n \<in> set (ad_networks db)" "nw_id n = ast_networkId a" using assms(3) by (auto simp: assets_linked_def)
  moreover have "grown network_kept (ad_networks db) (ad_networks db')" using assms(1) by (simp add: admin_kept_def)
  ultimately obtain n' where "n' \<in> set (ad_networks db')" "network_kept n n'" "nw_id n = ast_networkId a"
    using grown_kept [of network_kept "ad_networks db" "ad_networks db'" n] by auto
  then show "\<exists>n\<in>set (ad_networks db'). nw_id n = ast_networkId a'"
    using a(2) by (auto simp: network_kept_def)
qed

lemma handle_linked:
  assumes "admin_tables E" "admin_handle E rq ulid clock db = (r, db')" "assets_linked db"
  shows "assets_linked db'"
proof (cases "\<exists>chainId body. rq = AddAsset chainId body")
  case True
  then obtain chainId body where "addAsset E chainId body ulid clock db = (r, db')"
    using assms(2) by (auto simp: admin_handle_def)
  from addAsset_run [OF assms(1) this] assms(3) show ?thesis
    by (auto simp: assets_linked_def)
next
  case False
  then show ?thesis
    using linked_kept [OF stepsD [OF handle_kept [OF assms(1)] assms(2)] stepsD [OF handle_same [OF assms(1)] assms(2)] assms(3)]
    by blast
qed

lemma admin_route_cases:
  assumes "admin_route E key rq ulid clock db = (r, db')"
  obtains (refused) "\<not> truthy (ae_key E) \<or> key \<noteq> ae_key E" "r = Inr admin_refusal" "db' = db"
  | (allowed) "truthy (ae_key E)" "key = ae_key E" "admin_handle E rq ulid clock db = (r, db')"
  using assms by (auto simp: admin_route_def adminAuthHook_def ret_def split: if_splits)

section \<open>Properties\<close>

text \<open>C17. The operator's routes: without the configured key, or when none is configured, a request is answered
  401 and changes nothing. Whatever the request, its body and the answers of the database, no network,
  asset or seller is removed, a network keeps its id, its origin and its creation time, an asset can only be switched
  off, a seller can only be deactivated (never reactivated, and its key and wallet stay), and every
  asset belongs to a network if that was so before.
\<close>

theorem admin_safe:
  assumes "admin_tables E" "admin_route E key rq ulid clock db = (r, db')"
  shows "((ae_key E = None \<or> ae_key E = Some [] \<or> key \<noteq> ae_key E) \<longrightarrow> r = Inr admin_refusal \<and> db' = db) \<and>
    admin_kept db db' \<and> (assets_linked db \<longrightarrow> assets_linked db')"
  using assms(2)
proof (cases rule: admin_route_cases)
  case refused
  then show ?thesis by (simp add: kept.rel_refl)
next
  case allowed
  then show ?thesis
    using stepsD [OF handle_kept [OF assms(1)] allowed(3)] handle_linked [OF assms(1) allowed(3)]
    by (auto simp: truthy_def)
qed

definition sample_admin :: admin_env where
  "sample_admin = \<lparr>ae_key = Some ''k'', ae_network = table_of network_clash, ae_asset = table_of asset_clash,
     ae_seller = table_of seller_clash, ae_net = sl_net sample_sellers, ae_issueText = (\<lambda>_. None),
     ae_networkJson = (\<lambda>_ _. JNull), ae_assetJson = (\<lambda>_. JNull)\<rparr>"

lemma sample_admin_tables: "admin_tables sample_admin"
  by (simp add: admin_tables_def sample_admin_def table_of_prisma)

definition sample_asset :: "string \<Rightarrow> asset_row" where
  "sample_asset symbol = \<lparr>ast_id = ''a1'', ast_networkId = ''net1'', ast_symbol = symbol, ast_address = ''0x'', ast_decimals = 6,
     ast_minAmount = ''1'', ast_maxAmount = ''9'', ast_active = True, ast_createdAt = 0\<rparr>"

definition sample_db :: "string \<Rightarrow> admin_db" where
  "sample_db symbol = \<lparr>ad_networks = [base_network], ad_assets = [sample_asset symbol], ad_sellers = []\<rparr>"

lemma sample_disable:
  "admin_route sample_admin (Some ''k'') (DisableAsset 8453 ''usdc'') ''u'' 0 (sample_db ''USDC'') =
    (Inr no_content, (sample_db ''USDC'')\<lparr>ad_assets := [(sample_asset ''USDC'')\<lparr>ast_active := False\<rparr>]\<rparr>)"
  by code_simp

lemma admin_safe_witness:
  "admin_kept (sample_db ''USDC'') ((sample_db ''USDC'')\<lparr>ad_assets := [(sample_asset ''USDC'')\<lparr>ast_active := False\<rparr>]\<rparr>) \<and>
   admin_route sample_admin None ListSellers ''u'' 0 (sample_db ''USDC'') = (Inr admin_refusal, sample_db ''USDC'')"
proof -
  obtain r db' where run: "admin_route sample_admin None ListSellers ''u'' 0 (sample_db ''USDC'') = (r, db')" by fastforce
  show ?thesis
    using admin_safe [OF sample_admin_tables sample_disable] admin_safe [OF sample_admin_tables run] run
    by (auto simp: sample_admin_def)
qed

text \<open>Switching an asset off: the request looks for the symbol in upper case, and when it is answered 204
  the rows of the network with exactly that symbol are switched off and no other row is changed. So an
  asset registered with a lower-case letter in its symbol is not found: no request of the operator,
  whatever symbol it names, ever changes such an asset.
\<close>

theorem disable_asset_exact:
  assumes "admin_tables E"
  shows "(disableAsset E chainId symbol db = (Inr reply, db') \<longrightarrow>
      reply = no_content \<and> (\<exists>n\<in>set (ad_networks db). nw_chainId n = chainId \<and>
        db' = db\<lparr>ad_assets := map (\<lambda>a. if ast_networkId a = nw_id n \<and> ast_symbol a = toUpperCase symbol
                                 then a\<lparr>ast_active := False\<rparr> else a) (ad_assets db)\<rparr>) \<or>
      reply = no_network '''' \<and> db' = db \<and> (\<forall>n\<in>set (ad_networks db). nw_chainId n \<noteq> chainId)) \<and>
    (admin_route E key rq ulid clock db = (r, db') \<and> a \<in> set (ad_assets db) \<and> toUpperCase (ast_symbol a) \<noteq> ast_symbol a \<longrightarrow>
      a \<in> set (ad_assets db'))"
proof (intro conjI impI)
  assume run: "disableAsset E chainId symbol db = (Inr reply, db')"
  obtain f where f: "db_find (ae_network E) (\<lambda>n. nw_chainId n = chainId) (ad_networks db) = (f, ad_networks db)"
    using prisma_table.find_state [OF admin_tablesD(1) [OF assms]] by (metis prod.collapse)
  show "reply = no_content \<and> (\<exists>n\<in>set (ad_networks db). nw_chainId n = chainId \<and>
        db' = db\<lparr>ad_assets := map (\<lambda>a. if ast_networkId a = nw_id n \<and> ast_symbol a = toUpperCase symbol
                                 then a\<lparr>ast_active := False\<rparr> else a) (ad_assets db)\<rparr>) \<or>
      reply = no_network '''' \<and> db' = db \<and> (\<forall>n\<in>set (ad_networks db). nw_chainId n \<noteq> chainId)"
  proof (cases "\<exists>n. f = Inr (Some n)")
    case True
    then obtain n where n: "f = Inr (Some n)" "n \<in> set (ad_networks db)" "nw_chainId n = chainId"
      using prisma_table.find_Some [OF admin_tablesD(1) [OF assms]] f by blast
    let ?p = "\<lambda>a. ast_networkId a = nw_id n \<and> ast_symbol a = toUpperCase symbol"
    obtain s db2 where u: "in_assets (db_updateMany (ae_asset E) ?p (\<lambda>a. a\<lparr>ast_active := False\<rparr>)) db = (s, db2)" by fastforce
    have "seq (in_assets (db_updateMany (ae_asset E) ?p (\<lambda>a. a\<lparr>ast_active := False\<rparr>))) (\<lambda>_. ret no_content) db = (Inr reply, db')"
      using run f n(1) by (simp add: disableAsset_def in_networks_def zoom_def seq_def)
    then have "reply = no_content" "db' = db2" "\<exists>k. s = Inr k" using u by (auto simp: run_simps)
    then show ?thesis using asset_disable_run [OF assms u] n by auto
  next
    case False
    then have "f = Inr None" "reply = no_network ''''" "db' = db"
      using run f by (auto simp: disableAsset_def in_networks_def zoom_def seq_def ret_def split: sum.splits option.splits)
    then show ?thesis using prisma_table.find_None [OF admin_tablesD(1) [OF assms]] f by blast
  qed
next
  assume h: "admin_route E key rq ulid clock db = (r, db') \<and> a \<in> set (ad_assets db) \<and> toUpperCase (ast_symbol a) \<noteq> ast_symbol a"
  then have "admin_route E key rq ulid clock db = (r, db')" by blast
  then have "admin_kept db db'"
    by (cases rule: admin_route_cases) (auto simp: kept.rel_refl dest: stepsD [OF handle_kept [OF assms]])
  then obtain a' where "a' \<in> set (ad_assets db')" "asset_kept a a'" using grown_kept h by (metis admin_kept_def)
  then show "a \<in> set (ad_assets db')" using h by (auto simp: asset_kept_def)
qed

lemma sample_lower:
  "admin_route sample_admin (Some ''k'') (DisableAsset 8453 ''usdc'') ''u'' 0 (sample_db ''usdc'') =
    (Inr no_content, sample_db ''usdc'')"
  by code_simp

lemma disable_asset_exact_witness:
  "toUpperCase (ast_symbol (sample_asset ''usdc'')) \<noteq> ast_symbol (sample_asset ''usdc'') \<and>
   sample_asset ''usdc'' \<in> set (ad_assets (sample_db ''usdc'')) \<and>
   (\<exists>n\<in>set (ad_networks (sample_db ''USDC'')). nw_chainId n = 8453)"
proof -
  have up: "toUpperCase (ast_symbol (sample_asset ''usdc'')) \<noteq> ast_symbol (sample_asset ''usdc'')" by code_simp
  have run: "disableAsset sample_admin 8453 ''usdc'' (sample_db ''USDC'') =
    (Inr no_content, (sample_db ''USDC'')\<lparr>ad_assets := [(sample_asset ''USDC'')\<lparr>ast_active := False\<rparr>]\<rparr>)" by code_simp
  have no: "no_content \<noteq> no_network ''''" by (simp add: no_content_def no_network_def mk_reply_def)
  show ?thesis
    using disable_asset_exact [OF sample_admin_tables, of 8453 "''usdc''" "sample_db ''USDC''"] run no up sample_lower
      disable_asset_exact [OF sample_admin_tables, where db = "sample_db ''usdc''" and a = "sample_asset ''usdc''"]
    by (fastforce simp: sample_db_def)
qed

end
