(* ===== verification/Dashboard.thy ===== *)
theory Dashboard
  imports Settle Http "HOL-Library.Char_ord" "HOL-Library.List_Lexorder" "HOL-Library.Multiset"
begin

text \<open>
  The operator's dashboard, \<open>routes/dashboard.ts\<close>: the token check, the statistics, the paged tables
  and the event stream with its cap on open connections. The tables are the rows in the database;
  \<open>Number(s)\<close> of a query parameter, and the percentage with two decimals, which is computed in
  floating point, are parameters.
\<close>

section \<open>Access\<close>

definition dashboard_token :: "string option \<Rightarrow> string" where
  "dashboard_token auth =
     (let a = (case auth of Some v \<Rightarrow> v | None \<Rightarrow> '''') in
      if startsWith a ''Bearer '' then js_trim (drop 7 a) else '''')"

definition dashboard_refusal :: reply where
  "dashboard_refusal = mk_reply 401 (JObj [(''error'', JObj
     [(''code'', JStr ''unauthorized''), (''reason'', JStr ''Missing or invalid dashboard token''),
      (''message'', JStr ''Provide Authorization: Bearer <DASHBOARD_TOKEN>'')])])"

definition assertDashboardAuth :: "string \<Rightarrow> string option \<Rightarrow> reply option" where
  "assertDashboardAuth configured auth =
     (if safeEqual (dashboard_token auth) configured then None else Some dashboard_refusal)"

text \<open>A route runs its body only behind the check.\<close>

definition guarded :: "string \<Rightarrow> string option \<Rightarrow> ('w, exn, reply) prog \<Rightarrow> ('w, exn, reply) prog" where
  "guarded configured auth body =
     (case assertDashboardAuth configured auth of Some r \<Rightarrow> ret r | None \<Rightarrow> body)"

section \<open>Statistics\<close>

record stats =
  st_total :: nat
  st_confirmed :: nat
  st_failed :: nat
  st_pending :: nat
  st_successRate :: string
  st_totalFees :: int

definition count_status :: "settlement_status \<Rightarrow> payment_settlement list \<Rightarrow> nat" where
  "count_status s rows = length (filter (\<lambda>r. ps_status r = s) rows)"

definition newest_first :: "('r \<Rightarrow> int) \<Rightarrow> 'r list \<Rightarrow> 'r list" where
  "newest_first created rows = sort_key (\<lambda>r. - created r) rows"

text \<open>\<open>reduce\<close> with \<open>BigInt(s.feeAmount ?? '0')\<close>.\<close>

fun sum_fees :: "payment_settlement list \<Rightarrow> int \<Rightarrow> ('w, exn, int) prog" where
  "sum_fees [] acc = ret acc"
| "sum_fees (s # ss) acc =
     seq (js_BigInt (case ps_feeAmount s of Some f \<Rightarrow> f | None \<Rightarrow> ''0'')) (\<lambda>f. sum_fees ss (acc + f))"

definition dashboard_stats ::
  "(nat \<Rightarrow> nat \<Rightarrow> string) \<Rightarrow> payment_settlement list \<Rightarrow> ('w, exn, stats) prog" where
  "dashboard_stats percent rows =
     seq (sum_fees (take 1000 (newest_first ps_createdAt (filter (\<lambda>r. ps_status r = SConfirmed) rows))) 0) (\<lambda>fees.
     ret \<lparr>st_total = length rows, st_confirmed = count_status SConfirmed rows, st_failed = count_status SFailed rows,
          st_pending = count_status SPending rows,
          st_successRate = (if 0 < length rows then percent (count_status SConfirmed rows) (length rows) else ''N/A''),
          st_totalFees = fees\<rparr>)"

section \<open>Paged tables\<close>

text \<open>\<open>z.coerce.number().int().min(lo).max(hi).default(d)\<close>\<close>

definition coerce_int :: "(string \<Rightarrow> int option) \<Rightarrow> int \<Rightarrow> int option \<Rightarrow> int \<Rightarrow> string option \<Rightarrow> int option" where
  "coerce_int number lo hi d v =
     (case v of
        None \<Rightarrow> Some d
      | Some s \<Rightarrow>
          (case number s of
             None \<Rightarrow> None
           | Some n \<Rightarrow> if lo \<le> n \<and> (case hi of Some h \<Rightarrow> n \<le> h | None \<Rightarrow> True) then Some n else None))"

definition status_filter :: "string option \<Rightarrow> settlement_status option option" where
  "status_filter v =
     (case v of
        None \<Rightarrow> Some None
      | Some s \<Rightarrow> if s = ''pending'' then Some (Some SPending) else if s = ''confirmed'' then Some (Some SConfirmed)
          else if s = ''failed'' then Some (Some SFailed) else None)"

record settlement_query =
  sq_status :: "settlement_status option"
  sq_network :: "string option"
  sq_page :: int
  sq_limit :: int

definition SettlementQuerySchema ::
  "(string \<Rightarrow> int option) \<Rightarrow> (string \<Rightarrow> string option) \<Rightarrow> settlement_query option" where
  "SettlementQuerySchema number q =
     (case (status_filter (q ''status''), coerce_int number 1 None 1 (q ''page''), coerce_int number 1 (Some 100) 20 (q ''limit'')) of
        (Some st, Some page, Some limit) \<Rightarrow>
          if (case q ''network'' of Some n \<Rightarrow> length n \<le> 64 | None \<Rightarrow> True)
          then Some \<lparr>sq_status = st, sq_network = q ''network'', sq_page = page, sq_limit = limit\<rparr> else None
      | _ \<Rightarrow> None)"

text \<open>The rows a query selects; \<open>net_of\<close> is the name of the network of the request of a settlement.
  An empty \<open>network\<close> is falsy and filters nothing.\<close>

definition settlement_where :: "(payment_settlement \<Rightarrow> string option) \<Rightarrow> settlement_query \<Rightarrow> payment_settlement \<Rightarrow> bool" where
  "settlement_where net_of q s \<longleftrightarrow>
     (case sq_status q of Some st \<Rightarrow> ps_status s = st | None \<Rightarrow> True) \<and>
     (case sq_network q of Some (c # cs) \<Rightarrow> net_of s = Some (c # cs) | _ \<Rightarrow> True)"

definition page_of :: "int \<Rightarrow> int \<Rightarrow> 'r list \<Rightarrow> 'r list" where
  "page_of page limit rows = take (nat limit) (drop (nat ((page - 1) * limit)) rows)"

text \<open>\<open>Math.ceil(total / limit)\<close>\<close>

definition page_count :: "int \<Rightarrow> int \<Rightarrow> int" where
  "page_count n limit = - ((- n) div limit)"

record 'r table_page =
  tp_data :: "'r list"
  tp_page :: int
  tp_limit :: int
  tp_total :: int
  tp_pages :: int

definition table_page_of :: "('r \<Rightarrow> int) \<Rightarrow> ('r \<Rightarrow> bool) \<Rightarrow> int \<Rightarrow> int \<Rightarrow> 'r list \<Rightarrow> 'r table_page" where
  "table_page_of created p page limit rows =
     (let found = filter p rows in
      \<lparr>tp_data = page_of page limit (newest_first created found), tp_page = page, tp_limit = limit,
       tp_total = int (length found), tp_pages = page_count (int (length found)) limit\<rparr>)"

definition settlements_table ::
  "(string \<Rightarrow> int option) \<Rightarrow> (payment_settlement \<Rightarrow> string option) \<Rightarrow> (string \<Rightarrow> string option) \<Rightarrow> payment_settlement list \<Rightarrow>
   payment_settlement table_page option" where
  "settlements_table number net_of q rows =
     map_option (\<lambda>d. table_page_of ps_createdAt (settlement_where net_of d) (sq_page d) (sq_limit d) rows)
       (SettlementQuerySchema number q)"

record webhook_query =
  wq_status :: "string option"
  wq_event :: "string option"
  wq_page :: int
  wq_limit :: int

definition one_of :: "string list \<Rightarrow> string option \<Rightarrow> bool" where
  "one_of xs v = (case v of None \<Rightarrow> True | Some s \<Rightarrow> s \<in> set xs)"

definition WebhookQuerySchema :: "(string \<Rightarrow> int option) \<Rightarrow> (string \<Rightarrow> string option) \<Rightarrow> webhook_query option" where
  "WebhookQuerySchema number q =
     (case (coerce_int number 1 None 1 (q ''page''), coerce_int number 1 (Some 100) 20 (q ''limit'')) of
        (Some page, Some limit) \<Rightarrow>
          if one_of [''pending'', ''delivered'', ''failed''] (q ''status'') \<and>
             one_of [''settlement.confirmed'', ''settlement.failed'', ''verify.accepted'', ''verify.rejected''] (q ''event'')
          then Some \<lparr>wq_status = q ''status'', wq_event = q ''event'', wq_page = page, wq_limit = limit\<rparr> else None
      | _ \<Rightarrow> None)"

definition webhook_where :: "webhook_query \<Rightarrow> webhook_delivery \<Rightarrow> bool" where
  "webhook_where q d \<longleftrightarrow>
     (case wq_status q of Some s \<Rightarrow> wd_status d = s | None \<Rightarrow> True) \<and>
     (case wq_event q of Some e \<Rightarrow> wd_event d = e | None \<Rightarrow> True)"

definition webhooks_table ::
  "(string \<Rightarrow> int option) \<Rightarrow> (string \<Rightarrow> string option) \<Rightarrow> webhook_delivery list \<Rightarrow> webhook_delivery table_page option" where
  "webhooks_table number q rows =
     map_option (\<lambda>d. table_page_of wd_createdAt (webhook_where d) (wq_page d) (wq_limit d) rows) (WebhookQuerySchema number q)"

section \<open>Routes\<close>

text \<open>
  \<open>percent\<close> and \<open>now\<close> are the two decimals of the success rate and the time of the reply; \<open>row_json\<close>
  is the JSON of a row with what it includes, and \<open>issue\<close> the text of a schema's first issue.
\<close>

definition stats_json :: "stats \<Rightarrow> string \<Rightarrow> json" where
  "stats_json s now = JObj
     [(''settlements'', JObj
        [(''total'', JNum (int (st_total s))), (''confirmed'', JNum (int (st_confirmed s))),
         (''failed'', JNum (int (st_failed s))), (''pending'', JNum (int (st_pending s))),
         (''successRate'', JStr (st_successRate s))]),
      (''fees'', JObj [(''totalGenerated'', JStr (int_str (st_totalFees s))), (''currency'', JStr ''USDC (base units)'')]),
      (''generatedAt'', JStr now)]"

definition stats_route ::
  "string \<Rightarrow> string option \<Rightarrow> (nat \<Rightarrow> nat \<Rightarrow> string) \<Rightarrow> int \<Rightarrow> payment_settlement list \<Rightarrow> ('w, exn, reply) prog" where
  "stats_route configured auth percent clock rows = guarded configured auth
     (seq (dashboard_stats percent rows) (\<lambda>s. seq (iso clock) (\<lambda>now. ret (mk_reply 200 (stats_json s now)))))"

definition invalid_query :: "string option \<Rightarrow> reply" where
  "invalid_query issue = mk_reply 400 (JObj [(''error'', JObj
     ([(''code'', JStr ''invalid_query''), (''reason'', JStr ''Invalid query parameters'')] @ opt_str ''message'' issue))])"

definition table_json :: "('r \<Rightarrow> json) \<Rightarrow> 'r table_page \<Rightarrow> json" where
  "table_json row_json t = JObj
     [(''data'', JArr (map row_json (tp_data t))),
      (''pagination'', JObj [(''page'', JNum (tp_page t)), (''limit'', JNum (tp_limit t)), (''total'', JNum (tp_total t)),
         (''pages'', JNum (tp_pages t))])]"

definition table_reply :: "('r \<Rightarrow> json) \<Rightarrow> string option \<Rightarrow> 'r table_page option \<Rightarrow> reply" where
  "table_reply row_json issue t =
     (case t of None \<Rightarrow> invalid_query issue | Some p \<Rightarrow> mk_reply 200 (table_json row_json p))"

definition settlements_route ::
  "string \<Rightarrow> string option \<Rightarrow> (string \<Rightarrow> int option) \<Rightarrow> (payment_settlement \<Rightarrow> string option) \<Rightarrow> (payment_settlement \<Rightarrow> json) \<Rightarrow>
   string option \<Rightarrow> (string \<Rightarrow> string option) \<Rightarrow> payment_settlement list \<Rightarrow> ('w, exn, reply) prog" where
  "settlements_route configured auth number net_of row_json issue q rows = guarded configured auth
     (ret (table_reply row_json issue (settlements_table number net_of q rows)))"

definition webhooks_route ::
  "string \<Rightarrow> string option \<Rightarrow> (string \<Rightarrow> int option) \<Rightarrow> (webhook_delivery \<Rightarrow> json) \<Rightarrow> string option \<Rightarrow>
   (string \<Rightarrow> string option) \<Rightarrow> webhook_delivery list \<Rightarrow> ('w, exn, reply) prog" where
  "webhooks_route configured auth number row_json issue q rows = guarded configured auth
     (ret (table_reply row_json issue (webhooks_table number q rows)))"

section \<open>The pages of a table\<close>

lemma concat_pages:
  "0 < n \<Longrightarrow> concat (map (\<lambda>i. take n (drop (i * n) xs)) [0..<k]) = take (k * n) xs"
proof (induction k)
  case (Suc k)
  have "take (k * n) xs @ take n (drop (k * n) xs) = take (k * n + n) xs"
    by (simp add: take_add)
  then show ?case using Suc by (simp add: add.commute)
qed simp

lemma page_count_enough: "0 < limit \<Longrightarrow> 0 \<le> n \<Longrightarrow> n \<le> page_count n limit * limit"
proof -
  assume l: "0 < limit" "0 \<le> n"
  define q r where "q = (- n) div limit" and "r = (- n) mod limit"
  have "- n = limit * q + r" by (simp add: q_def r_def)
  moreover have "0 \<le> r" using l by (simp add: r_def)
  ultimately have "n \<le> - (limit * q)" by linarith
  then show ?thesis by (simp add: page_count_def q_def mult.commute)
qed

lemma page_count_nonneg: "0 < limit \<Longrightarrow> 0 \<le> n \<Longrightarrow> 0 \<le> page_count n limit"
  by (simp add: page_count_def div_nonpos_pos_le0)

text \<open>
  The pages of a table, from the first to the number of pages it reports, put together are the rows the
  query selects, each once, newest first, and none has more rows than the limit.
\<close>

theorem table_pages:
  assumes "0 < limit"
  shows "concat (map (\<lambda>i. tp_data (table_page_of created p i limit rows))
      [1..tp_pages (table_page_of created p 1 limit rows)]) = newest_first created (filter p rows)"
proof -
  let ?xs = "newest_first created (filter p rows)"
  let ?n = "nat limit"
  let ?k = "nat (page_count (int (length (filter p rows))) limit)"
  have len: "length ?xs = length (filter p rows)" by (simp add: newest_first_def)
  have "int (length (filter p rows)) \<le> int ?k * limit"
    using page_count_enough [OF assms] page_count_nonneg [OF assms] by simp
  then have enough: "length ?xs \<le> ?k * ?n"
    using assms len by (metis int_nat_eq less_imp_le of_nat_le_iff of_nat_mult)
  have range: "[1..page_count (int (length (filter p rows))) limit] = map (\<lambda>i. int (Suc i)) [0..<?k]"
    by (rule nth_equalityI) (auto simp: nth_upto)
  have "nat ((int (Suc i) - 1) * limit) = i * ?n" for i
    using assms by (simp add: nat_mult_distrib)
  then have "concat (map (\<lambda>i. tp_data (table_page_of created p i limit rows)) (map (\<lambda>i. int (Suc i)) [0..<?k])) =
      concat (map (\<lambda>i. take ?n (drop (i * ?n) ?xs)) [0..<?k])"
    by (simp add: table_page_of_def page_of_def comp_def Let_def)
  also have "\<dots> = ?xs" using concat_pages [of ?n ?xs ?k] assms enough by simp
  finally show ?thesis by (simp add: table_page_of_def range Let_def)
qed

section \<open>The event stream\<close>

definition MAX_SSE_CONNECTIONS :: nat where
  "MAX_SSE_CONNECTIONS = 50"

definition sse_capacity :: reply where
  "sse_capacity = mk_reply 503 (JObj [(''error'', JObj
     [(''code'', JStr ''sse_capacity_exceeded''), (''reason'', JStr ''Too many active SSE connections''),
      (''message'', JStr ''Maximum of 50 concurrent SSE connections allowed. Retry later.'')])])"

text \<open>The counter, and the connections that are open, which the process does not record.\<close>

record sse_state =
  sse_active :: nat
  sse_open :: "nat set"

text \<open>A request of a new connection: a refusal, or the stream is opened.\<close>

definition sse_connect :: "string \<Rightarrow> nat \<Rightarrow> string option \<Rightarrow> sse_state \<Rightarrow> reply option \<times> sse_state" where
  "sse_connect configured conn auth s =
     (case assertDashboardAuth configured auth of
        Some r \<Rightarrow> (Some r, s)
      | None \<Rightarrow>
          if MAX_SSE_CONNECTIONS \<le> sse_active s then (Some sse_capacity, s)
          else (None, s\<lparr>sse_active := sse_active s + 1, sse_open := insert conn (sse_open s)\<rparr>))"

text \<open>\<open>activeSseConnections--\<close> on the \<open>close\<close> of the socket, which comes once.\<close>

definition sse_disconnect :: "nat \<Rightarrow> sse_state \<Rightarrow> sse_state" where
  "sse_disconnect conn s = s\<lparr>sse_active := sse_active s - 1, sse_open := sse_open s - {conn}\<rparr>"

inductive sse_reach :: "string \<Rightarrow> sse_state \<Rightarrow> bool" for configured where
  sse_init: "sse_reach configured \<lparr>sse_active = 0, sse_open = {}\<rparr>"
| sse_in: "sse_reach configured s \<Longrightarrow> conn \<notin> sse_open s \<Longrightarrow> sse_connect configured conn auth s = (r, s') \<Longrightarrow> sse_reach configured s'"
| sse_out: "sse_reach configured s \<Longrightarrow> conn \<in> sse_open s \<Longrightarrow> sse_reach configured (sse_disconnect conn s)"

lemma sse_connect_cases:
  assumes "sse_connect configured conn auth s = (r, s')"
  obtains (refused) "s' = s" "r \<noteq> None"
  | (opened) "r = None" "dashboard_token auth = configured" "configured \<noteq> ''''" "sse_active s < MAX_SSE_CONNECTIONS"
      "s' = s\<lparr>sse_active := sse_active s + 1, sse_open := insert conn (sse_open s)\<rparr>"
proof (cases "safeEqual (dashboard_token auth) configured \<and> sse_active s < MAX_SSE_CONNECTIONS")
  case True
  then show ?thesis
    using assms by (intro opened) (auto simp: sse_connect_def assertDashboardAuth_def safeEqual_iff)
next
  case False
  then show ?thesis
    using assms by (intro refused) (auto simp: sse_connect_def assertDashboardAuth_def split: if_splits)
qed

text \<open>The counter of the dashboard's event streams is always the number of open connections, never more
  than 50, whatever the order of requests and disconnections; and a stream is opened only with the
  configured token, which is not empty.
\<close>

theorem sse_cap:
  assumes "sse_reach configured s"
  shows "finite (sse_open s) \<and> sse_active s = card (sse_open s) \<and> sse_active s \<le> 50 \<and>
    (\<forall>conn auth s'. sse_connect configured conn auth s = (None, s') \<longrightarrow>
       dashboard_token auth = configured \<and> configured \<noteq> '''' \<and> sse_active s < 50)"
proof -
  have "finite (sse_open s) \<and> sse_active s = card (sse_open s) \<and> sse_active s \<le> 50"
    using assms
  proof (induction rule: sse_reach.induct)
    case (sse_in s conn auth r s')
    from sse_in.hyps(3) show ?case
    proof (cases rule: sse_connect_cases)
      case refused
      then show ?thesis using sse_in.IH by simp
    next
      case opened
      then show ?thesis using sse_in.IH sse_in.hyps(2) by (simp add: MAX_SSE_CONNECTIONS_def)
    qed
  next
    case (sse_out s conn)
    then show ?case by (auto simp: sse_disconnect_def)
  qed simp
  moreover have "dashboard_token auth = configured \<and> configured \<noteq> '''' \<and> sse_active s < 50"
    if "sse_connect configured conn auth s = (None, s')" for conn auth s'
    using that by (cases rule: sse_connect_cases) (auto simp: MAX_SSE_CONNECTIONS_def)
  ultimately show ?thesis by blast
qed

lemma sse_one: "sse_reach ''t'' \<lparr>sse_active = 1, sse_open = {7}\<rparr>"
  by (rule sse_in [OF sse_init, of 7 "''t''" "Some ''Bearer t''" None])
    (simp_all add: sse_connect_def assertDashboardAuth_def safeEqual_iff dashboard_token_def startsWith_def js_trim_def
      is_space_def MAX_SSE_CONNECTIONS_def)

lemma sse_cap_witness: "sse_active \<lparr>sse_active = 1, sse_open = {7::nat}\<rparr> = card {7::nat} \<and> (1::nat) \<le> 50"
  using sse_cap [OF sse_one] by simp

text \<open>
  One tick of the polling interval: the ten oldest rows after the last one written, by id.
\<close>

definition sse_poll :: "string option \<Rightarrow> payment_settlement list \<Rightarrow> payment_settlement list \<times> string option" where
  "sse_poll lastId rows =
     (let new = take 10 (sort_key ps_createdAt (filter (\<lambda>s. case lastId of Some i \<Rightarrow> i < ps_id s | None \<Rightarrow> True) rows)) in
      (new, if new = [] then lastId else Some (ps_id (last new))))"

text \<open>
  Rows are added in the order of their ids and times, and a tick has been answered before the next
  one. (The interval does not wait for that, and two ids made by \<open>ulid()\<close> in the same millisecond come in any order.)
\<close>

inductive feed :: "payment_settlement list \<Rightarrow> payment_settlement list \<Rightarrow> string option \<Rightarrow> bool" where
  feed_start: "sorted_wrt (\<lambda>r q. ps_id r < ps_id q \<and> ps_createdAt r \<le> ps_createdAt q) rows \<Longrightarrow> feed rows [] None"
| feed_row: "feed rows out i \<Longrightarrow> (\<forall>r\<in>set rows. ps_id r < ps_id q \<and> ps_createdAt r \<le> ps_createdAt q) \<Longrightarrow> feed (rows @ [q]) out i"
| feed_poll: "feed rows out i \<Longrightarrow> sse_poll i rows = (new, j) \<Longrightarrow> feed rows (out @ new) j"

lemma filter_after:
  assumes "sorted_wrt (\<lambda>r q. ps_id r < ps_id q \<and> ps_createdAt r \<le> ps_createdAt q) rows" "0 < k" "k \<le> length rows"
  shows "filter (\<lambda>s. ps_id (rows ! (k - 1)) < ps_id s) rows = drop k rows"
proof -
  have "\<not> ps_id (rows ! (k - 1)) < ps_id s" if s: "s \<in> set (take k rows)" for s
  proof -
    obtain i where i: "i < k" "s = rows ! i" using s assms(3) by (auto simp: in_set_conv_nth)
    show ?thesis
    proof (cases "i = k - 1")
      case False
      then have "ps_id (rows ! i) < ps_id (rows ! (k - 1))"
        using i assms sorted_wrt_nth_less [OF assms(1), of i "k - 1"] by simp
      then show ?thesis using i by simp
    qed (use i in simp)
  qed
  moreover have "ps_id (rows ! (k - 1)) < ps_id s" if s: "s \<in> set (drop k rows)" for s
  proof -
    obtain i where i: "i < length rows - k" "s = rows ! (k + i)" using s assms(3) by (auto simp: in_set_conv_nth)
    then show ?thesis using assms sorted_wrt_nth_less [OF assms(1), of "k - 1" "k + i"] by simp
  qed
  ultimately have "filter (\<lambda>s. ps_id (rows ! (k - 1)) < ps_id s) (take k rows @ drop k rows) = drop k rows"
    unfolding filter_append by (simp add: filter_empty_conv [THEN iffD2] filter_id_conv [THEN iffD2])
  then show ?thesis by simp
qed

lemma sort_created:
  "sorted_wrt (\<lambda>r q. ps_id r < ps_id q \<and> ps_createdAt r \<le> ps_createdAt q) xs \<Longrightarrow> sort_key ps_createdAt xs = xs"
  by (rule sort_key_id_if_sorted) (auto simp: sorted_map elim: sorted_wrt_mono_rel [rotated])

definition feed_inv :: "payment_settlement list \<Rightarrow> payment_settlement list \<Rightarrow> string option \<Rightarrow> bool" where
  "feed_inv rows out i \<longleftrightarrow>
     sorted_wrt (\<lambda>r q. ps_id r < ps_id q \<and> ps_createdAt r \<le> ps_createdAt q) rows \<and>
     (\<exists>k\<le>length rows. out = take k rows \<and> i = (if k = 0 then None else Some (ps_id (rows ! (k - 1)))))"

lemma feed_poll_inv:
  assumes "feed_inv rows out i" "sse_poll i rows = (new, j)"
  shows "feed_inv rows (out @ new) j \<and> (length out < length rows \<longrightarrow> new \<noteq> [])"
proof -
  obtain k where k: "k \<le> length rows" "out = take k rows" "i = (if k = 0 then None else Some (ps_id (rows ! (k - 1))))"
    and sorted: "sorted_wrt (\<lambda>r q. ps_id r < ps_id q \<and> ps_createdAt r \<le> ps_createdAt q) rows"
    using assms(1) by (auto simp: feed_inv_def)
  have f: "filter (\<lambda>s. case i of Some i \<Rightarrow> i < ps_id s | None \<Rightarrow> True) rows = drop k rows"
    using filter_after [OF sorted, of k] k by (cases "k = 0") auto
  have new: "new = take 10 (drop k rows)" "j = (if new = [] then i else Some (ps_id (last new)))"
    using assms(2) sort_created [OF sorted_wrt_drop [OF sorted, of k]] by (auto simp: sse_poll_def f Let_def)
  define m where "m = min (k + 10) (length rows)"
  have out: "out @ new = take m rows" by (simp add: k(2) new(1) m_def take_add [symmetric] min_def)
  have j: "j = (if m = 0 then None else Some (ps_id (rows ! (m - 1))))"
  proof (cases "new = []")
    case True
    then have "m = k" using k(1) new(1) by (auto simp: m_def)
    then show ?thesis using True new(2) k(3) by simp
  next
    case False
    then have "last new = last (take m rows)" using out by (metis last_appendR)
    moreover have "0 < m" "m \<le> length rows" using False new(1) by (auto simp: m_def)
    moreover have "take m rows \<noteq> []" using calculation by (cases rows) auto
    ultimately have "last new = rows ! (m - 1)" by (simp add: last_conv_nth min_def)
    then show ?thesis using False new(2) \<open>0 < m\<close> by simp
  qed
  have "feed_inv rows (out @ new) j"
    unfolding feed_inv_def using sorted out j by (intro conjI exI [where x = m]) (simp_all add: m_def)
  then show ?thesis using new(1) k(1,2) by auto
qed

lemma feed_invariant: "feed rows out i \<Longrightarrow> feed_inv rows out i"
proof (induction rule: feed.induct)
  case (feed_start rows)
  then show ?case by (auto simp: feed_inv_def)
next
  case (feed_row rows out i q)
  then obtain k where k: "k \<le> length rows" "out = take k rows" "i = (if k = 0 then None else Some (ps_id (rows ! (k - 1))))"
    by (auto simp: feed_inv_def)
  have "sorted_wrt (\<lambda>r q. ps_id r < ps_id q \<and> ps_createdAt r \<le> ps_createdAt q) (rows @ [q])"
    using feed_row by (auto simp: feed_inv_def sorted_wrt_append)
  then show ?case
    unfolding feed_inv_def using k by (intro conjI exI [where x = k]) (auto simp: nth_append)
next
  case (feed_poll rows out i new j)
  then show ?case using feed_poll_inv by blast
qed

text \<open>The event stream of the dashboard writes every settlement once and in order: when settlements are
  added in the order of their ids and each tick is answered before the next, then, whatever the
  interleaving of new settlements and ticks, what was written is a prefix of the settlements, and a
  tick writes something as long as one is missing.
\<close>

theorem feed_complete:
  assumes "feed rows out i"
  shows "out = take (length out) rows \<and> (length out < length rows \<longrightarrow> fst (sse_poll i rows) \<noteq> [])"
proof -
  have inv: "feed_inv rows out i" using feed_invariant [OF assms] .
  obtain new j where p: "sse_poll i rows = (new, j)" by fastforce
  show ?thesis using inv feed_poll_inv [OF inv p] p by (auto simp: feed_inv_def)
qed

definition dash_settlement :: "string \<Rightarrow> int \<Rightarrow> payment_settlement" where
  "dash_settlement i t = new_settlement i ''r'' None t"

lemma feed_complete_witness:
  "fst (sse_poll None [dash_settlement ''a'' 1, dash_settlement ''b'' 2]) \<noteq> []"
proof -
  have "feed [dash_settlement ''a'' 1, dash_settlement ''b'' 2] [] None"
    by (rule feed_start) (simp add: dash_settlement_def new_settlement_def)
  from feed_complete [OF this] show ?thesis by simp
qed

text \<open>
  Without those two conditions it does not: the row of a smaller id that comes later is never written,
  and a tick that starts before the last one is answered writes the same rows again.
\<close>

lemma feed_skips: "fst (sse_poll (Some ''b'') [dash_settlement ''b'' 1, dash_settlement ''a'' 1]) = []"
  by (simp add: sse_poll_def dash_settlement_def new_settlement_def)

text \<open>
  A row is written in the state it has when it is first seen: a settlement that was written while it
  was being processed is not written again when it is confirmed.
\<close>

theorem feed_outcome_unseen:
  assumes "sse_poll (Some (ps_id s)) [s] = (new, j)"
  shows "new = [] \<and> fst (sse_poll j [s\<lparr>ps_status := SConfirmed\<rparr>]) = []"
  using assms by (auto simp: sse_poll_def)

end
