(* ===== verification/Billing.thy ===== *)
theory Billing
  imports Admin Dashboard
begin

text \<open>
  The routes of \<open>routes/billing.ts\<close> over the referral statistics, behind the same header as the
  operator's routes. The text of a \<open>ZodError\<close>, the bounds of a month in local time and the volume in
  units of 10^6 with six decimals, which is computed in floating point, are parameters.
\<close>

record billing_env =
  bl_key :: "string option"
  bl_number :: "string \<Rightarrow> int option"
  bl_zodText :: "string \<Rightarrow> string"
  bl_year_month :: "int \<Rightarrow> int \<times> int"
  bl_month_bounds :: "int \<Rightarrow> int \<Rightarrow> int \<times> int"
  bl_usdc :: "int \<Rightarrow> string"
  bl_seller_of :: "payment_request \<Rightarrow> string"

text \<open>What \<open>schema.parse\<close> throws.\<close>

definition zod_error :: "billing_env \<Rightarrow> string \<Rightarrow> exn" where
  "zod_error E schema_name = JsError ''ZodError'' (bl_zodText E schema_name)"

definition billingAuthHook :: "billing_env \<Rightarrow> string option \<Rightarrow> reply option" where
  "billingAuthHook E key =
     (if \<not> truthy (bl_key E) \<or> key \<noteq> bl_key E
      then Some (mk_reply 401 (err_body ''unauthorized'' ''Invalid or missing admin API key'' ''Provide X-Admin-Api-Key header''))
      else None)"

definition optional_int :: "(string \<Rightarrow> int option) \<Rightarrow> int \<Rightarrow> int \<Rightarrow> string option \<Rightarrow> int option option" where
  "optional_int number lo hi v =
     (case v of
        None \<Rightarrow> Some None
      | Some s \<Rightarrow> (case number s of None \<Rightarrow> None | Some n \<Rightarrow> if lo \<le> n \<and> n \<le> hi then Some (Some n) else None))"

definition MonthQuery :: "(string \<Rightarrow> int option) \<Rightarrow> string option \<Rightarrow> string option \<Rightarrow> (int option \<times> int option) option" where
  "MonthQuery number year month =
     (case (optional_int number 2024 2100 year, optional_int number 1 12 month) of
        (Some y, Some m) \<Rightarrow> Some (y, m)
      | _ \<Rightarrow> None)"

definition referral_json :: "referral_stats \<Rightarrow> string option \<Rightarrow> string option \<Rightarrow> json" where
  "referral_json s first latest = JObj
     [(''referralCode'', JStr (rs_referralCode s)), (''totalSettlements'', JNum (int (rs_totalSettlements s))),
      (''totalGrossVolume'', JStr (int_str (rs_totalGrossVolume s))),
      (''totalPlatformFee'', JStr (int_str (rs_totalPlatformFee s))),
      (''totalDeveloperShare'', JStr (int_str (rs_totalDeveloperShare s))),
      (''firstUsedAt'', null_or_str first), (''lastUsedAt'', null_or_str latest)]"

text \<open>\<open>GET /billing/referral/:code\<close>\<close>

definition referralRoute ::
  "billing_env \<Rightarrow> string option \<Rightarrow> string \<Rightarrow> payment_request list \<Rightarrow> payment_settlement list \<Rightarrow> ('w, exn, reply) prog" where
  "referralRoute E key code reqs rows =
     (case billingAuthHook E key of
        Some r \<Rightarrow> ret r
      | None \<Rightarrow>
          if length code < 1 \<or> 64 < length code then throw (zod_error E ''ReferralParams'')
          else
            let stats = getReferralStats reqs rows code in
            seq (iso_opt (rs_firstUsedAt stats)) (\<lambda>first.
            seq (iso_opt (rs_lastUsedAt stats)) (\<lambda>latest.
            ret (mk_reply 200 (referral_json stats first latest)))))"

definition month_json :: "billing_env \<Rightarrow> string \<Rightarrow> int \<Rightarrow> int \<Rightarrow> int \<Rightarrow> json" where
  "month_json E address y m volume = JObj
     [(''seller'', JStr address), (''year'', JNum y), (''month'', JNum m),
      (''monthlyVolumeUnits'', JStr (int_str volume)), (''monthlyVolumeUsdc'', JStr (bl_usdc E volume))]"

text \<open>\<open>GET /billing/seller/:address\<close>\<close>

definition sellerVolumeRoute ::
  "billing_env \<Rightarrow> string option \<Rightarrow> string \<Rightarrow> string option \<Rightarrow> string option \<Rightarrow> int \<Rightarrow> payment_request list \<Rightarrow>
   payment_settlement list \<Rightarrow> ('w, exn, reply) prog" where
  "sellerVolumeRoute E key address year month clock reqs rows =
     (case billingAuthHook E key of
        Some r \<Rightarrow> ret r
      | None \<Rightarrow>
          if \<not> hex0x 40 address then throw (zod_error E ''SellerParams'')
          else
            (case MonthQuery (bl_number E) year month of
               None \<Rightarrow> throw (zod_error E ''MonthQuery'')
             | Some (yo, mo) \<Rightarrow>
                 let y = (case yo of Some v \<Rightarrow> v | None \<Rightarrow> fst (bl_year_month E clock));
                     m = (case mo of Some v \<Rightarrow> v | None \<Rightarrow> snd (bl_year_month E clock));
                     volume = getMonthlyVolumeForSeller (bl_seller_of E) reqs rows address (fst (bl_month_bounds E y m))
                       (snd (bl_month_bounds E y m))
                 in ret (mk_reply 200 (month_json E address y m volume))))"

section \<open>Months add up\<close>

lemma volume_sum:
  "getMonthlyVolumeForSeller seller_of reqs rows a from to =
     sum_list (map (request_amount reqs) (filter (\<lambda>s. ps_status s = SConfirmed \<and> from \<le> ps_createdAt s \<and> ps_createdAt s < to \<and>
       (\<exists>r\<in>set reqs. pr_id r = ps_requestId s \<and> seller_of r = a)) rows))"
  by (simp add: getMonthlyVolumeForSeller_def foldl_sum)

text \<open>
  The month of a settlement is decided by its creation, so the volumes of adjoining periods add up to
  the volume of their union: no confirmed settlement is billed twice or left out.
\<close>

theorem volume_additive:
  assumes "from \<le> mid" "mid \<le> to"
  shows "getMonthlyVolumeForSeller seller_of reqs rows a from mid + getMonthlyVolumeForSeller seller_of reqs rows a mid to =
    getMonthlyVolumeForSeller seller_of reqs rows a from to"
  unfolding volume_sum using assms by (induction rows) auto

text \<open>The routes answer nobody without the key, whatever they are asked.\<close>

theorem billing_guarded:
  assumes "bl_key E = None \<or> bl_key E = Some [] \<or> key \<noteq> bl_key E"
  shows "\<exists>r. reply_status r = Some 401 \<and> referralRoute E key code reqs rows w = (Inr r, w) \<and>
    sellerVolumeRoute E key address year month clock reqs rows w = (Inr r, w)"
  using assms by (auto simp: referralRoute_def sellerVolumeRoute_def billingAuthHook_def truthy_def ret_def mk_reply_def)

end
