(* ===== verification/Config.thy ===== *)
theory Config
  imports Admin
begin

text \<open>
  The environment variables, \<open>config.ts\<close> and \<open>secrets.ts\<close>, both read once and kept. \<open>process.env\<close> is a
  list of names and values. \<open>Number\<close> followed by \<open>int()\<close>, the URL check and the text of the issues
  are parameters; \<open>process.exit(1)\<close> is the outcome \<open>Inl\<close> with the issues that are printed.
\<close>

section \<open>Combinators\<close>

text \<open>\<open>z.coerce.number().int().min(lo).max(hi).default(d)\<close>\<close>

definition zcoerce :: "(string \<Rightarrow> int option) \<Rightarrow> int \<Rightarrow> int option \<Rightarrow> int \<Rightarrow> json option \<Rightarrow> issues + int" where
  "zcoerce number lo hi d v =
     (case v of
        None \<Rightarrow> Inr d
      | Some (JStr s) \<Rightarrow>
          (case number s of
             None \<Rightarrow> Inl [[]]
           | Some n \<Rightarrow> if lo \<le> n \<and> (case hi of Some h \<Rightarrow> n \<le> h | None \<Rightarrow> True) then Inr n else Inl [[]])
      | _ \<Rightarrow> Inl [[]])"

definition zenum :: "string list \<Rightarrow> json option \<Rightarrow> issues + string" where
  "zenum xs = zstring (\<lambda>s. s \<in> set xs)"

text \<open>The length counts in production only, and \<open>NODE_ENV\<close> is read from the environment itself.\<close>

definition secureToken :: "string \<Rightarrow> nat \<Rightarrow> json option \<Rightarrow> issues + string" where
  "secureToken node_env minLen =
     zstring (\<lambda>s. 1 \<le> length s \<and> (node_env = ''production'' \<longrightarrow> minLen \<le> length s))"

definition log_levels :: "string list" where
  "log_levels = [''trace'', ''debug'', ''info'', ''warn'', ''error'', ''fatal'']"

definition node_envs :: "string list" where
  "node_envs = [''development'', ''test'', ''production'']"

section \<open>The configuration\<close>

record config =
  cf_DATABASE_URL :: string
  cf_REDIS_URL :: string
  cf_FACILITATOR_PRIVATE_KEY :: string
  cf_RPC_URL :: string
  cf_RPC_URL_FALLBACK :: string
  cf_MIN_CONFIRMATIONS :: int
  cf_RPC_CALL_TIMEOUT_MS :: int
  cf_CIRCUIT_BREAKER_FAILURE_THRESHOLD :: int
  cf_CIRCUIT_BREAKER_RESET_TIMEOUT_MS :: int
  cf_PLATFORM_FEE_BPS :: int
  cf_DEVELOPER_SHARE_BPS :: int
  cf_HOST :: string
  cf_PORT :: int
  cf_RATE_LIMIT_MAX :: int
  cf_RATE_LIMIT_WINDOW_MS :: int
  cf_RATE_LIMIT_GLOBAL :: int
  cf_RATE_LIMIT_SELLER_VERIFY :: int
  cf_RATE_LIMIT_SELLER_SETTLE :: int
  cf_METRICS_TOKEN :: string
  cf_DASHBOARD_TOKEN :: string
  cf_ADMIN_API_KEY :: string
  cf_LOG_LEVEL :: string
  cf_NODE_ENV :: string

definition ConfigSchema :: "(string \<Rightarrow> int option) \<Rightarrow> (string \<Rightarrow> bool) \<Rightarrow> string \<Rightarrow> json option \<Rightarrow> issues + config" where
  "ConfigSchema number is_url node_env = zobject (\<lambda>kvs.
     zand (zand (zand (zand (zand (zand (zand (zand (zand (zand (zand (zand (zand (zand (zand (zand (zand (zand (zand (zand (zand (zand (zand (Inr config.make)
       (zfield kvs ''DATABASE_URL'' (zstring (\<lambda>s. is_url s \<and> 1 \<le> length s))))
       (zfield kvs ''REDIS_URL'' (zstring (\<lambda>s. 1 \<le> length s))))
       (zfield kvs ''FACILITATOR_PRIVATE_KEY'' (zstring (hex0x 64))))
       (zfield kvs ''RPC_URL'' (zstring is_url)))
       (zfield kvs ''RPC_URL_FALLBACK'' (zdefault '''' (zstring (\<lambda>_. True)))))
       (zfield kvs ''MIN_CONFIRMATIONS'' (zcoerce number 1 (Some 10) 2)))
       (zfield kvs ''RPC_CALL_TIMEOUT_MS'' (zcoerce number 1000 None 10000)))
       (zfield kvs ''CIRCUIT_BREAKER_FAILURE_THRESHOLD'' (zcoerce number 1 None 5)))
       (zfield kvs ''CIRCUIT_BREAKER_RESET_TIMEOUT_MS'' (zcoerce number 1000 None 30000)))
       (zfield kvs ''PLATFORM_FEE_BPS'' (zcoerce number 0 (Some 10000) 50)))
       (zfield kvs ''DEVELOPER_SHARE_BPS'' (zcoerce number 0 (Some 10000) 20)))
       (zfield kvs ''HOST'' (zdefault ''0.0.0.0'' (zstring (\<lambda>_. True)))))
       (zfield kvs ''PORT'' (zcoerce number 1 (Some 65535) 3000)))
       (zfield kvs ''RATE_LIMIT_MAX'' (zcoerce number 1 None 100)))
       (zfield kvs ''RATE_LIMIT_WINDOW_MS'' (zcoerce number 1000 None 60000)))
       (zfield kvs ''RATE_LIMIT_GLOBAL'' (zcoerce number 1 None 200)))
       (zfield kvs ''RATE_LIMIT_SELLER_VERIFY'' (zcoerce number 1 None 60)))
       (zfield kvs ''RATE_LIMIT_SELLER_SETTLE'' (zcoerce number 1 None 30)))
       (zfield kvs ''METRICS_TOKEN'' (secureToken node_env 32)))
       (zfield kvs ''DASHBOARD_TOKEN'' (secureToken node_env 32)))
       (zfield kvs ''ADMIN_API_KEY'' (secureToken node_env 32)))
       (zfield kvs ''LOG_LEVEL'' (zdefault ''info'' (zenum log_levels))))
       (zfield kvs ''NODE_ENV'' (zdefault ''development'' (zenum node_envs))))"

type_synonym environment = "(string \<times> string) list"

definition env_json :: "environment \<Rightarrow> json option" where
  "env_json env = Some (JObj (map (\<lambda>(k, v). (k, JStr v)) env))"

definition env_node :: "environment \<Rightarrow> string" where
  "env_node env = (case map_of env ''NODE_ENV'' of Some v \<Rightarrow> v | None \<Rightarrow> ''development'')"

definition loadConfig ::
  "(string \<Rightarrow> int option) \<Rightarrow> (string \<Rightarrow> bool) \<Rightarrow> environment \<Rightarrow> (config option, issues, config) prog" where
  "loadConfig number is_url env = (\<lambda>s.
     case ConfigSchema number is_url (env_node env) (env_json env) of
       Inl is \<Rightarrow> (Inl is, s)
     | Inr c \<Rightarrow> (Inr c, Some c))"

definition getConfig ::
  "(string \<Rightarrow> int option) \<Rightarrow> (string \<Rightarrow> bool) \<Rightarrow> environment \<Rightarrow> (config option, issues, config) prog" where
  "getConfig number is_url env = (\<lambda>s. case s of None \<Rightarrow> loadConfig number is_url env s | Some c \<Rightarrow> (Inr c, s))"

section \<open>The secrets\<close>

record secrets =
  sx_NODE_ENV :: string
  sx_PORT :: int
  sx_DATABASE_URL :: string
  sx_REDIS_URL :: string
  sx_RELAYER_PRIVATE_KEY :: string
  sx_SUPPORTED_NETWORK :: string
  sx_SUPPORTED_ASSET :: string
  sx_RPC_URL :: string
  sx_RPC_URL_FALLBACK :: "string option"
  sx_FEE_BASIS_POINTS :: int
  sx_DEVELOPER_SHARE_BPS :: int
  sx_FREE_TIER_MONTHLY :: int
  sx_LOG_LEVEL :: string
  sx_SERVICE_VERSION :: string

definition SecretsSchema :: "(string \<Rightarrow> int option) \<Rightarrow> (string \<Rightarrow> bool) \<Rightarrow> json option \<Rightarrow> issues + secrets" where
  "SecretsSchema number is_url = zobject (\<lambda>kvs.
     zand (zand (zand (zand (zand (zand (zand (zand (zand (zand (zand (zand (zand (zand (Inr secrets.make)
       (zfield kvs ''NODE_ENV'' (zdefault ''development'' (zenum node_envs))))
       (zfield kvs ''PORT'' (zcoerce number 1 (Some 65535) 3000)))
       (zfield kvs ''DATABASE_URL'' (zstring is_url)))
       (zfield kvs ''REDIS_URL'' (zstring is_url)))
       (zfield kvs ''RELAYER_PRIVATE_KEY'' (zstring (hex0x 64))))
       (zfield kvs ''SUPPORTED_NETWORK'' (zdefault ''base-mainnet'' (zstring (\<lambda>s. 1 \<le> length s)))))
       (zfield kvs ''SUPPORTED_ASSET'' (zdefault ''USDC'' (zstring (\<lambda>s. 1 \<le> length s)))))
       (zfield kvs ''RPC_URL'' (zstring is_url)))
       (zfield kvs ''RPC_URL_FALLBACK'' (zoptional (zstring is_url))))
       (zfield kvs ''FEE_BASIS_POINTS'' (zcoerce number 0 (Some 1000) 50)))
       (zfield kvs ''DEVELOPER_SHARE_BPS'' (zcoerce number 0 (Some 10000) 2000)))
       (zfield kvs ''FREE_TIER_MONTHLY'' (zcoerce number 0 None 0)))
       (zfield kvs ''LOG_LEVEL'' (zdefault ''info'' (zenum log_levels))))
       (zfield kvs ''SERVICE_VERSION'' (zdefault ''0.1.0'' (zstring (\<lambda>_. True)))))"

text \<open>What was loaded, and the lines written to the standard output, in UTF-8.\<close>

record secrets_state =
  st_secrets :: "secrets option"
  st_output :: "string list"

definition fingerprint_line :: "secrets \<Rightarrow> string" where
  "fingerprint_line s = ''[secrets] Loaded '' @ [CHR 0xE2, CHR 0x80, CHR 0x94] @ '' relayer key fingerprint: '' @ take 8 (sx_RELAYER_PRIVATE_KEY s) @ ''...'' @ [CHR 0x0A]"

definition loadSecrets ::
  "(string \<Rightarrow> int option) \<Rightarrow> (string \<Rightarrow> bool) \<Rightarrow> (issues \<Rightarrow> string) \<Rightarrow> environment \<Rightarrow> (secrets_state, exn, secrets) prog" where
  "loadSecrets number is_url issue_lines env = (\<lambda>st.
     case st_secrets st of
       Some s \<Rightarrow> (Inr s, st)
     | None \<Rightarrow>
         (case SecretsSchema number is_url (env_json env) of
            Inl is \<Rightarrow> (Inl (plainError (''[secrets] Invalid environment:'' @ [CHR 0x0A] @ issue_lines is)), st)
          | Inr s \<Rightarrow> (Inr s, st\<lparr>st_secrets := Some s, st_output := st_output st @ [fingerprint_line s]\<rparr>)))"

definition resetSecrets :: "secrets_state \<Rightarrow> secrets_state" where
  "resetSecrets st = st\<lparr>st_secrets := None\<rparr>"

section \<open>What a configuration guarantees\<close>

lemma zcoerce_Inr: "zcoerce number lo hi d v = Inr n \<Longrightarrow> n = d \<or> lo \<le> n \<and> (\<forall>h. hi = Some h \<longrightarrow> n \<le> h)"
  by (auto simp: zcoerce_def split: option.splits json.splits if_splits)

lemma zcoerce_low: "zcoerce number lo hi d v = Inr n \<Longrightarrow> lo \<le> d \<Longrightarrow> lo \<le> n"
  using zcoerce_Inr by fastforce

lemma zcoerce_high: "zcoerce number lo (Some h) d v = Inr n \<Longrightarrow> d \<le> h \<Longrightarrow> n \<le> h"
  using zcoerce_Inr by fastforce

lemma secureToken_Inr: "secureToken e k v = Inr s \<Longrightarrow> v = Some (JStr s) \<and> s \<noteq> [] \<and> (e = ''production'' \<longrightarrow> k \<le> length s)"
  by (auto simp: secureToken_def)

lemma env_lookup: "map_of (map (\<lambda>(k, v). (k, JStr v)) env) x = map_option JStr (map_of env x)"
  by (induction env) auto

lemma zdefault_env: "zdefault d (zenum xs) v = Inr s \<Longrightarrow> v = None \<and> s = d \<or> v = Some (JStr s) \<and> s \<in> set xs"
  by (auto simp: zdefault_def zenum_def split: option.splits)

lemma ConfigSchema_tokens:
  assumes "ConfigSchema number is_url e (Some (JObj kvs)) = Inr c"
  shows "secureToken e 32 (map_of kvs ''METRICS_TOKEN'') = Inr (cf_METRICS_TOKEN c) \<and>
    secureToken e 32 (map_of kvs ''DASHBOARD_TOKEN'') = Inr (cf_DASHBOARD_TOKEN c) \<and>
    secureToken e 32 (map_of kvs ''ADMIN_API_KEY'') = Inr (cf_ADMIN_API_KEY c) \<and>
    zdefault ''development'' (zenum node_envs) (map_of kvs ''NODE_ENV'') = Inr (cf_NODE_ENV c) \<and>
    map_of kvs ''FACILITATOR_PRIVATE_KEY'' = Some (JStr (cf_FACILITATOR_PRIVATE_KEY c)) \<and>
    hex0x 64 (cf_FACILITATOR_PRIVATE_KEY c)"
  using assms by (clarsimp simp: ConfigSchema_def config.defs)

lemma ConfigSchema_numbers:
  assumes "ConfigSchema number is_url e (Some (JObj kvs)) = Inr c"
  shows "zcoerce number 1 (Some 10) 2 (map_of kvs ''MIN_CONFIRMATIONS'') = Inr (cf_MIN_CONFIRMATIONS c) \<and>
    zcoerce number 1 None 5 (map_of kvs ''CIRCUIT_BREAKER_FAILURE_THRESHOLD'') = Inr (cf_CIRCUIT_BREAKER_FAILURE_THRESHOLD c) \<and>
    zcoerce number 1000 None 30000 (map_of kvs ''CIRCUIT_BREAKER_RESET_TIMEOUT_MS'') = Inr (cf_CIRCUIT_BREAKER_RESET_TIMEOUT_MS c) \<and>
    zcoerce number 0 (Some 10000) 50 (map_of kvs ''PLATFORM_FEE_BPS'') = Inr (cf_PLATFORM_FEE_BPS c) \<and>
    zcoerce number 0 (Some 10000) 20 (map_of kvs ''DEVELOPER_SHARE_BPS'') = Inr (cf_DEVELOPER_SHARE_BPS c) \<and>
    zcoerce number 1 (Some 65535) 3000 (map_of kvs ''PORT'') = Inr (cf_PORT c) \<and>
    zcoerce number 1 None 60 (map_of kvs ''RATE_LIMIT_SELLER_VERIFY'') = Inr (cf_RATE_LIMIT_SELLER_VERIFY c) \<and>
    zcoerce number 1 None 30 (map_of kvs ''RATE_LIMIT_SELLER_SETTLE'') = Inr (cf_RATE_LIMIT_SELLER_SETTLE c)"
  using assms by (clarsimp simp: ConfigSchema_def config.defs)

lemma ConfigSchema_limits:
  assumes "ConfigSchema number is_url e (Some (JObj kvs)) = Inr c"
  shows "zcoerce number 1000 None 10000 (map_of kvs ''RPC_CALL_TIMEOUT_MS'') = Inr (cf_RPC_CALL_TIMEOUT_MS c) \<and>
    zcoerce number 1 None 100 (map_of kvs ''RATE_LIMIT_MAX'') = Inr (cf_RATE_LIMIT_MAX c) \<and>
    zcoerce number 1000 None 60000 (map_of kvs ''RATE_LIMIT_WINDOW_MS'') = Inr (cf_RATE_LIMIT_WINDOW_MS c) \<and>
    zcoerce number 1 None 200 (map_of kvs ''RATE_LIMIT_GLOBAL'') = Inr (cf_RATE_LIMIT_GLOBAL c)"
  using assms by (clarsimp simp: ConfigSchema_def config.defs)

lemma ConfigSchema_texts:
  assumes "ConfigSchema number is_url e (Some (JObj kvs)) = Inr c"
  shows "is_url (cf_DATABASE_URL c) \<and> cf_DATABASE_URL c \<noteq> [] \<and> cf_REDIS_URL c \<noteq> [] \<and> is_url (cf_RPC_URL c) \<and>
    zdefault ''info'' (zenum log_levels) (map_of kvs ''LOG_LEVEL'') = Inr (cf_LOG_LEVEL c) \<and>
    zdefault ''development'' (zenum node_envs) (map_of kvs ''NODE_ENV'') = Inr (cf_NODE_ENV c)"
  using assms by (clarsimp simp: ConfigSchema_def config.defs)

section \<open>The configuration in use\<close>

text \<open>C40. What a configuration that was loaded guarantees, whatever the environment: the three operator tokens
  are not empty and in production have at least 32 characters; the private key is 32 bytes in
  hexadecimal, and it is the value of its variable in the environment; the URLs of the database and of
  the RPC endpoint are URLs, that of Redis is not empty, the log level and the mode are among those
  listed; the confirmations, the RPC timeout, the breaker thresholds, the port and each of the five rate
  limits are in their ranges; the two fee shares make a valid configuration of the fee
  engine; and it stays in use whatever becomes of the environment.
\<close>

theorem config_sound:
  assumes "getConfig number is_url env None = (Inr c, s)"
  shows "(\<forall>t \<in> {cf_METRICS_TOKEN c, cf_DASHBOARD_TOKEN c, cf_ADMIN_API_KEY c}.
        t \<noteq> [] \<and> (map_of env ''NODE_ENV'' = Some ''production'' \<longrightarrow> 32 \<le> length t)) \<and>
    hex0x 64 (cf_FACILITATOR_PRIVATE_KEY c) \<and> map_of env ''FACILITATOR_PRIVATE_KEY'' = Some (cf_FACILITATOR_PRIVATE_KEY c) \<and>
    1 \<le> cf_MIN_CONFIRMATIONS c \<and> cf_MIN_CONFIRMATIONS c \<le> 10 \<and> 1 \<le> cf_CIRCUIT_BREAKER_FAILURE_THRESHOLD c \<and>
    1000 \<le> cf_CIRCUIT_BREAKER_RESET_TIMEOUT_MS c \<and> 1 \<le> cf_PORT c \<and> cf_PORT c < 2 ^ 16 \<and>
    1 \<le> cf_RATE_LIMIT_SELLER_VERIFY c \<and> 1 \<le> cf_RATE_LIMIT_SELLER_SETTLE c \<and>
    1000 \<le> cf_RPC_CALL_TIMEOUT_MS c \<and> 1 \<le> cf_RATE_LIMIT_MAX c \<and> 1000 \<le> cf_RATE_LIMIT_WINDOW_MS c \<and>
    1 \<le> cf_RATE_LIMIT_GLOBAL c \<and>
    is_url (cf_DATABASE_URL c) \<and> cf_DATABASE_URL c \<noteq> [] \<and> cf_REDIS_URL c \<noteq> [] \<and> is_url (cf_RPC_URL c) \<and>
    cf_LOG_LEVEL c \<in> set log_levels \<and> cf_NODE_ENV c \<in> set node_envs \<and>
    valid_fee_config (createFeeEngine (cf_PLATFORM_FEE_BPS c) (cf_DEVELOPER_SHARE_BPS c) units None) \<and>
    getConfig number' is_url' env' s = (Inr c, s)"
proof -
  have load: "ConfigSchema number is_url (env_node env) (Some (JObj (map (\<lambda>(k, v). (k, JStr v)) env))) = Inr c" "s = Some c"
    using assms by (auto simp: getConfig_def loadConfig_def env_json_def split: sum.splits)
  note T = ConfigSchema_tokens [OF load(1)] and N = ConfigSchema_numbers [OF load(1)]
  have tokens: "t \<noteq> [] \<and> (map_of env ''NODE_ENV'' = Some ''production'' \<longrightarrow> 32 \<le> length t)"
    if "t \<in> {cf_METRICS_TOKEN c, cf_DASHBOARD_TOKEN c, cf_ADMIN_API_KEY c}" for t
    using that T secureToken_Inr by (fastforce simp: env_node_def)
  have "1 \<le> cf_MIN_CONFIRMATIONS c" "cf_MIN_CONFIRMATIONS c \<le> 10" "1 \<le> cf_CIRCUIT_BREAKER_FAILURE_THRESHOLD c"
    "1000 \<le> cf_CIRCUIT_BREAKER_RESET_TIMEOUT_MS c" "1 \<le> cf_PORT c" "cf_PORT c \<le> 65535"
    "1 \<le> cf_RATE_LIMIT_SELLER_VERIFY c" "1 \<le> cf_RATE_LIMIT_SELLER_SETTLE c"
    "0 \<le> cf_PLATFORM_FEE_BPS c" "cf_PLATFORM_FEE_BPS c \<le> 10000" "0 \<le> cf_DEVELOPER_SHARE_BPS c" "cf_DEVELOPER_SHARE_BPS c \<le> 10000"
    using N by (auto dest: zcoerce_low zcoerce_high)
  moreover have "1000 \<le> cf_RPC_CALL_TIMEOUT_MS c" "1 \<le> cf_RATE_LIMIT_MAX c" "1000 \<le> cf_RATE_LIMIT_WINDOW_MS c"
    "1 \<le> cf_RATE_LIMIT_GLOBAL c"
    using ConfigSchema_limits [OF load(1)] by (auto dest: zcoerce_low)
  moreover note X = ConfigSchema_texts [OF load(1)]
  moreover have "cf_LOG_LEVEL c \<in> set log_levels" "cf_NODE_ENV c \<in> set node_envs"
    using X by (auto dest!: zdefault_env simp: log_levels_def node_envs_def)
  ultimately show ?thesis
    using tokens T load(2) by (auto simp: env_lookup getConfig_def valid_fee_config_def createFeeEngine_def)
qed

definition sample_token :: string where
  "sample_token = replicate 32 (CHR ''t'')"

definition sample_environment :: environment where
  "sample_environment = [(''NODE_ENV'', ''production''), (''DATABASE_URL'', ''postgres://d''), (''REDIS_URL'', ''redis://r''),
     (''FACILITATOR_PRIVATE_KEY'', ''0x'' @ replicate 64 (CHR ''a'')), (''RPC_URL'', ''https://r''),
     (''METRICS_TOKEN'', sample_token), (''DASHBOARD_TOKEN'', sample_token), (''ADMIN_API_KEY'', sample_token)]"

definition sample_config :: config where
  "sample_config = config.make ''postgres://d'' ''redis://r'' (''0x'' @ replicate 64 (CHR ''a'')) ''https://r'' '''' 2 10000 5 30000
     50 20 ''0.0.0.0'' 3000 100 60000 200 60 30 sample_token sample_token sample_token ''info'' ''production''"

lemma sample_loads: "getConfig js_parseInt (\<lambda>s. s \<noteq> []) sample_environment None = (Inr sample_config, Some sample_config)"
  by code_simp

lemma config_sound_witness:
  "getConfig js_parseInt (\<lambda>s. s \<noteq> []) sample_environment None = (Inr sample_config, Some sample_config) \<and>
   32 \<le> length (cf_ADMIN_API_KEY sample_config) \<and>
   valid_fee_config (createFeeEngine (cf_PLATFORM_FEE_BPS sample_config) (cf_DEVELOPER_SHARE_BPS sample_config) None None)"
proof -
  have "map_of sample_environment ''NODE_ENV'' = Some ''production''" by (simp add: sample_environment_def)
  then show ?thesis using config_sound [OF sample_loads, where units = None] sample_loads by simp
qed

text \<open>
  The default of the developer share, 20 basis points of the fee, is the hundredth of the 20 percent
  that \<open>secrets.ts\<close> has: on a payment of 10 USDC with a referral code the developer is credited
  nothing but 100 units, and not 10000.
\<close>

theorem default_developer_share:
  "zcoerce number 0 (Some 10000) 20 None = Inr 20" "zcoerce number 0 (Some 10000) 2000 None = Inr 2000"
  "fb_developerShare (fee_compute (createFeeEngine 50 20 None None) 0 10000000 ''0xab'' (Some ''dev'') 0) = 100"
  "fb_developerShare (fee_compute (createFeeEngine 50 2000 None None) 0 10000000 ''0xab'' (Some ''dev'') 0) = 10000"
  by (simp add: zcoerce_def, simp add: zcoerce_def, code_simp, code_simp)

section \<open>The secrets in use\<close>

lemma SecretsSchema_facts:
  assumes "SecretsSchema number is_url (Some (JObj kvs)) = Inr s"
  shows "hex0x 64 (sx_RELAYER_PRIVATE_KEY s) \<and>
    zcoerce number 0 (Some 1000) 50 (map_of kvs ''FEE_BASIS_POINTS'') = Inr (sx_FEE_BASIS_POINTS s) \<and>
    zcoerce number 0 (Some 10000) 2000 (map_of kvs ''DEVELOPER_SHARE_BPS'') = Inr (sx_DEVELOPER_SHARE_BPS s)"
  using assms by (clarsimp simp: SecretsSchema_def secrets.defs)

text \<open>
  The secrets are loaded once: what is loaded has a 32-byte key and valid fee shares, of the key only
  the first eight characters are written out, once, and later calls return the same without writing;
  a load that fails keeps nothing.
\<close>

theorem secrets_sound:
  assumes "loadSecrets number is_url issue_lines env st = (r, st')" "st_secrets st = None"
  shows "(\<forall>s. r = Inr s \<longrightarrow> hex0x 64 (sx_RELAYER_PRIVATE_KEY s) \<and>
        valid_fee_config (createFeeEngine (sx_FEE_BASIS_POINTS s) (sx_DEVELOPER_SHARE_BPS s) units None) \<and>
        st_output st' = st_output st @ [fingerprint_line s] \<and>
        loadSecrets number' is_url' issue_lines' env' st' = (Inr s, st')) \<and>
    (\<forall>e. r = Inl e \<longrightarrow> st' = st)"
proof (cases "SecretsSchema number is_url (env_json env)")
  case (Inl e)
  then show ?thesis using assms by (auto simp: loadSecrets_def)
next
  case (Inr s)
  then have run: "r = Inr s" "st' = st\<lparr>st_secrets := Some s, st_output := st_output st @ [fingerprint_line s]\<rparr>"
    using assms by (auto simp: loadSecrets_def)
  note F = SecretsSchema_facts [OF Inr [unfolded env_json_def]]
  have "0 \<le> sx_FEE_BASIS_POINTS s" "sx_FEE_BASIS_POINTS s \<le> 1000" "0 \<le> sx_DEVELOPER_SHARE_BPS s" "sx_DEVELOPER_SHARE_BPS s \<le> 10000"
    using F by (auto dest: zcoerce_low zcoerce_high)
  then show ?thesis using run F by (auto simp: loadSecrets_def valid_fee_config_def createFeeEngine_def)
qed

end
