(* ===== verification/UseCases.thy ===== *)
theory UseCases
  imports SettlePayment PubSub
begin

text \<open>
  The use cases beside the services, \<open>verify-payment.usecase.ts\<close> and \<open>settle-payment.usecase.ts\<close>, with
  \<open>x402-validator.ts\<close>. What they import from files that export nothing of the kind (the lock, the fee
  calculator, the transfer, the payload hash and the replay check) are parameters; every
  transfer they ask for is in the history \<open>uw_sent\<close>, and what a transfer or a confirmation answers is a
  function of the history.
\<close>

section \<open>State and parameters\<close>

record sent_transfer =
  tr_to :: string
  tr_amount :: int
  tr_requestId :: string

record use_world =
  uw_keys :: keyspace
  uw_db :: v1_db
  uw_sent :: "sent_transfer list"

record use_deps =
  ud_request :: "v1_request delegate"
  ud_verification :: "payment_verification delegate"
  ud_settlement :: "v1_settlement delegate"
  ud_receipt :: "v1_receipt delegate"
  ud_tx :: "(v1_db, unit) transact"
  ud_acquireLock :: "string \<Rightarrow> int \<Rightarrow> (keyspace, exn, bool) prog"
  ud_releaseLock :: "string \<Rightarrow> (keyspace, exn, unit) prog"
  ud_calculateFee :: "int \<Rightarrow> string option \<Rightarrow> exn + int \<times> int"
  ud_submitTransfer :: "sent_transfer list \<Rightarrow> sent_transfer \<Rightarrow> exn + string"
  ud_waitForConfirmation :: "sent_transfer list \<Rightarrow> string \<Rightarrow> string \<Rightarrow> exn + unit"
  ud_verifySignature :: "v1_payload \<Rightarrow> exn + unit"
  ud_payloadHash :: "v1_payload \<Rightarrow> string"
  ud_replayCheck :: "string \<Rightarrow> string \<Rightarrow> string \<Rightarrow> string \<Rightarrow> (keyspace, exn, unit) prog"
  ud_parseDate :: "string \<Rightarrow> int option"

definition use_keys :: "(keyspace, exn, 'a) prog \<Rightarrow> (use_world, exn, 'a) prog" where
  "use_keys = zoom uw_keys (\<lambda>x w. w\<lparr>uw_keys := x\<rparr>)"

definition use_db :: "(v1_db, exn, 'a) prog \<Rightarrow> (use_world, exn, 'a) prog" where
  "use_db = zoom uw_db (\<lambda>x w. w\<lparr>uw_db := x\<rparr>)"

definition submitTransfer :: "use_deps \<Rightarrow> sent_transfer \<Rightarrow> (use_world, exn, string) prog" where
  "submitTransfer D t = (\<lambda>w. (ud_submitTransfer D (uw_sent w) t, w\<lparr>uw_sent := uw_sent w @ [t]\<rparr>))"

definition waitForConfirmation :: "use_deps \<Rightarrow> string \<Rightarrow> string \<Rightarrow> (use_world, exn, unit) prog" where
  "waitForConfirmation D txHash requestId = (\<lambda>w. (ud_waitForConfirmation D (uw_sent w) txHash requestId, w))"

declare use_keys_def [run_simps] use_db_def [run_simps]

section \<open>Settling\<close>

record use_settle_result =
  us_settled :: bool
  us_settlementId :: string
  us_requestId :: string
  us_txHash :: "string option"
  us_status :: string
  us_receiptId :: "string option"
  us_idempotent :: bool

definition idempotent_result :: "string \<Rightarrow> v1_settlement \<Rightarrow> use_settle_result" where
  "idempotent_result requestId s =
     \<lparr>us_settled = (vs_status s = SConfirmed), us_settlementId = vs_id s, us_requestId = requestId, us_txHash = vs_txHash s,
      us_status = db_status (vs_status s), us_receiptId = None, us_idempotent = True\<rparr>"

definition use_receipt_payload :: "v1_request \<Rightarrow> string \<Rightarrow> string \<Rightarrow> string \<Rightarrow> string \<Rightarrow> int \<Rightarrow> int \<Rightarrow> string \<Rightarrow> json" where
  "use_receipt_payload p receiptId requestId settlementId txHash feeAmount developerShare confirmed = JObj
     [(''receiptId'', JStr receiptId), (''requestId'', JStr requestId), (''settlementId'', JStr settlementId),
      (''txHash'', JStr txHash), (''amount'', JStr (int_str (vq_amount p))), (''asset'', JStr (vq_asset p)),
      (''network'', (case vq_network p of ByName s \<Rightarrow> JStr s | ByChain c \<Rightarrow> JNum c)), (''seller'', JStr (vq_seller p)),
      (''buyer'', JStr (vq_buyer p)), (''feeAmount'', JStr (int_str feeAmount)),
      (''developerShare'', JStr (int_str developerShare)), (''confirmedAt'', JStr confirmed)]"

definition pending_settlement ::
  "string \<Rightarrow> string \<Rightarrow> string \<Rightarrow> string option \<Rightarrow> int \<Rightarrow> int \<Rightarrow> v1_settlement" where
  "pending_settlement settlementId requestId txid referralCode feeAmount developerShare =
     \<lparr>vs_id = settlementId, vs_requestId = requestId, vs_status = SPending, vs_settlementId = Some txid,
      vs_referralCode = referralCode, vs_txHash = None, vs_feeAmount = Some feeAmount, vs_developerShare = Some developerShare,
      vs_confirmedAt = None, vs_errorReason = None\<rparr>"

text \<open>Steps 4 to 11, the \<open>try\<close> block; \<open>ids\<close> are the four \<open>ulid()\<close>, \<open>now\<close> the time of the confirmation.\<close>

definition use_execute ::
  "use_deps \<Rightarrow> string \<Rightarrow> string option \<Rightarrow> string \<Rightarrow> string \<Rightarrow> string \<Rightarrow> int \<Rightarrow> (use_world, exn, use_settle_result) prog" where
  "use_execute D requestId referralCode settlementId txid receiptId now =
     seq (use_db (at_requests (db_find (ud_request D) (\<lambda>r. vq_id r = requestId)))) (\<lambda>found.
     case found of
       None \<Rightarrow> throw (CodedError ''P2025'' ''No PaymentRequest found'')
     | Some p \<Rightarrow>
     seq (of_sum (ud_calculateFee D (vq_amount p) referralCode)) (\<lambda>(feeAmount, developerShare).
     seq (use_db (at_settlements (db_create (ud_settlement D)
       (pending_settlement settlementId requestId txid referralCode feeAmount developerShare)))) (\<lambda>_.
     seq (submitTransfer D \<lparr>tr_to = vq_seller p, tr_amount = vq_amount p - feeAmount, tr_requestId = requestId\<rparr>) (\<lambda>txHash.
     seq (use_db (at_settlements (db_update (ud_settlement D) (\<lambda>s. vs_id s = settlementId)
       (\<lambda>s. s\<lparr>vs_txHash := Some txHash, vs_settlementId := Some txHash\<rparr>)))) (\<lambda>_.
     seq (waitForConfirmation D txHash requestId) (\<lambda>_.
     seq (use_db (at_settlements (db_update (ud_settlement D) (\<lambda>s. vs_id s = settlementId)
       (\<lambda>s. s\<lparr>vs_status := SConfirmed, vs_confirmedAt := Some now\<rparr>)))) (\<lambda>_.
     seq (iso now) (\<lambda>confirmed.
     seq (use_db (at_receipts (db_create (ud_receipt D)
       \<lparr>vc_id = receiptId, vc_requestId = requestId, vc_settlementId = None, vc_protocolVersion = ''x402/v1'',
        vc_responsePayload = use_receipt_payload p receiptId requestId settlementId txHash feeAmount developerShare confirmed\<rparr>))) (\<lambda>_.
     ret \<lparr>us_settled = True, us_settlementId = settlementId, us_requestId = requestId, us_txHash = Some txHash,
          us_status = ''confirmed'', us_receiptId = Some receiptId, us_idempotent = False\<rparr>)))))))))"

definition mark_failed :: "use_deps \<Rightarrow> string \<Rightarrow> exn \<Rightarrow> (use_world, exn, nat) prog" where
  "mark_failed D settlementId err =
     use_db (at_settlements (db_updateMany (ud_settlement D) (\<lambda>s. vs_id s = settlementId \<and> vs_status s = SPending)
       (\<lambda>s. s\<lparr>vs_status := SFailed, vs_errorReason := Some (exn_message err)\<rparr>)))"

definition settlePaymentUseCase ::
  "use_deps \<Rightarrow> string \<Rightarrow> string option \<Rightarrow> string \<Rightarrow> string \<Rightarrow> string \<Rightarrow> int \<Rightarrow> (use_world, exn, use_settle_result) prog" where
  "settlePaymentUseCase D requestId referralCode settlementId txid receiptId now =
     seq (use_db (at_settlements (db_find (ud_settlement D) (\<lambda>s. vs_requestId s = requestId)))) (\<lambda>existing.
     case existing of
       Some s \<Rightarrow> ret (idempotent_result requestId s)
     | None \<Rightarrow>
     seq (use_db (at_verifications (db_find (ud_verification D) (\<lambda>v. pv_requestId v = requestId)))) (\<lambda>verification.
     if (case verification of None \<Rightarrow> True | Some v \<Rightarrow> pv_status v \<noteq> VAccepted) then
       fail ''verification_required'' ''Payment must be verified and accepted before settlement'' (Some requestId)
     else
     seq (use_keys (ud_acquireLock D requestId 60)) (\<lambda>lockAcquired.
     if \<not> lockAcquired then
       fail ''settlement_pending'' ''Settlement is already in progress for this request'' (Some requestId)
     else
       finally_do
         (try_catch (use_execute D requestId referralCode settlementId txid receiptId now)
           (\<lambda>err. seq (mark_failed D settlementId err) (\<lambda>_. throw err)))
         (use_keys (ud_releaseLock D requestId)))))"

section \<open>Verifying\<close>

text \<open>
  The variables the validator reads from the configuration; the schema of \<open>config.ts\<close> has none of
  them, so each is \<open>undefined\<close>, \<open>None\<close>.
\<close>

record validator_config =
  vf_chainId :: "int option"
  vf_asset :: "string option"
  vf_skew :: "int option"

definition undefined_or :: "string option \<Rightarrow> string" where
  "undefined_or v = (case v of Some s \<Rightarrow> s | None \<Rightarrow> ''undefined'')"

definition validateNetworkAndAsset :: "validator_config \<Rightarrow> v1_payload \<Rightarrow> ('w, exn, unit) prog" where
  "validateNetworkAndAsset C p =
     (if Some (v1_chainId p) \<noteq> vf_chainId C then
        fail ''unsupported_network'' (''Network chainId '' @ int_str (v1_chainId p) @ '' is not supported. Supported: '' @
          undefined_or (map_option int_str (vf_chainId C))) None
      else
        (case vf_asset C of
           None \<Rightarrow> throw (JsError ''TypeError'' (''Cannot read properties of undefined (reading '' @ quoted ''toLowerCase'' @ '')''))
         | Some a \<Rightarrow>
             if v1_asset p \<noteq> toLowerCase a then
               fail ''unsupported_asset'' (''Asset '' @ v1_asset p @ '' is not supported. Supported: '' @ toLowerCase a) None
             else ret ()))"

text \<open>A comparison with \<open>NaN\<close>, from a missing tolerance or an invalid date, is false.\<close>

definition validateExpiration :: "validator_config \<Rightarrow> (string \<Rightarrow> int option) \<Rightarrow> string \<Rightarrow> int \<Rightarrow> ('w, exn, unit) prog" where
  "validateExpiration C parse expiresAt nowMs =
     (case (parse expiresAt, vf_skew C) of
        (Some ms, Some skew) \<Rightarrow>
          if ms + skew * 1000 < nowMs then
            fail ''expired_payment'' (''Payment proof expired at '' @ expiresAt) None
          else ret ()
      | _ \<Rightarrow> ret ())"

definition validateAmount :: "string \<Rightarrow> ('w, exn, unit) prog" where
  "validateAmount payloadAmount =
     seq (js_BigInt payloadAmount) (\<lambda>amount.
       if amount \<le> 0 then fail ''invalid_amount'' ''Amount must be greater than 0'' None else ret ())"

text \<open>The row of a payload; Prisma refuses an invalid \<open>Date\<close>.\<close>

definition payload_row :: "use_deps \<Rightarrow> v1_payload \<Rightarrow> string \<Rightarrow> ('w, exn, v1_request) prog" where
  "payload_row D p requestId =
     seq (js_BigInt (v1_amount p)) (\<lambda>amount.
       (case ud_parseDate D (v1_expiresAt p) of
          None \<Rightarrow> throw (plainError ''Invalid Date'')
        | Some t \<Rightarrow> ret
            \<lparr>vq_id = requestId, vq_seller = v1_seller p, vq_buyer = v1_buyer p, vq_network = ByChain (v1_chainId p),
             vq_asset = v1_asset p, vq_amount = amount, vq_invoiceId = v1_invoiceId p, vq_scheme = ''erc20-transfer'',
             vq_expiresAt = t\<rparr>))"

definition accepted_verification :: "use_deps \<Rightarrow> v1_payload \<Rightarrow> string \<Rightarrow> string \<Rightarrow> int \<Rightarrow> payment_verification" where
  "accepted_verification D p requestId verificationId now =
     \<lparr>pv_id = verificationId, pv_requestId = requestId, pv_status = VAccepted, pv_errorCode = None, pv_reason = None,
      pv_signatureHash = Some (computeSignatureHash (v1_signature p)), pv_nonce = Some (v1_nonce p),
      pv_payloadHash = Some (ud_payloadHash D p), pv_createdAt = now\<rparr>"

definition use_checks :: "validator_config \<Rightarrow> use_deps \<Rightarrow> v1_payload \<Rightarrow> int \<Rightarrow> ('w, exn, unit) prog" where
  "use_checks C D p now =
     seq (validateNetworkAndAsset C p) (\<lambda>_.
     seq (validateExpiration C (ud_parseDate D) (v1_expiresAt p) now) (\<lambda>_.
     seq (validateAmount (v1_amount p)) (\<lambda>_.
     of_sum (ud_verifySignature D p))))"

definition use_store :: "use_deps \<Rightarrow> v1_payload \<Rightarrow> string \<Rightarrow> string \<Rightarrow> int \<Rightarrow> (use_world, exn, unit) prog" where
  "use_store D p requestId verificationId now =
     seq (payload_row D p requestId) (\<lambda>row.
     use_db (ud_tx D (seq (at_requests (db_create (ud_request D) row)) (\<lambda>_.
       seq (at_verifications (db_create (ud_verification D) (accepted_verification D p requestId verificationId now))) (\<lambda>_.
       ret ())))))"

definition use_reject :: "use_deps \<Rightarrow> v1_payload \<Rightarrow> string \<Rightarrow> (use_world, exn, unit) prog" where
  "use_reject D p requestId =
     seq (use_db (at_requests (db_find (ud_request D) (\<lambda>r. vq_id r = requestId)))) (\<lambda>found.
     case found of
       Some _ \<Rightarrow> ret ()
     | None \<Rightarrow> seq (payload_row D p requestId) (\<lambda>row.
         seq (use_db (at_requests (db_create (ud_request D) row))) (\<lambda>_. ret ())))"

definition verifyPaymentUseCase ::
  "validator_config \<Rightarrow> use_deps \<Rightarrow> v1_payload \<Rightarrow> string \<Rightarrow> string \<Rightarrow> int \<Rightarrow> (use_world, exn, string) prog" where
  "verifyPaymentUseCase C D p requestId verificationId now =
     try_catch
       (seq (use_checks C D p now) (\<lambda>_.
        seq (use_keys (ud_replayCheck D requestId (v1_nonce p) (computeSignatureHash (v1_signature p)) (ud_payloadHash D p))) (\<lambda>_.
        seq (use_store D p requestId verificationId now) (\<lambda>_.
        ret verificationId))))
       (\<lambda>err. seq (ignore_errors (use_reject D p requestId)) (\<lambda>_. throw err))"

section \<open>Runs\<close>

definition use_tables :: "use_deps \<Rightarrow> bool" where
  "use_tables D \<longleftrightarrow> prisma_table (ud_request D) v1_request_clash \<and> prisma_table (ud_verification D) verification_clash \<and>
     prisma_table (ud_settlement D) v1_settlement_clash \<and> prisma_table (ud_receipt D) v1_receipt_clash"

lemma use_tablesD:
  "use_tables D \<Longrightarrow> prisma_table (ud_request D) v1_request_clash"
  "use_tables D \<Longrightarrow> prisma_table (ud_verification D) verification_clash"
  "use_tables D \<Longrightarrow> prisma_table (ud_settlement D) v1_settlement_clash"
  "use_tables D \<Longrightarrow> prisma_table (ud_receipt D) v1_receipt_clash"
  by (simp_all add: use_tables_def)

lemma submit_run [run_simps]:
  "submitTransfer D t w = (r, w') \<longleftrightarrow> ud_submitTransfer D (uw_sent w) t = r \<and> w' = w\<lparr>uw_sent := uw_sent w @ [t]\<rparr>"
  by (auto simp: submitTransfer_def)

lemma wait_run [run_simps]:
  "waitForConfirmation D h rid w = (r, w') \<longleftrightarrow> ud_waitForConfirmation D (uw_sent w) h rid = r \<and> w' = w"
  by (auto simp: waitForConfirmation_def)

text \<open>The row with the id that was just inserted is the last one.\<close>

lemma update_last:
  assumes "rs @ [r] = us @ v # vs" "p v" "\<forall>q\<in>set rs. \<not> p q"
  shows "us = rs \<and> v = r \<and> vs = []"
proof (cases vs rule: rev_cases)
  case Nil
  then show ?thesis using assms(1) by simp
next
  case (snoc ys y)
  then have "v \<in> set rs" using assms(1) by (auto simp: append_eq_append_conv2 Cons_eq_append_conv)
  then show ?thesis using assms(2,3) by blast
qed

definition use_fee :: "use_deps \<Rightarrow> v1_request \<Rightarrow> string option \<Rightarrow> int \<times> int" where
  "use_fee D p ref = (case ud_calculateFee D (vq_amount p) ref of Inr fee \<Rightarrow> fee | Inl e \<Rightarrow> (0, 0))"

definition use_transfer :: "use_deps \<Rightarrow> v1_request \<Rightarrow> string \<Rightarrow> string option \<Rightarrow> sent_transfer" where
  "use_transfer D p requestId ref =
     \<lparr>tr_to = vq_seller p, tr_amount = vq_amount p - fst (use_fee D p ref), tr_requestId = requestId\<rparr>"

lemma execute_sent:
  assumes "use_tables D" "use_execute D requestId ref sid txid rid now w = (r, w')"
  shows "uw_sent w' = uw_sent w \<or>
    (\<exists>p\<in>set (vd_requests (uw_db w)). vq_id p = requestId \<and> uw_sent w' = uw_sent w @ [use_transfer D p requestId ref] \<and>
       ud_calculateFee D (vq_amount p) ref = Inr (use_fee D p ref))"
proof -
  have found: "p \<in> set (vd_requests (uw_db w)) \<and> vq_id p = requestId"
    if "db_find (ud_request D) (\<lambda>r. vq_id r = requestId) (vd_requests (uw_db w)) = (Inr (Some p), rs)" for p rs
    using prisma_table.find_Some [OF use_tablesD(1) [OF assms(1)] that] by blast
  show ?thesis
    using assms(2) found by (cases r) (auto simp: use_execute_def run_simps use_transfer_def use_fee_def split_beta)
qed

lemma use_execute_Inr:
  assumes "use_tables D" "use_execute D requestId ref sid txid rid now w = (Inr res, w')"
  shows "\<exists>p h dev confirmed. p \<in> set (vd_requests (uw_db w)) \<and> vq_id p = requestId \<and>
    uw_sent w' = uw_sent w @ [use_transfer D p requestId ref] \<and>
    ud_submitTransfer D (uw_sent w) (use_transfer D p requestId ref) = Inr h \<and>
    ud_waitForConfirmation D (uw_sent w') h requestId = Inr () \<and>
    vd_settlements (uw_db w') = vd_settlements (uw_db w) @
      [(pending_settlement sid requestId txid ref (fst (use_fee D p ref)) dev)
         \<lparr>vs_status := SConfirmed, vs_txHash := Some h, vs_settlementId := Some h, vs_confirmedAt := Some now\<rparr>] \<and>
    vd_receipts (uw_db w') = vd_receipts (uw_db w) @
      [\<lparr>vc_id = rid, vc_requestId = requestId, vc_settlementId = None, vc_protocolVersion = ''x402/v1'',
        vc_responsePayload = use_receipt_payload p rid requestId sid h (fst (use_fee D p ref)) dev confirmed\<rparr>] \<and>
    res = \<lparr>us_settled = True, us_settlementId = sid, us_requestId = requestId, us_txHash = Some h,
           us_status = ''confirmed'', us_receiptId = Some rid, us_idempotent = False\<rparr>"
proof -
  let ?s = "\<lambda>p. pending_settlement sid requestId txid ref (fst (use_fee D p ref)) (snd (use_fee D p ref))"
  obtain p rs0 x ss1 h y ss2 z ss3 confirmed c rr where
    1: "db_find (ud_request D) (\<lambda>r. vq_id r = requestId) (vd_requests (uw_db w)) = (Inr (Some p), rs0)"
    and 2: "db_create (ud_settlement D) (?s p) (vd_settlements (uw_db w)) = (Inr x, ss1)"
    and 3: "ud_submitTransfer D (uw_sent w) (use_transfer D p requestId ref) = Inr h"
    and 4: "db_update (ud_settlement D) (\<lambda>s. vs_id s = sid) (\<lambda>s. s\<lparr>vs_txHash := Some h, vs_settlementId := Some h\<rparr>) ss1 = (Inr y, ss2)"
    and 5: "ud_waitForConfirmation D (uw_sent w') h requestId = Inr ()"
    and 6: "db_update (ud_settlement D) (\<lambda>s. vs_id s = sid) (\<lambda>s. s\<lparr>vs_status := SConfirmed, vs_confirmedAt := Some now\<rparr>) ss2 = (Inr z, ss3)"
    and 7: "db_create (ud_receipt D) \<lparr>vc_id = rid, vc_requestId = requestId, vc_settlementId = None, vc_protocolVersion = ''x402/v1'',
        vc_responsePayload = use_receipt_payload p rid requestId sid h (fst (use_fee D p ref))
          (snd (use_fee D p ref)) confirmed\<rparr> (vd_receipts (uw_db w)) = (Inr c, rr)"
    and 8: "uw_sent w' = uw_sent w @ [use_transfer D p requestId ref]" "vd_settlements (uw_db w') = ss3" "vd_receipts (uw_db w') = rr"
    and 9: "res = \<lparr>us_settled = True, us_settlementId = sid, us_requestId = requestId, us_txHash = Some h,
           us_status = ''confirmed'', us_receiptId = Some rid, us_idempotent = False\<rparr>"
    using assms(2) by (auto simp: use_execute_def run_simps split_beta use_transfer_def use_fee_def)
  note S = use_tablesD(3) [OF assms(1)]
  have find: "p \<in> set (vd_requests (uw_db w))" "vq_id p = requestId"
    using prisma_table.find_Some [OF use_tablesD(1) [OF assms(1)] 1] by auto
  have created: "ss1 = vd_settlements (uw_db w) @ [?s p]" "\<forall>q\<in>set (vd_settlements (uw_db w)). vs_id q \<noteq> sid"
    using prisma_table.create_ok [OF S 2] by (auto simp: v1_settlement_clash_def pending_settlement_def)
  have last: "rs' = vd_settlements (uw_db w) @ [f r]"
    if upd: "db_update (ud_settlement D) (\<lambda>s. vs_id s = sid) f (vd_settlements (uw_db w) @ [r]) = (Inr v, rs')" for f r v rs'
  proof -
    obtain us u vs where "vd_settlements (uw_db w) @ [r] = us @ u # vs" "vs_id u = sid" "rs' = us @ f u # vs"
      using prisma_table.update_ok [OF S upd] by blast
    then show ?thesis using update_last [of "vd_settlements (uw_db w)" r us u vs "\<lambda>s. vs_id s = sid"] created(2) by simp
  qed
  have "ss2 = vd_settlements (uw_db w) @ [(?s p)\<lparr>vs_txHash := Some h, vs_settlementId := Some h\<rparr>]"
    using last 4 unfolding created(1) by blast
  then have "ss3 = vd_settlements (uw_db w) @ [(?s p)\<lparr>vs_txHash := Some h, vs_settlementId := Some h, vs_status := SConfirmed, vs_confirmedAt := Some now\<rparr>]"
    using last 6 by blast
  moreover have "rr = vd_receipts (uw_db w) @ [\<lparr>vc_id = rid, vc_requestId = requestId, vc_settlementId = None,
        vc_protocolVersion = ''x402/v1'', vc_responsePayload = use_receipt_payload p rid requestId sid h
          (fst (use_fee D p ref)) (snd (use_fee D p ref)) confirmed\<rparr>]"
    using prisma_table.create_ok [OF use_tablesD(4) [OF assms(1)] 7] by blast
  ultimately show ?thesis
    using find 3 5 8 9
    by (intro exI [where x = p] exI [where x = h] exI [where x = "snd (use_fee D p ref)"] exI [where x = confirmed])
      simp
qed

lemma finally_try:
  assumes "finally_do (try_catch m (\<lambda>err. seq (mark err) (\<lambda>_. throw err))) (use_keys k) w = (r, w')" "m w = (q, w1)"
  shows "(r = q \<and> (\<exists>x. q = Inr x) \<longrightarrow> uw_db w' = uw_db w1 \<and> uw_sent w' = uw_sent w1) \<and> ((\<exists>x. r = Inr x) \<longrightarrow> r = q)"
  using assms by (cases q) (auto simp: finally_do_def try_catch_def seq_def throw_def use_keys_def zoom_def split: prod.splits sum.splits)

lemma finally_sent:
  assumes "finally_do (try_catch m (\<lambda>err. seq (mark_failed D sid err) (\<lambda>_. throw err))) (use_keys k) w = (r, w')" "m w = (q, w1)"
  shows "uw_sent w' = uw_sent w1"
  using assms by (cases q) (auto simp: finally_do_def try_catch_def seq_def throw_def use_keys_def use_db_def mark_failed_def zoom_def split: prod.splits sum.splits)

section \<open>Settling\<close>

lemma settle_use_cases:
  assumes "use_tables D" "settlePaymentUseCase D requestId ref sid txid rid now w = (r, w')"
  obtains (existing) s where "s \<in> set (vd_settlements (uw_db w))" "vs_requestId s = requestId" "w' = w" "r = Inr (idempotent_result requestId s)"
  | (early) "\<exists>e. r = Inl e" "uw_sent w' = uw_sent w" "uw_db w' = uw_db w"
  | (run) v w0 where "v \<in> set (vd_verifications (uw_db w))" "pv_requestId v = requestId" "pv_status v = VAccepted"
      "\<forall>s\<in>set (vd_settlements (uw_db w)). vs_requestId s \<noteq> requestId" "uw_db w0 = uw_db w" "uw_sent w0 = uw_sent w"
      "finally_do (try_catch (use_execute D requestId ref sid txid rid now) (\<lambda>err. seq (mark_failed D sid err) (\<lambda>_. throw err)))
         (use_keys (ud_releaseLock D requestId)) w0 = (r, w')"
proof -
  let ?fin = "finally_do (try_catch (use_execute D requestId ref sid txid rid now) (\<lambda>err. seq (mark_failed D sid err) (\<lambda>_. throw err)))
         (use_keys (ud_releaseLock D requestId))"
  obtain f rs where f: "db_find (ud_settlement D) (\<lambda>s. vs_requestId s = requestId) (vd_settlements (uw_db w)) = (f, rs)" by fastforce
  have rs: "rs = vd_settlements (uw_db w)" using prisma_table.find_same [OF use_tablesD(3) [OF assms(1)] f] .
  obtain g vs where g: "db_find (ud_verification D) (\<lambda>v. pv_requestId v = requestId) (vd_verifications (uw_db w)) = (g, vs)" by fastforce
  have vs: "vs = vd_verifications (uw_db w)" using prisma_table.find_same [OF use_tablesD(2) [OF assms(1)] g] .
  obtain l ks where l: "ud_acquireLock D requestId 60 (uw_keys w) = (l, ks)" by fastforce
  note unfold = settlePaymentUseCase_def seq_def use_db_def use_keys_def zoom_def at_settlements_def at_verifications_def fail_def throw_def ret_def
  show ?thesis
  proof (cases f)
    case (Inl e)
    then show ?thesis using assms(2) f rs by (intro early) (auto simp: unfold)
  next
    case f': (Inr found)
    show ?thesis
    proof (cases found)
      case (Some s)
      then have "s \<in> set (vd_settlements (uw_db w))" "vs_requestId s = requestId"
        using prisma_table.find_Some [OF use_tablesD(3) [OF assms(1)]] f f' by blast+
      then show ?thesis using assms(2) f rs f' Some by (intro existing) (auto simp: unfold)
    next
      case None
      then have none: "\<forall>s\<in>set (vd_settlements (uw_db w)). vs_requestId s \<noteq> requestId"
        using prisma_table.find_None [OF use_tablesD(3) [OF assms(1)]] f f' by blast
      show ?thesis
      proof (cases "\<exists>v. g = Inr (Some v) \<and> pv_status v = VAccepted \<and> l = Inr True")
        case True
        then obtain v where v: "g = Inr (Some v)" "pv_status v = VAccepted" "l = Inr True" by blast
        then have "v \<in> set (vd_verifications (uw_db w))" "pv_requestId v = requestId"
          using prisma_table.find_Some [OF use_tablesD(2) [OF assms(1)]] g by blast+
        moreover have "?fin (w\<lparr>uw_keys := ks\<rparr>) = (r, w')"
          using assms(2) f rs f' None g vs v l by (simp add: unfold)
        ultimately show ?thesis using v none by (intro run [of v "w\<lparr>uw_keys := ks\<rparr>"]) simp_all
      next
        case False
        then show ?thesis
          using assms(2) f rs f' None g vs l by (intro early) (auto simp: unfold split: sum.splits option.splits if_splits)
      qed
    qed
  qed
qed

text \<open>C9. The settle use case asks for a transfer only for a request that was verified and accepted and that
  has no settlement, and then for one, to its seller, of its amount less the fee, whatever becomes of
  the call; a request with a settlement is answered from it, without effect. When it reports a new
  settlement, the transfer was submitted and confirmed, and the tables hold the confirmed settlement
  with its hash and the receipt that it names.
\<close>

theorem usecase_settle_sound:
  assumes "use_tables D" "settlePaymentUseCase D requestId ref sid txid rid now w = (r, w')"
  shows "(uw_sent w' = uw_sent w \<or>
      (\<exists>p\<in>set (vd_requests (uw_db w)). vq_id p = requestId \<and> uw_sent w' = uw_sent w @ [use_transfer D p requestId ref] \<and>
        ud_calculateFee D (vq_amount p) ref = Inr (use_fee D p ref) \<and>
        (\<exists>v\<in>set (vd_verifications (uw_db w)). pv_requestId v = requestId \<and> pv_status v = VAccepted) \<and>
        (\<forall>s\<in>set (vd_settlements (uw_db w)). vs_requestId s \<noteq> requestId))) \<and>
    (\<forall>res. r = Inr res \<longrightarrow>
      (us_idempotent res \<and> w' = w \<and> (\<exists>s\<in>set (vd_settlements (uw_db w)). vs_requestId s = requestId \<and> res = idempotent_result requestId s)) \<or>
      (\<exists>h c. us_txHash res = Some h \<and> uw_sent w' \<noteq> uw_sent w \<and> ud_waitForConfirmation D (uw_sent w') h requestId = Inr () \<and>
        (\<exists>s\<in>set (vd_settlements (uw_db w')). vs_id s = us_settlementId res \<and> vs_requestId s = requestId \<and>
           vs_status s = SConfirmed \<and> vs_txHash s = Some h) \<and>
        us_receiptId res = Some c \<and> (\<exists>x\<in>set (vd_receipts (uw_db w')). vc_id x = c \<and> vc_requestId x = requestId)))"
  using assms
proof (cases rule: settle_use_cases)
  case (existing s)
  then show ?thesis by (auto simp: idempotent_result_def)
next
  case early
  then show ?thesis by auto
next
  case (run v w0)
  obtain q w1 where q: "use_execute D requestId ref sid txid rid now w0 = (q, w1)" by fastforce
  have sent: "uw_sent w' = uw_sent w1" using finally_sent [OF run(7) q] .
  have first: "uw_sent w' = uw_sent w \<or>
      (\<exists>p\<in>set (vd_requests (uw_db w)). vq_id p = requestId \<and> uw_sent w' = uw_sent w @ [use_transfer D p requestId ref] \<and>
        ud_calculateFee D (vq_amount p) ref = Inr (use_fee D p ref))"
    using execute_sent [OF assms(1) q] sent run(5,6) by simp
  moreover have "\<exists>h c. us_txHash res = Some h \<and> uw_sent w' \<noteq> uw_sent w \<and> ud_waitForConfirmation D (uw_sent w') h requestId = Inr () \<and>
        (\<exists>s\<in>set (vd_settlements (uw_db w')). vs_id s = us_settlementId res \<and> vs_requestId s = requestId \<and>
           vs_status s = SConfirmed \<and> vs_txHash s = Some h) \<and>
        us_receiptId res = Some c \<and> (\<exists>x\<in>set (vd_receipts (uw_db w')). vc_id x = c \<and> vc_requestId x = requestId)"
    if "r = Inr res" for res
  proof -
    have ok: "q = Inr res" "uw_db w' = uw_db w1" using finally_try [OF run(7) q] that by auto
    show ?thesis
      using use_execute_Inr [OF assms(1) q [unfolded ok(1)]] ok(2) sent run(6) by (auto simp: pending_settlement_def)
  qed
  ultimately show ?thesis using run(1-4) by blast
qed

definition sample_use :: use_deps where
  "sample_use = \<lparr>ud_request = table_of v1_request_clash, ud_verification = table_of verification_clash,
     ud_settlement = table_of v1_settlement_clash, ud_receipt = table_of v1_receipt_clash, ud_tx = pg_transaction,
     ud_acquireLock = (\<lambda>k ttl. redis_set_nx mock_redis k ttl), ud_releaseLock = redis_del mock_redis,
     ud_calculateFee = (\<lambda>a ref. Inr (a div 200, 0)), ud_submitTransfer = (\<lambda>_ _. Inr ''0xh''),
     ud_waitForConfirmation = (\<lambda>_ _ _. Inr ()), ud_verifySignature = (\<lambda>_. Inr ()), ud_payloadHash = (\<lambda>_. ''ph''),
     ud_replayCheck = (\<lambda>_ _ _ _. ret ()), ud_parseDate = (\<lambda>_. Some 1000)\<rparr>"

lemma sample_use_tables: "use_tables sample_use"
  by (simp add: use_tables_def sample_use_def table_of_prisma)

definition sample_payload :: v1_payload where
  "sample_payload = v1_payload.make 8453 ''0xa'' ''1000'' ''0xs'' ''0xb'' ''inv'' ''t'' ''n'' ''0xsig''"

definition use_empty :: use_world where
  "use_empty = \<lparr>uw_keys = Map.empty, uw_db = vw_db v1_empty, uw_sent = []\<rparr>"

definition use_verified :: use_world where
  "use_verified = snd (verifyPaymentUseCase \<lparr>vf_chainId = Some 8453, vf_asset = Some ''0xA'', vf_skew = Some 30\<rparr> sample_use
     sample_payload ''r'' ''v'' 900 use_empty)"

lemma sample_use_settles:
  "(case settlePaymentUseCase sample_use ''r'' None ''s'' ''x'' ''c'' 0 use_verified of
      (r, w') \<Rightarrow> (case r of Inr res \<Rightarrow> us_settled res \<and> \<not> us_idempotent res | Inl e \<Rightarrow> False) \<and>
        uw_sent w' = [\<lparr>tr_to = ''0xs'', tr_amount = 995, tr_requestId = ''r''\<rparr>])"
  by code_simp

lemma usecase_settle_sound_witness:
  "\<exists>res w' h. settlePaymentUseCase sample_use ''r'' None ''s'' ''x'' ''c'' 0 use_verified = (Inr res, w') \<and>
     us_txHash res = Some h \<and> (\<exists>s\<in>set (vd_settlements (uw_db w')). vs_status s = SConfirmed \<and> vs_txHash s = Some h)"
proof -
  obtain r w' where run: "settlePaymentUseCase sample_use ''r'' None ''s'' ''x'' ''c'' 0 use_verified = (r, w')" by fastforce
  then obtain res where "r = Inr res" "\<not> us_idempotent res" using sample_use_settles by (auto split: sum.splits)
  then show ?thesis using usecase_settle_sound [OF sample_use_tables run] run by blast
qed

section \<open>Verification\<close>

lemma use_checks_Inr:
  "use_checks C D p now w = (Inr u, w') \<Longrightarrow>
    vf_chainId C = Some (v1_chainId p) \<and> map_option toLowerCase (vf_asset C) = Some (v1_asset p) \<and>
    decimal (v1_amount p) \<and> 0 < bigint_of (v1_amount p) \<and> ud_verifySignature D p = Inr () \<and>
    (\<forall>ms s. ud_parseDate D (v1_expiresAt p) = Some ms \<and> vf_skew C = Some s \<longrightarrow> now \<le> ms + s * 1000) \<and> w' = w"
  by (auto simp: use_checks_def validateNetworkAndAsset_def validateExpiration_def validateAmount_def js_BigInt_def run_simps
      split: option.splits if_splits)

lemma use_checks_same: "use_checks C D p now w = (r, w') \<Longrightarrow> w' = w"
  by (cases r) (auto simp: use_checks_def validateNetworkAndAsset_def validateExpiration_def validateAmount_def js_BigInt_def run_simps
      split: option.splits if_splits)

definition row_of :: "v1_payload \<Rightarrow> string \<Rightarrow> v1_request \<Rightarrow> bool" where
  "row_of p requestId row \<longleftrightarrow> vq_id row = requestId \<and> vq_seller row = v1_seller p \<and> vq_buyer row = v1_buyer p \<and>
     vq_amount row = bigint_of (v1_amount p) \<and> vq_asset row = v1_asset p \<and> vq_invoiceId row = v1_invoiceId p"

lemma payload_row_Inr: "payload_row D p requestId w = (Inr row, w') \<Longrightarrow> row_of p requestId row \<and> w' = w"
  by (auto simp: payload_row_def js_BigInt_def run_simps row_of_def split: option.splits if_splits)

lemma payload_row_same: "payload_row D p requestId w = (r, w') \<Longrightarrow> w' = w"
  by (cases r) (auto simp: payload_row_def js_BigInt_def run_simps split: option.splits if_splits)

lemma store_run:
  assumes "use_tables D" "transactional (ud_tx D)" "use_store D p requestId vid now w = (r, w')"
  shows "(\<forall>u. r = Inr u \<longrightarrow> (\<exists>row. row_of p requestId row \<and> uw_db w' =
        (uw_db w)\<lparr>vd_requests := vd_requests (uw_db w) @ [row],
                  vd_verifications := vd_verifications (uw_db w) @ [accepted_verification D p requestId vid now]\<rparr>)) \<and>
    (\<forall>e. r = Inl e \<longrightarrow> uw_db w' = uw_db w) \<and> uw_sent w' = uw_sent w \<and> uw_keys w' = uw_keys w"
proof -
  obtain q w1 where q: "payload_row D p requestId w = (q, w1)" by fastforce
  have w1: "w1 = w" using payload_row_same [OF q] .
  show ?thesis
  proof (cases q)
    case (Inl e)
    then show ?thesis using assms(3) q w1 by (auto simp: use_store_def seq_def)
  next
    case (Inr row)
    define body where "body = seq (at_requests (db_create (ud_request D) row)) (\<lambda>_.
       seq (at_verifications (db_create (ud_verification D) (accepted_verification D p requestId vid now))) (\<lambda>_. ret ()))"
    obtain t d where t: "ud_tx D body (uw_db w) = (t, d)" by fastforce
    have run: "r = t" "w' = w\<lparr>uw_db := d\<rparr>"
      using assms(3) q w1 Inr t by (auto simp: use_store_def seq_def use_db_def zoom_def body_def [symmetric, unfolded seq_def])
    show ?thesis
    proof (cases t)
      case Inl': (Inl e)
      then have "d = uw_db w" using transactional.tx_err [OF assms(2)] t by blast
      then show ?thesis using run Inl' by simp
    next
      case Inr': (Inr u)
      then have "body (uw_db w) = (Inr u, d)" using transactional.tx_ok [OF assms(2)] t by blast
      then have "d = (uw_db w)\<lparr>vd_requests := vd_requests (uw_db w) @ [row],
                  vd_verifications := vd_verifications (uw_db w) @ [accepted_verification D p requestId vid now]\<rparr>"
        by (auto simp: body_def run_simps dest!: prisma_table.create_ok [OF use_tablesD(1) [OF assms(1)]]
            prisma_table.create_ok [OF use_tablesD(2) [OF assms(1)]])
      then show ?thesis using run Inr' payload_row_Inr q Inr by fastforce
    qed
  qed
qed

lemma use_reject_run:
  assumes "use_tables D" "use_reject D p requestId w = (r, w')"
  shows "uw_sent w' = uw_sent w \<and> (uw_db w' = uw_db w \<or>
    (\<exists>row. row_of p requestId row \<and> uw_db w' = (uw_db w)\<lparr>vd_requests := vd_requests (uw_db w) @ [row]\<rparr>))"
proof -
  note same = prisma_table.find_same [OF use_tablesD(1) [OF assms(1)]]
  note new = prisma_table.create_ok [OF use_tablesD(1) [OF assms(1)]]
  note old = prisma_table.create_err [OF use_tablesD(1) [OF assms(1)]]
  show ?thesis
    using assms(2)
    by (cases r) (auto simp: use_reject_def run_simps dest!: same new old payload_row_Inr dest: payload_row_same)
qed

lemma replay_db:
  "use_keys m w = (r, w') \<Longrightarrow> uw_db w' = uw_db w \<and> uw_sent w' = uw_sent w"
  by (auto simp: run_simps)

lemma verify_body_run:
  assumes "use_tables D" "transactional (ud_tx D)"
    "seq (use_checks C D p now) (\<lambda>_. seq (use_keys k) (\<lambda>_. seq (use_store D p requestId vid now) (\<lambda>_. ret vid))) w = (r, w')"
  shows "(\<forall>x. r = Inr x \<longrightarrow> x = vid \<and> use_checks C D p now w = (Inr (), w) \<and> k (uw_keys w) = (Inr (), uw_keys w') \<and> (\<exists>row. row_of p requestId row \<and> uw_db w' =
        (uw_db w)\<lparr>vd_requests := vd_requests (uw_db w) @ [row],
                  vd_verifications := vd_verifications (uw_db w) @ [accepted_verification D p requestId vid now]\<rparr>)) \<and>
    (\<forall>e. r = Inl e \<longrightarrow> uw_db w' = uw_db w)"
proof -
  obtain q where q: "use_checks C D p now w = (q, w)" using use_checks_same by (metis prod.exhaust_sel)
  show ?thesis
  proof (cases q)
    case (Inl e)
    then show ?thesis using assms(3) q by (auto simp: seq_def)
  next
    case (Inr u)
    obtain s w1 where s: "use_keys k w = (s, w1)" by fastforce
    show ?thesis
    proof (cases s)
      case Inl': (Inl e)
      then show ?thesis using assms(3) q Inr s replay_db [OF s] by (auto simp: seq_def)
    next
      case Inr': (Inr x)
      obtain t w2 where t: "use_store D p requestId vid now w1 = (t, w2)" by fastforce
      have "w' = w2" "\<forall>y. t = Inr y \<longrightarrow> r = Inr vid" "\<forall>e. t = Inl e \<longrightarrow> r = Inl e"
        using assms(3) q Inr s Inr' t by (cases t; auto simp: seq_def ret_def)+
      then show ?thesis using store_run [OF assms(1,2) t] replay_db [OF s] q Inr s Inr'
        by (cases t) (auto simp: use_keys_def zoom_eq)
    qed
  qed
qed

text \<open>C10. The verify use case accepts a payload only after every check passed, the network and the asset of the
  configuration, the expiry, a positive amount, the signature, and the replay check on the nonce and the
  hashes of the signature and of the payload, made on the keys before the call; it then stores the request
  and its accepted verification together, and leaves the keys as that check left them; a payload that is refused leaves no verification, and at most the
  request. With the configuration as its schema is, without a supported chain, every payload is refused.
\<close>

theorem usecase_verify_sound:
  assumes "use_tables D" "transactional (ud_tx D)" "verifyPaymentUseCase C D p requestId vid now w = (r, w')"
  shows "(\<forall>x. r = Inr x \<longrightarrow> x = vid \<and> vf_chainId C = Some (v1_chainId p) \<and> map_option toLowerCase (vf_asset C) = Some (v1_asset p) \<and>
        0 < bigint_of (v1_amount p) \<and> ud_verifySignature D p = Inr () \<and>
        (\<forall>ms s. ud_parseDate D (v1_expiresAt p) = Some ms \<and> vf_skew C = Some s \<longrightarrow> now \<le> ms + s * 1000) \<and>
        ud_replayCheck D requestId (v1_nonce p) (computeSignatureHash (v1_signature p)) (ud_payloadHash D p) (uw_keys w)
          = (Inr (), uw_keys w') \<and>
        (\<exists>row. row_of p requestId row \<and> uw_db w' =
          (uw_db w)\<lparr>vd_requests := vd_requests (uw_db w) @ [row],
                    vd_verifications := vd_verifications (uw_db w) @ [accepted_verification D p requestId vid now]\<rparr>)) \<and>
    (\<forall>e. r = Inl e \<longrightarrow> uw_db w' = uw_db w \<or>
        (\<exists>row. row_of p requestId row \<and> uw_db w' = (uw_db w)\<lparr>vd_requests := vd_requests (uw_db w) @ [row]\<rparr>)) \<and>
    (vf_chainId C = None \<longrightarrow> (\<exists>e. r = Inl (Facilitator e) \<and> fe_code e = ''unsupported_network''))"
proof -
  define k where "k = ud_replayCheck D requestId (v1_nonce p) (computeSignatureHash (v1_signature p)) (ud_payloadHash D p)"
  obtain q w1 where q: "seq (use_checks C D p now) (\<lambda>_. seq (use_keys k) (\<lambda>_. seq (use_store D p requestId vid now) (\<lambda>_. ret vid))) w = (q, w1)"
    by fastforce
  note body = verify_body_run [OF assms(1,2) q]
  have run: "try_catch (\<lambda>_. (q, w1)) (\<lambda>err. seq (ignore_errors (use_reject D p requestId)) (\<lambda>_. throw err)) w = (r, w')"
    using assms(3) q by (simp add: verifyPaymentUseCase_def k_def try_catch_def)
  show ?thesis
  proof (cases q)
    case (Inr x)
    then have "r = Inr x" "w' = w1" using run by (auto simp: try_catch_def)
    then show ?thesis using body Inr use_checks_Inr [of C D p now w "()" w] by (auto simp: k_def)
  next
    case (Inl e)
    then have r: "r = Inl e" "w' = snd (use_reject D p requestId w1)"
      using run by (auto simp: try_catch_def seq_def ignore_errors_def throw_def)
    have "vf_chainId C = None \<longrightarrow> (\<exists>f. e = Facilitator f \<and> fe_code f = ''unsupported_network'')"
      using q Inl by (auto simp: seq_def use_checks_def validateNetworkAndAsset_def fail_def throw_def)
    moreover have "uw_db w' = uw_db w \<or> (\<exists>row. row_of p requestId row \<and> uw_db w' = (uw_db w)\<lparr>vd_requests := vd_requests (uw_db w) @ [row]\<rparr>)"
      using use_reject_run [OF assms(1), of p requestId w1] r(2) body Inl by (metis prod.exhaust_sel)
    ultimately show ?thesis using r(1) by auto
  qed
qed

lemma sample_use_verifies:
  "(case verifyPaymentUseCase \<lparr>vf_chainId = Some 8453, vf_asset = Some ''0xA'', vf_skew = Some 30\<rparr> sample_use
     sample_payload ''r'' ''v'' 900 use_empty of (r, w') \<Rightarrow> r = Inr ''v'')"
  by code_simp

lemma usecase_verify_sound_witness:
  "(\<exists>w'. verifyPaymentUseCase \<lparr>vf_chainId = Some 8453, vf_asset = Some ''0xA'', vf_skew = Some 30\<rparr> sample_use
     sample_payload ''r'' ''v'' 900 use_empty = (Inr ''v'', w') \<and> length (vd_verifications (uw_db w')) = 1) \<and>
   (\<exists>e w'. verifyPaymentUseCase \<lparr>vf_chainId = None, vf_asset = None, vf_skew = None\<rparr> sample_use
     sample_payload ''r'' ''v'' 900 use_empty = (Inl (Facilitator e), w') \<and> fe_code e = ''unsupported_network'')"
proof
  let ?C = "\<lparr>vf_chainId = Some 8453, vf_asset = Some ''0xA'', vf_skew = Some 30\<rparr>"
  let ?N = "\<lparr>vf_chainId = None, vf_asset = None, vf_skew = None\<rparr>"
  have tx: "transactional (ud_tx sample_use)" by (simp add: sample_use_def pg_transactional)
  obtain r w' where run: "verifyPaymentUseCase ?C sample_use sample_payload ''r'' ''v'' 900 use_empty = (r, w')" by fastforce
  then have "r = Inr ''v''" using sample_use_verifies by simp
  then show "\<exists>w'. verifyPaymentUseCase ?C sample_use sample_payload ''r'' ''v'' 900 use_empty = (Inr ''v'', w') \<and>
      length (vd_verifications (uw_db w')) = 1"
    using usecase_verify_sound [OF sample_use_tables tx run] run by (auto simp: use_empty_def v1_empty_def)
  obtain q u' where run': "verifyPaymentUseCase ?N sample_use sample_payload ''r'' ''v'' 900 use_empty = (q, u')" by fastforce
  show "\<exists>e w'. verifyPaymentUseCase ?N sample_use sample_payload ''r'' ''v'' 900 use_empty = (Inl (Facilitator e), w') \<and>
      fe_code e = ''unsupported_network''"
    using usecase_verify_sound [OF sample_use_tables tx run'] run' by auto
qed

end
