(* ===== verification/Bootstrap.thy ===== *)
theory Bootstrap
  imports Config NetworkRegistry
begin

text \<open>
  The start of the service, \<open>src/index.ts\<close>, and the seed of its tables, \<open>prisma/seed.ts\<close>. What the process
  does is the list of events of the state; PostgreSQL, Fastify and the registration of the routes are
  parameters that may fail. \<open>be_autoReload\<close> says whether the class of the registry has the methods
  \<open>startAutoReload\<close> and \<open>stopAutoReload\<close>, \<open>be_createQueue\<close> whether \<open>webhook-worker.ts\<close> exports
  \<open>createWebhookQueue\<close>; in the repository they do not. The package is compiled to CommonJS, where a missing
  export is \<open>undefined\<close> until it is called.
\<close>

section \<open>Starting\<close>

datatype boot_event =
    PostgresConnected
  | AutoReloadStarted
  | RedisCreated
  | QueueCreated
  | WorkerStarted
  | RouteRegistered string
  | Listening int string
  | AppClosed
  | AutoReloadStopped
  | WorkerClosed
  | QueueClosed
  | RedisQuit
  | PostgresDisconnected
  | Exited int

record boot_state =
  bt_registry :: registry
  bt_log :: "boot_event list"

record boot_env =
  be_config :: "issues + config"
  be_connect :: "exn + unit"
  be_autoReload :: bool
  be_createQueue :: bool
  be_register :: "string \<Rightarrow> exn + unit"
  be_listen :: "exn + unit"

definition happen :: "boot_event \<Rightarrow> (boot_state, exn, unit) prog" where
  "happen e = (\<lambda>s. (Inr (), s\<lparr>bt_log := bt_log s @ [e]\<rparr>))"

text \<open>\<open>load(configs)\<close> clears the map and then iterates; without an argument that throws.\<close>

definition load_call :: "network_config list option \<Rightarrow> (boot_state, exn, unit) prog" where
  "load_call configs = (\<lambda>s.
     case configs of
       None \<Rightarrow> (Inl (JsError ''TypeError'' ''configs is not iterable''), s\<lparr>bt_registry := []\<rparr>)
     | Some cs \<Rightarrow> (Inr (), s\<lparr>bt_registry := registry_load cs\<rparr>))"

definition method_call :: "bool \<Rightarrow> string \<Rightarrow> boot_event \<Rightarrow> (boot_state, exn, unit) prog" where
  "method_call present name e =
     (if present then happen e else throw (JsError ''TypeError'' (name @ '' is not a function'')))"

definition register_route :: "boot_env \<Rightarrow> string \<Rightarrow> (boot_state, exn, unit) prog" where
  "register_route E name = seq (of_sum (be_register E name)) (\<lambda>_. happen (RouteRegistered name))"

definition bootstrap :: "boot_env \<Rightarrow> config \<Rightarrow> (boot_state, exn, unit) prog" where
  "bootstrap E c =
     seq (of_sum (be_connect E)) (\<lambda>_.
     seq (happen PostgresConnected) (\<lambda>_.
     seq (load_call None) (\<lambda>_.
     seq (method_call (be_autoReload E) ''networkRegistry.startAutoReload'' AutoReloadStarted) (\<lambda>_.
     seq (happen RedisCreated) (\<lambda>_.
     seq (method_call (be_createQueue E) ''createWebhookQueue'' QueueCreated) (\<lambda>_.
     seq (happen WorkerStarted) (\<lambda>_.
     seq (register_route E ''registerHealthRoute'') (\<lambda>_.
     seq (register_route E ''registerSupportedRoute'') (\<lambda>_.
     seq (register_route E ''registerAdminRoutes'') (\<lambda>_.
     seq (register_route E ''registerSellersRoutes'') (\<lambda>_.
     seq (of_sum (be_listen E)) (\<lambda>_.
     happen (Listening (cf_PORT c) (cf_HOST c))))))))))))))"

text \<open>\<open>bootstrap().catch(... process.exit(1))\<close>; the configuration exits by itself.\<close>

definition start :: "boot_env \<Rightarrow> (boot_state, exn, unit) prog" where
  "start E =
     (case be_config E of
        Inl _ \<Rightarrow> happen (Exited 1)
      | Inr c \<Rightarrow> try_catch (bootstrap E c) (\<lambda>_. happen (Exited 1)))"

definition shutdown :: "boot_env \<Rightarrow> (boot_state, exn, unit) prog" where
  "shutdown E =
     seq (happen AppClosed) (\<lambda>_.
     seq (method_call (be_autoReload E) ''networkRegistry.stopAutoReload'' AutoReloadStopped) (\<lambda>_.
     seq (happen WorkerClosed) (\<lambda>_.
     seq (happen QueueClosed) (\<lambda>_.
     seq (happen RedisQuit) (\<lambda>_.
     seq (happen PostgresDisconnected) (\<lambda>_.
     happen (Exited 0)))))))"

text \<open>The service does not start: whatever the configuration, PostgreSQL and Fastify do, the process exits
  with code 1 and never listens, because the registry is loaded without its argument; when
  PostgreSQL answered, that call has also emptied the registry of its default networks.
\<close>

theorem never_listens:
  assumes "start E s = (r, s')"
  shows "r = Inr () \<and> (\<exists>es. bt_log s' = bt_log s @ es @ [Exited 1] \<and> (\<forall>port host. Listening port host \<notin> set es)) \<and>
    ((\<exists>c. be_config E = Inr c) \<and> be_connect E = Inr () \<longrightarrow> bt_registry s' = [])"
  using assms
  by (auto simp: start_def bootstrap_def load_call_def happen_def try_catch_def seq_def of_sum_def
      split: sum.splits intro: exI [where x = "[]"] exI [where x = "[PostgresConnected]"])

lemma never_listens_witness:
  "bt_registry (snd (start \<lparr>be_config = Inr sample_config, be_connect = Inr (), be_autoReload = False, be_createQueue = False, be_register = (\<lambda>_. Inr ()),
     be_listen = Inr ()\<rparr> \<lparr>bt_registry = registry_load (DEFAULT_NETWORKS (\<lambda>_. None)), bt_log = []\<rparr>)) = []"
proof -
  let ?E = "\<lparr>be_config = Inr sample_config, be_connect = Inr (), be_autoReload = False, be_createQueue = False, be_register = (\<lambda>_. Inr ()), be_listen = Inr ()\<rparr>"
  obtain r s' where run: "start ?E \<lparr>bt_registry = registry_load (DEFAULT_NETWORKS (\<lambda>_. None)), bt_log = []\<rparr> = (r, s')" by fastforce
  show ?thesis using never_listens [OF run] run by simp
qed

text \<open>
  And a signal would not stop it in order: without the method the shutdown throws after the server was
  closed, and the worker, the queue, Redis and PostgreSQL stay open.
\<close>

theorem shutdown_incomplete:
  assumes "\<not> be_autoReload E"
  shows "\<exists>e. shutdown E s = (Inl e, s\<lparr>bt_log := bt_log s @ [AppClosed]\<rparr>)"
  using assms by (simp add: shutdown_def happen_def seq_def method_call_def throw_def)

section \<open>The seed\<close>

definition seed_network :: "string \<Rightarrow> int \<Rightarrow> network_row" where
  "seed_network ulid clock =
     \<lparr>nw_id = ulid, nw_chainId = 8453, nw_name = ''base-mainnet'', nw_rpcUrl = ''https://mainnet.base.org'',
      nw_fallbackRpcUrl = Some ''https://base.drpc.org'', nw_nativeCurrency = ''ETH'', nw_blockExplorer = ''https://basescan.org'',
      nw_active = True, nw_addedBy = ''seed'', nw_createdAt = clock\<rparr>"

definition seed_testnet :: "string \<Rightarrow> int \<Rightarrow> network_row" where
  "seed_testnet ulid clock =
     \<lparr>nw_id = ulid, nw_chainId = 84532, nw_name = ''base-sepolia'', nw_rpcUrl = ''https://sepolia.base.org'',
      nw_fallbackRpcUrl = None, nw_nativeCurrency = ''ETH'', nw_blockExplorer = ''https://sepolia.basescan.org'',
      nw_active = False, nw_addedBy = ''seed'', nw_createdAt = clock\<rparr>"

definition seed_usdc :: "string \<Rightarrow> string \<Rightarrow> string \<Rightarrow> bool \<Rightarrow> int \<Rightarrow> asset_row" where
  "seed_usdc ulid networkId address active clock =
     \<lparr>ast_id = ulid, ast_networkId = networkId, ast_symbol = ''USDC'', ast_address = address, ast_decimals = 6, ast_minAmount = ''1'',
      ast_maxAmount = ''1000000000000'', ast_active = active, ast_createdAt = clock\<rparr>"

definition upsert_network :: "admin_env \<Rightarrow> network_row \<Rightarrow> network_row admin_prog" where
  "upsert_network E n = in_networks (db_upsert (ae_network E) (\<lambda>m. nw_chainId m = nw_chainId n) n id)"

definition upsert_asset :: "admin_env \<Rightarrow> asset_row \<Rightarrow> asset_row admin_prog" where
  "upsert_asset E a = in_assets (db_upsert (ae_asset E) (\<lambda>b. ast_networkId b = ast_networkId a \<and> ast_symbol b = ast_symbol a) a id)"

definition seed :: "admin_env \<Rightarrow> (nat \<Rightarrow> string) \<Rightarrow> int \<Rightarrow> unit admin_prog" where
  "seed E ulid clock =
     seq (upsert_network E (seed_network (ulid 0) clock)) (\<lambda>baseMainnet.
     seq (upsert_asset E (seed_usdc (ulid 1) (nw_id baseMainnet) ''0x833589fCD6eDb6E08f4c7C32D4f71b54bdA02913'' True clock)) (\<lambda>_.
     seq (upsert_network E (seed_testnet (ulid 2) clock)) (\<lambda>baseSepolia.
     seq (upsert_asset E (seed_usdc (ulid 3) (nw_id baseSepolia) ''0x036CbD53842c5426634e7929541eC2318f3dCF7e'' False clock)) (\<lambda>_.
     ret ()))))"

lemma upsert_keep_run:
  assumes "prisma_table T clash" "db_upsert T p n id rs = (Inr v, rs')" "p n"
  shows "v \<in> set rs' \<and> p v \<and> (rs' = rs \<or> (rs' = rs @ [n] \<and> v = n \<and> (\<forall>q\<in>set rs. \<not> p q)))"
  using prisma_table.upsert_keep_cases [OF assms(1,2)] assms(3) by (metis in_set_conv_decomp sum.inject(2) sum.distinct(1))

lemma upsert_again:
  assumes "prisma_table T clash" "db_upsert T p n id rs = (Inr v, rs')" "u \<in> set rs" "p u"
  shows "rs' = rs \<and> v \<in> set rs \<and> p v"
  using prisma_table.upsert_keep_cases [OF assms(1,2)] assms(3,4) by (metis sum.inject(2) sum.distinct(1))

lemma upsert_network_run:
  assumes "admin_tables E" "upsert_network E n db = (Inr v, db')"
  shows "\<exists>ns. db' = db\<lparr>ad_networks := ns\<rparr> \<and> v \<in> set ns \<and> nw_chainId v = nw_chainId n \<and>
    (ns = ad_networks db \<or> (ns = ad_networks db @ [n] \<and> v = n \<and> (\<forall>m\<in>set (ad_networks db). nw_chainId m \<noteq> nw_chainId n)))"
proof -
  obtain ns where ns: "db_upsert (ae_network E) (\<lambda>m. nw_chainId m = nw_chainId n) n id (ad_networks db) = (Inr v, ns)"
      "db' = db\<lparr>ad_networks := ns\<rparr>"
    using assms(2) by (auto simp: upsert_network_def in_networks_def run_simps)
  show ?thesis using upsert_keep_run [OF admin_tablesD(1) [OF assms(1)] ns(1)] ns(2) by auto
qed

lemma upsert_asset_run:
  assumes "admin_tables E" "upsert_asset E a db = (Inr v, db')"
  shows "\<exists>xs. db' = db\<lparr>ad_assets := xs\<rparr> \<and> v \<in> set xs \<and> ast_networkId v = ast_networkId a \<and> ast_symbol v = ast_symbol a \<and>
    (xs = ad_assets db \<or> xs = ad_assets db @ [a])"
proof -
  obtain xs where xs: "db_upsert (ae_asset E) (\<lambda>b. ast_networkId b = ast_networkId a \<and> ast_symbol b = ast_symbol a) a id (ad_assets db) = (Inr v, xs)"
      "db' = db\<lparr>ad_assets := xs\<rparr>"
    using assms(2) by (auto simp: upsert_asset_def in_assets_def run_simps)
  show ?thesis using upsert_keep_run [OF admin_tablesD(2) [OF assms(1)] xs(1)] xs(2) by auto
qed

definition seeded :: "admin_db \<Rightarrow> bool" where
  "seeded db \<longleftrightarrow> distinct (map nw_chainId (ad_networks db)) \<and>
     (\<forall>chain\<in>{8453, 84532}. \<exists>n\<in>set (ad_networks db). nw_chainId n = chain \<and>
        (\<exists>a\<in>set (ad_assets db). ast_networkId a = nw_id n \<and> ast_symbol a = ''USDC''))"

lemma seed_steps:
  assumes "seed E ulid clock db = (Inr (), db')"
  obtains b d1 x d2 t d3 y where
    "upsert_network E (seed_network (ulid 0) clock) db = (Inr b, d1)"
    "upsert_asset E (seed_usdc (ulid 1) (nw_id b) ''0x833589fCD6eDb6E08f4c7C32D4f71b54bdA02913'' True clock) d1 = (Inr x, d2)"
    "upsert_network E (seed_testnet (ulid 2) clock) d2 = (Inr t, d3)"
    "upsert_asset E (seed_usdc (ulid 3) (nw_id t) ''0x036CbD53842c5426634e7929541eC2318f3dCF7e'' False clock) d3 = (Inr y, db')"
  using assms by (auto simp: seed_def run_simps)

lemma seed_makes:
  assumes "admin_tables E" "distinct (map nw_chainId (ad_networks db))" "seed E ulid clock db = (Inr (), db')"
  shows "seeded db' \<and> (\<exists>ns xs. ad_networks db' = ad_networks db @ ns \<and> ad_assets db' = ad_assets db @ xs \<and> ad_sellers db' = ad_sellers db)"
proof -
  obtain b d1 x d2 t d3 y where run:
    "upsert_network E (seed_network (ulid 0) clock) db = (Inr b, d1)"
    "upsert_asset E (seed_usdc (ulid 1) (nw_id b) ''0x833589fCD6eDb6E08f4c7C32D4f71b54bdA02913'' True clock) d1 = (Inr x, d2)"
    "upsert_network E (seed_testnet (ulid 2) clock) d2 = (Inr t, d3)"
    "upsert_asset E (seed_usdc (ulid 3) (nw_id t) ''0x036CbD53842c5426634e7929541eC2318f3dCF7e'' False clock) d3 = (Inr y, db')"
    using seed_steps [OF assms(3)] by blast
  obtain n1 where n1: "d1 = db\<lparr>ad_networks := n1\<rparr>" "b \<in> set n1" "nw_chainId b = 8453"
      "n1 = ad_networks db \<or> n1 = ad_networks db @ [b] \<and> (\<forall>m\<in>set (ad_networks db). nw_chainId m \<noteq> 8453)"
    using upsert_network_run [OF assms(1) run(1)] by (auto simp: seed_network_def)
  obtain x1 where x1: "d2 = d1\<lparr>ad_assets := x1\<rparr>" "x \<in> set x1" "ast_networkId x = nw_id b" "ast_symbol x = ''USDC''"
      "\<exists>xs. x1 = ad_assets d1 @ xs"
    using upsert_asset_run [OF assms(1) run(2)] by (auto simp: seed_usdc_def)
  obtain n2 where n2: "d3 = d2\<lparr>ad_networks := n2\<rparr>" "t \<in> set n2" "nw_chainId t = 84532"
      "n2 = ad_networks d2 \<or> n2 = ad_networks d2 @ [t] \<and> (\<forall>m\<in>set (ad_networks d2). nw_chainId m \<noteq> 84532)"
    using upsert_network_run [OF assms(1) run(3)] by (auto simp: seed_testnet_def)
  obtain x2 where x2: "db' = d3\<lparr>ad_assets := x2\<rparr>" "y \<in> set x2" "ast_networkId y = nw_id t" "ast_symbol y = ''USDC''"
      "\<exists>xs. x2 = ad_assets d3 @ xs"
    using upsert_asset_run [OF assms(1) run(4)] by (auto simp: seed_usdc_def)
  have fields: "ad_networks db' = n2" "ad_assets db' = x2" "ad_networks d2 = n1" "ad_assets d3 = x1" "ad_assets d1 = ad_assets db"
    "ad_sellers db' = ad_sellers db"
    using n1(1) x1(1) n2(1) x2(1) by simp_all
  have "distinct (map nw_chainId n1)" using n1(3,4) assms(2) by auto
  then have d: "distinct (map nw_chainId n2)" using n2(3,4) fields(3) by auto
  have in_x2: "x \<in> set x2" using x1(2) x2(5) fields(4) by auto
  have b: "b \<in> set n2" using n1(2) n2(4) fields(3) by auto
  have "\<exists>ns. n1 = ad_networks db @ ns" "\<exists>ns. n2 = n1 @ ns" using n1(4) n2(4) fields(3) by auto
  then have pre: "\<exists>ns. n2 = ad_networks db @ ns" "\<exists>xs. x2 = ad_assets db @ xs"
    using x1(5) x2(5) fields(4,5) by (metis append_assoc)+
  have "seeded db'"
    unfolding seeded_def fields
    using d b n1(3) n2(2,3) in_x2 x1(3,4) x2(2-4) by blast
  then show ?thesis using pre fields by auto
qed

lemma same_chain:
  assumes "distinct (map nw_chainId ns)" "n \<in> set ns" "m \<in> set ns" "nw_chainId n = nw_chainId m"
  shows "n = m"
  using assms by (metis distinct_map inj_onD)

text \<open>One half of the seed on tables that have its network and asset.\<close>

lemma seed_half:
  assumes "admin_tables E" "seeded db" "chain \<in> {8453, 84532}" "nw_chainId n = chain"
    and "upsert_network E n db = (Inr v, d1)" "upsert_asset E (seed_usdc i (nw_id v) address active clock) d1 = (Inr x, d2)"
  shows "d2 = db"
proof -
  obtain m a where m: "m \<in> set (ad_networks db)" "nw_chainId m = chain" "a \<in> set (ad_assets db)" "ast_networkId a = nw_id m"
      "ast_symbol a = ''USDC''"
    using assms(2,3) unfolding seeded_def by blast
  obtain ns where ns: "db_upsert (ae_network E) (\<lambda>k. nw_chainId k = nw_chainId n) n id (ad_networks db) = (Inr v, ns)"
      "d1 = db\<lparr>ad_networks := ns\<rparr>"
    using assms(5) by (auto simp: upsert_network_def in_networks_def run_simps)
  have v: "ns = ad_networks db" "v \<in> set (ad_networks db)" "nw_chainId v = nw_chainId n"
    using upsert_again [OF admin_tablesD(1) [OF assms(1)] ns(1) m(1)] m(2) assms(4) by auto
  then have d1: "d1 = db" using ns(2) by simp
  have vm: "v = m"
  proof (rule same_chain)
    show "distinct (map nw_chainId (ad_networks db))" using assms(2) by (simp add: seeded_def)
    show "nw_chainId v = nw_chainId m" using v(3) m(2) assms(4) by simp
  qed (rule v(2), rule m(1))
  obtain xs where xs: "db_upsert (ae_asset E) (\<lambda>b. ast_networkId b = nw_id m \<and> ast_symbol b = ''USDC'') (seed_usdc i (nw_id m) address active clock)
      id (ad_assets db) = (Inr x, xs)" "d2 = db\<lparr>ad_assets := xs\<rparr>"
    using assms(6) d1 vm by (auto simp: upsert_asset_def in_assets_def run_simps seed_usdc_def)
  have "xs = ad_assets db" using upsert_again [OF admin_tablesD(2) [OF assms(1)] xs(1) m(3)] m(4,5) by auto
  then show ?thesis using xs(2) by simp
qed

text \<open>The seed can be run again: run on tables with distinct chain ids it keeps every row and makes sure of
  the two networks with USDC on each, and a second run, with whatever new ids and times, changes nothing.
\<close>

theorem seed_idempotent:
  assumes "admin_tables E" "distinct (map nw_chainId (ad_networks db))" "seed E ulid clock db = (Inr (), db1)"
    and "seed E ulid' clock' db1 = (Inr (), db2)"
  shows "db2 = db1 \<and> seeded db1 \<and> (\<exists>ns xs. ad_networks db1 = ad_networks db @ ns \<and> ad_assets db1 = ad_assets db @ xs)"
proof -
  have s: "seeded db1" "\<exists>ns xs. ad_networks db1 = ad_networks db @ ns \<and> ad_assets db1 = ad_assets db @ xs"
    using seed_makes [OF assms(1-3)] by blast+
  obtain b d1 x d2 t d3 y where run:
    "upsert_network E (seed_network (ulid' 0) clock') db1 = (Inr b, d1)"
    "upsert_asset E (seed_usdc (ulid' 1) (nw_id b) ''0x833589fCD6eDb6E08f4c7C32D4f71b54bdA02913'' True clock') d1 = (Inr x, d2)"
    "upsert_network E (seed_testnet (ulid' 2) clock') d2 = (Inr t, d3)"
    "upsert_asset E (seed_usdc (ulid' 3) (nw_id t) ''0x036CbD53842c5426634e7929541eC2318f3dCF7e'' False clock') d3 = (Inr y, db2)"
    using seed_steps [OF assms(4)] by blast
  have "d2 = db1" using seed_half [OF assms(1) s(1) _ _ run(1,2), of 8453] by (simp add: seed_network_def)
  then have run3: "upsert_network E (seed_testnet (ulid' 2) clock') db1 = (Inr t, d3)" using run(3) by simp
  then have "db2 = db1" using seed_half [OF assms(1) s(1) _ _ run3 run(4), of 84532] by (simp add: seed_testnet_def)
  then show ?thesis using s by blast
qed

definition no_rows :: admin_db where
  "no_rows = \<lparr>ad_networks = [], ad_assets = [], ad_sellers = []\<rparr>"

definition sample_ids :: "string \<Rightarrow> nat \<Rightarrow> string" where
  "sample_ids p k = p @ nat_digits k"

lemma sample_seeds:
  "fst (seed sample_admin (sample_ids ''a'') 0 no_rows) = Inr ()"
  "fst (seed sample_admin (sample_ids ''b'') 9 (snd (seed sample_admin (sample_ids ''a'') 0 no_rows))) = Inr ()"
  by code_simp+

lemma seed_idempotent_witness:
  "snd (seed sample_admin (sample_ids ''b'') 9 (snd (seed sample_admin (sample_ids ''a'') 0 no_rows))) =
     snd (seed sample_admin (sample_ids ''a'') 0 no_rows)"
proof -
  obtain db1 where 1: "seed sample_admin (sample_ids ''a'') 0 no_rows = (Inr (), db1)"
    using sample_seeds(1) by (cases "seed sample_admin (sample_ids ''a'') 0 no_rows") simp
  obtain db2 where 2: "seed sample_admin (sample_ids ''b'') 9 db1 = (Inr (), db2)"
    using sample_seeds(2) 1 by (cases "seed sample_admin (sample_ids ''b'') 9 db1") simp
  have "distinct (map nw_chainId (ad_networks no_rows))" by (simp add: no_rows_def)
  from seed_idempotent [OF sample_admin_tables this 1 2] show ?thesis using 1 2 by simp
qed

end
