(* ===== verification/ExampleSeller.thy ===== *)
theory ExampleSeller
  imports Interop KeyProvider
begin

text \<open>
  The seller of \<open>examples/seller-server\<close>: its client of the facilitator (\<open>facilitator-client.ts\<close>) and the
  Express server that sells one resource (\<open>server.ts\<close>). \<open>fetch\<close> is a function of the outside state and
  every request is in the log.
\<close>

section \<open>The client\<close>

text \<open>A thrown \<open>FacilitatorError\<close>, with the values its fields were given, or any other exception.\<close>

datatype example_error = ExFacilitator json json json | ExOther exn

record payment_requirement =
  rq_seller :: string
  rq_invoiceId :: string
  rq_requiredAmount :: string
  rq_description :: "string option"

definition createPaymentRequirement :: "payment_requirement \<Rightarrow> json" where
  "createPaymentRequirement p = JObj
     ([(''version'', JStr ''1''), (''scheme'', JStr ''exact''), (''network'', JStr ''base-mainnet''), (''asset'', JStr ''USDC''),
       (''invoiceId'', JStr (rq_invoiceId p)), (''requiredAmount'', JStr (rq_requiredAmount p)),
       (''recipient'', JStr (rq_seller p))] @ opt_str ''description'' (rq_description p))"

definition ex_read :: "json \<Rightarrow> string \<Rightarrow> ('w, example_error, json option) prog" where
  "ex_read j k = (case js_get j k of Inl e \<Rightarrow> throw (ExOther e) | Inr v \<Rightarrow> ret v)"

definition ex_lift :: "exn + 'a \<Rightarrow> ('w, example_error, 'a) prog" where
  "ex_lift r = (case r of Inl e \<Rightarrow> throw (ExOther e) | Inr x \<Rightarrow> ret x)"

definition ex_fetch :: "'x network \<Rightarrow> api_request \<Rightarrow> ('x client_world, example_error, http_answer) prog" where
  "ex_fetch F rq = (\<lambda>w. case exchange F rq w of (Inl e, w1) \<Rightarrow> (Inl (ExOther e), w1) | (Inr a, w1) \<Rightarrow> (Inr a, w1))"

definition ex_request :: "string \<Rightarrow> string \<Rightarrow> json \<Rightarrow> api_request" where
  "ex_request base path body =
     \<lparr>ar_method = ''POST'', ar_url = base @ path, ar_headers = [(''Content-Type'', ''application/json'')], ar_body = Some body\<rparr>"

text \<open>The error of an answer that is not ok: \<open>data.error ?? data\<close>, and defaults for its fields.\<close>

definition ex_failure :: "json \<Rightarrow> ('w, example_error, 'a) prog" where
  "ex_failure data =
     seq (ex_read data ''error'') (\<lambda>e.
     let err = nullish_or e data in
     seq (ex_read err ''code'') (\<lambda>code.
     seq (ex_read err ''reason'') (\<lambda>reason.
     seq (ex_read err ''message'') (\<lambda>message.
     throw (ExFacilitator (nullish_or code (JStr ''facilitator_error'')) (nullish_or reason (JStr ''Unknown error''))
       (nullish_or message (JStr (js_stringify err))))))))"

definition facilitatorPost :: "'x network \<Rightarrow> string \<Rightarrow> string \<Rightarrow> json \<Rightarrow> ('x client_world, example_error, json) prog" where
  "facilitatorPost F base path body =
     seq (ex_fetch F (ex_request base path body)) (\<lambda>res.
     seq (ex_lift (ha_json res)) (\<lambda>data.
     if answer_ok res then ret data else ex_failure data))"

definition ex_verify :: "'x network \<Rightarrow> string \<Rightarrow> json \<Rightarrow> ('x client_world, example_error, json) prog" where
  "ex_verify F base proof = facilitatorPost F base ''/verify'' proof"

definition ex_settle_body :: "json option \<Rightarrow> string option \<Rightarrow> json" where
  "ex_settle_body paymentRequestId referralCode = JObj
     ((case paymentRequestId of Some v \<Rightarrow> [(''paymentRequestId'', v)] | None \<Rightarrow> []) @ opt_str ''referralCode'' referralCode)"

definition ex_settle :: "'x network \<Rightarrow> string \<Rightarrow> json option \<Rightarrow> string option \<Rightarrow> ('x client_world, example_error, json) prog" where
  "ex_settle F base paymentRequestId referralCode =
     facilitatorPost F base ''/settle'' (ex_settle_body paymentRequestId referralCode)"

text \<open>\<open>{ ...verify, ...settle }\<close>; spreading anything but an object or a string adds no name that is read.\<close>

definition members :: "json \<Rightarrow> (string \<times> json) list" where
  "members j = (case j of JObj kvs \<Rightarrow> kvs | _ \<Rightarrow> [])"

definition merged :: "json \<Rightarrow> json \<Rightarrow> json" where
  "merged verify settle = JObj (AList.merge (members verify) (members settle))"

definition verifyAndSettle :: "'x network \<Rightarrow> string \<Rightarrow> json \<Rightarrow> string option \<Rightarrow> ('x client_world, example_error, json) prog" where
  "verifyAndSettle F base proof referralCode =
     seq (ex_verify F base proof) (\<lambda>verify.
     seq (ex_read verify ''status'') (\<lambda>status.
     if status \<noteq> Some (JStr ''accepted'') then
       throw (ExFacilitator (JStr ''verify_rejected'') (JStr ''Payment proof was rejected'')
         (JStr (''Verification status: '' @ template_of status)))
     else
       seq (ex_settle F base (json_get verify ''paymentRequestId'') referralCode) (\<lambda>settle.
       ret (merged verify settle))))"

definition ex_getReceipt :: "'x network \<Rightarrow> string \<Rightarrow> string \<Rightarrow> ('x client_world, example_error, json) prog" where
  "ex_getReceipt F base receiptId =
     seq (ex_fetch F \<lparr>ar_method = ''GET'', ar_url = base @ ''/receipts/'' @ receiptId, ar_headers = [], ar_body = None\<rparr>) (\<lambda>res.
     seq (ex_lift (ha_json res)) (\<lambda>data.
     if answer_ok res then ret data
     else
       seq (ex_read data ''error'') (\<lambda>e.
       let err = nullish_or e data in
       seq (ex_read err ''message'') (\<lambda>message. seq (ex_read err ''code'') (\<lambda>code. seq (ex_read err ''reason'') (\<lambda>reason.
       throw (ExFacilitator (nullish_or code JNull) (nullish_or reason JNull) (nullish_or message JNull))))))))"

section \<open>The server\<close>

text \<open>
  \<open>Unhandled\<close> is a rejected promise of the middleware: Express does not answer. The price and the
  network are constants of the server.
\<close>

datatype seller_answer = Served reply | Unhandled exn

definition payment_refusal :: "example_error \<Rightarrow> reply" where
  "payment_refusal err =
     mk_reply 402 (JObj [(''error'', JObj
       (case err of
          ExFacilitator code reason message \<Rightarrow>
            [(''code'', nullish_or (Some code) (JStr ''payment_failed'')),
             (''reason'', nullish_or (Some reason) (JStr ''Payment verification or settlement failed'')),
             (''message'', JStr (js_String message))]
        | ExOther e \<Rightarrow>
            [(''code'', JStr ''payment_failed''), (''reason'', JStr ''Payment verification or settlement failed''),
             (''message'', JStr (exn_message e))]))])"

definition premium_data :: "json \<Rightarrow> string \<Rightarrow> reply" where
  "premium_data result ts =
     mk_reply 200 (JObj ([(''data'', JObj [(''value'', JNum 42), (''source'', JStr ''premium-feed''), (''ts'', JStr ts)])] @
       opt_json ''receiptId'' (json_get result ''receiptId'') @ opt_json ''requestId'' (json_get result ''requestId'')))"

definition premium_requirement :: "string \<Rightarrow> string \<Rightarrow> string \<Rightarrow> int \<Rightarrow> payment_requirement" where
  "premium_requirement seller http_method path now =
     \<lparr>rq_seller = seller, rq_invoiceId = ''inv_'' @ path @ ''_'' @ int_str now, rq_requiredAmount = ''1000000'',
      rq_description = Some (''Access: '' @ http_method @ '' '' @ path)\<rparr>"

text \<open>The header as it comes: absent and empty are the same; \<open>JSON.parse\<close> throws outside the \<open>try\<close>.\<close>

definition read_proof :: "string option \<Rightarrow> exn + json" where
  "read_proof header =
     (case header of
        Some (c # cs) \<Rightarrow> (case json_parse (c # cs) of Some j \<Rightarrow> Inr j | None \<Rightarrow> Inl (JsError ''SyntaxError'' ''Unexpected token''))
      | _ \<Rightarrow> Inr JNull)"

definition premium_route ::
  "'x network \<Rightarrow> string \<Rightarrow> string \<Rightarrow> string option \<Rightarrow> int \<Rightarrow> string \<Rightarrow> 'x client_world \<Rightarrow> seller_answer \<times> 'x client_world" where
  "premium_route F base seller header now ts w =
     (case read_proof header of
        Inl e \<Rightarrow> (Unhandled e, w)
      | Inr proof \<Rightarrow>
          if falsy (Some proof) then
            (Served (mk_reply 402 (createPaymentRequirement (premium_requirement seller ''GET'' ''/premium/data'' now))), w)
          else
            (case verifyAndSettle F base proof None w of
               (Inl err, w1) \<Rightarrow> (Served (payment_refusal err), w1)
             | (Inr result, w1) \<Rightarrow> (Served (premium_data result ts), w1)))"

section \<open>What is served\<close>

lemma ex_failure_throws [simp]: "ex_failure data w \<noteq> (Inr j, w')"
  by (auto simp: ex_failure_def ex_read_def seq_def throw_def ret_def Let_def split: sum.splits)

lemma facilitatorPost_ok:
  "facilitatorPost F base path body w = (Inr j, w') \<longleftrightarrow>
     (\<exists>a. exchange F (ex_request base path body) w = (Inr a, w') \<and> answer_ok a \<and> ha_json a = Inr j)"
  by (auto simp: facilitatorPost_def ex_fetch_def ex_lift_def seq_def throw_def ret_def split: prod.splits sum.splits if_splits)

lemma ex_read_ok: "ex_read j k w = (Inr v, w') \<longleftrightarrow> w' = w \<and> js_get j k = Inr v"
  by (auto simp: ex_read_def throw_def ret_def split: sum.splits)

lemma verifyAndSettle_ok:
  "verifyAndSettle F base proof ref w = (Inr r, w') \<longleftrightarrow>
     (\<exists>verify w1 settle. ex_verify F base proof w = (Inr verify, w1) \<and>
        js_get verify ''status'' = Inr (Some (JStr ''accepted'')) \<and>
        ex_settle F base (json_get verify ''paymentRequestId'') ref w1 = (Inr settle, w') \<and> r = merged verify settle)"
  by (auto simp: verifyAndSettle_def run_simps ex_read_ok)

text \<open>The steps of a request that is served: what the seller looks at, and no more.\<close>

definition paid_exchange :: "'x network \<Rightarrow> string \<Rightarrow> json \<Rightarrow> 'x client_world \<Rightarrow> 'x client_world \<Rightarrow> bool" where
  "paid_exchange F base proof w w' \<longleftrightarrow>
     (\<exists>a verify w1 b settle.
        exchange F (ex_request base ''/verify'' proof) w = (Inr a, w1) \<and> answer_ok a \<and> ha_json a = Inr verify \<and>
        js_get verify ''status'' = Inr (Some (JStr ''accepted'')) \<and>
        exchange F (ex_request base ''/settle'' (ex_settle_body (json_get verify ''paymentRequestId'') None)) w1 = (Inr b, w') \<and>
        answer_ok b \<and> ha_json b = Inr settle)"

lemma premium_cases:
  "premium_route F base seller header now ts w = (a, w') \<Longrightarrow>
     (\<exists>e. a = Unhandled e \<and> w' = w) \<or> (\<exists>p. a = Served p \<and> reply_status p = Some 402) \<or>
     (\<exists>p proof result. a = Served p \<and> reply_status p = Some 200 \<and> read_proof header = Inr proof \<and> \<not> falsy (Some proof) \<and>
        verifyAndSettle F base proof None w = (Inr result, w'))"
  by (auto simp: premium_route_def payment_refusal_def premium_data_def mk_reply_def split: sum.splits if_splits prod.splits)

lemma mk_reply_status [simp]: "reply_status (mk_reply s j) = Some s"
  by (simp add: mk_reply_def)

text \<open>The example seller serves its data exactly when the header is a JSON value that is not falsy, the answer
  of \<open>/verify\<close> to it is ok with status \<open>accepted\<close>, and the answer of \<open>/settle\<close> is ok with a JSON body:
  neither the recipient, the amount and the invoice of the proof nor the \<open>status\<close> of the settlement
  are part of the condition.
\<close>

theorem premium_exact:
  "(\<exists>p. premium_route F base seller header now ts w = (Served p, w') \<and> reply_status p = Some 200) \<longleftrightarrow>
     (\<exists>proof. read_proof header = Inr proof \<and> \<not> falsy (Some proof) \<and> paid_exchange F base proof w w')"
proof
  assume "\<exists>p. premium_route F base seller header now ts w = (Served p, w') \<and> reply_status p = Some 200"
  then obtain proof' result where "read_proof header = Inr proof'" "\<not> falsy (Some proof')"
      "verifyAndSettle F base proof' None w = (Inr result, w')"
    using premium_cases by fastforce
  then show "\<exists>proof. read_proof header = Inr proof \<and> \<not> falsy (Some proof) \<and> paid_exchange F base proof w w'"
    unfolding paid_exchange_def by (auto simp: verifyAndSettle_ok ex_verify_def ex_settle_def facilitatorPost_ok)
next
  assume "\<exists>proof. read_proof header = Inr proof \<and> \<not> falsy (Some proof) \<and> paid_exchange F base proof w w'"
  then obtain proof' where p: "read_proof header = Inr proof'" "\<not> falsy (Some proof')" "paid_exchange F base proof' w w'" by blast
  then have "\<exists>result. verifyAndSettle F base proof' None w = (Inr result, w')"
    unfolding paid_exchange_def by (auto simp: verifyAndSettle_ok ex_verify_def ex_settle_def facilitatorPost_ok)
  then show "\<exists>p. premium_route F base seller header now ts w = (Served p, w') \<and> reply_status p = Some 200"
    using p by (auto simp: premium_route_def premium_data_def)
qed

section \<open>Against the facilitator\<close>

text \<open>No settlement and no transfer.\<close>

definition unpaid :: "world \<Rightarrow> world \<Rightarrow> bool" where
  "unpaid w w' \<longleftrightarrow> settlements w' = settlements w \<and> submitted w' = submitted w"

interpretation unpaid: step_relation unpaid
  by unfold_locales (auto simp: unpaid_def)

lemma steps_unpaid_zoom:
  "steps unpaid (on_keys a)" "steps unpaid (on_networks b)" "steps unpaid (on_requests c)" "steps unpaid (on_verifications d)"
  by (rule stepsI, auto simp: unpaid_def zoom_defs zoom_eq)+

lemma steps_unpaid_iso: "steps unpaid (iso t)"
  by (rule stepsI) (auto simp: unpaid_def dest: iso_same)

lemma steps_unpaid_reject: "steps unpaid (reject clock rid code msg st)"
  unfolding reject_def by (intro unpaid.steps_intros steps_unpaid_iso)

lemma steps_unpaid_persist: "steps unpaid (persistVerification V rid body nw st code why h n uid clock)"
  unfolding persistVerification_def Let_def
  by (intro unpaid.steps_intros steps_unpaid_zoom)

lemma steps_unpaid_verify: "steps unpaid (verifyRoute V body rid now clock uid late)"
  unfolding verifyRoute_def runVerify_def verify_claim_def verify_signed_def Let_def
  by (intro unpaid.steps_intros steps_unpaid_iso steps_unpaid_reject steps_unpaid_zoom steps_unpaid_persist)
     (auto split: verify_response.split)

lemma steps_unpaid_endpoint: "steps unpaid (verifyEndpoint A V body rid now clock uid late)"
  unfolding verifyEndpoint_def validated_def
  by (auto intro: unpaid.steps_throw steps_unpaid_verify split: sum.split)

lemma facilitator_unpaid:
  assumes "facilitator E base rq w = (x, w')" "ar_method rq = ''POST''" "ar_url rq = base @ ''/verify''"
  shows "unpaid w w'"
proof -
  obtain r w1 where run: "verifyEndpoint (fa_validation E) (fa_verify E) (body_of rq) (fa_id E 0 w) (fa_clock E w) (fa_clock E w) (fa_id E 1 w) (fa_clock E w) w
      = (r, w1)" by fastforce
  have "w' = w1" using assms run
    by (cases r) (auto simp: facilitator_def answer_of_def reply_only_def seq_def ret_def Let_def)
  then show ?thesis using stepsD [OF steps_unpaid_endpoint run] by simp
qed

lemma ex_settle_fails:
  assumes "ex_settle (facilitator E base) base v ref w = (r, w')"
  shows "\<exists>e. r = Inl e" "cw_net w' = cw_net w"
proof -
  have "json_get (ex_settle_body v ref) ''verificationId'' = None"
    by (auto simp: ex_settle_body_def opt_str_def split: option.split)
  then obtain m where "facilitator E base (ex_request base ''/settle'' (ex_settle_body v ref)) (cw_net w) =
      (Inr \<lparr>ha_status = 400, ha_json = Inr (schema_answer m)\<rparr>, cw_net w)"
    using facilitator_settle [of "ex_request base ''/settle'' (ex_settle_body v ref)" base "ex_settle_body v ref" E "cw_net w"]
    by (auto simp: ex_request_def)
  then show "\<exists>e. r = Inl e" "cw_net w' = cw_net w" using assms
    by (auto simp: ex_settle_def facilitatorPost_def ex_fetch_def ex_lift_def exchange_def answer_ok_def ex_failure_def ex_read_def
        seq_def throw_def ret_def Let_def split: sum.splits)
qed

text \<open>The example cannot be completed against this facilitator: whatever the request carries, the seller answers
  402 or not at all, and nothing is settled or transferred. \<open>{ paymentRequestId }\<close> is not a body
  that \<open>/settle\<close> accepts, so an accepted proof is spent for nothing.
\<close>

theorem premium_never:
  assumes "premium_route (facilitator E base) base seller header now ts w = (a, w')"
  shows "(\<forall>p. a = Served p \<longrightarrow> reply_status p = Some 402) \<and> unpaid (cw_net w) (cw_net w')"
proof (cases "\<exists>proof. read_proof header = Inr proof \<and> \<not> falsy (Some proof)")
  case False
  then show ?thesis using assms by (auto simp: premium_route_def unpaid_def split: sum.splits if_splits)
next
  case True
  then obtain proof' where p: "read_proof header = Inr proof'" "\<not> falsy (Some proof')" by blast
  obtain r w1 where v: "ex_verify (facilitator E base) base proof' w = (r, w1)" by fastforce
  have w1: "unpaid (cw_net w) (cw_net w1)"
    using v facilitator_unpaid [of E base "ex_request base ''/verify'' proof'" "cw_net w"]
    by (auto simp: ex_verify_def facilitatorPost_def ex_fetch_def ex_lift_def exchange_def ex_request_def ex_failure_def ex_read_def
        seq_def throw_def ret_def Let_def split: sum.splits prod.splits if_splits)
  obtain res where run: "verifyAndSettle (facilitator E base) base proof' None w = (res, w')"
    using assms p by (auto simp: premium_route_def split: sum.splits prod.splits)
  have "(\<exists>e. res = Inl e) \<and> unpaid (cw_net w) (cw_net w')"
    using run v w1 ex_settle_fails
    by (cases r) (fastforce simp: verifyAndSettle_def ex_read_def seq_def throw_def ret_def unpaid_def split: sum.splits prod.splits if_splits)+
  then show ?thesis using assms p run by (auto simp: premium_route_def payment_refusal_def)
qed

lemma sample_proof_header: "read_proof (Some (js_stringify sample_raw)) = Inr sample_raw"
proof -
  have "wf_json sample_raw" by code_simp
  then have "json_parse (js_stringify sample_raw) = Some sample_raw" by (rule json_roundtrip)
  moreover have "js_stringify sample_raw \<noteq> []" by code_simp
  ultimately show ?thesis by (cases "js_stringify sample_raw") (auto simp: read_proof_def)
qed

lemma premium_never_witness:
  "\<exists>p w'. premium_route (facilitator sample_facilitator ''http://localhost:3000'') ''http://localhost:3000'' ''0xa''
       (Some (js_stringify sample_raw)) 0 '''' \<lparr>cw_net = sample_world, cw_log = []\<rparr> = (Served p, w') \<and>
     reply_status p = Some 402 \<and> submitted (cw_net w') = []"
proof -
  obtain a w' where run: "premium_route (facilitator sample_facilitator ''http://localhost:3000'') ''http://localhost:3000'' ''0xa''
       (Some (js_stringify sample_raw)) 0 '''' \<lparr>cw_net = sample_world, cw_log = []\<rparr> = (a, w')" by fastforce
  have "\<exists>p. a = Served p" using run by (auto simp: premium_route_def sample_proof_header split: if_splits sum.splits prod.splits)
  then show ?thesis
    using premium_never [OF run] run by (auto simp: unpaid_def sample_world_def empty_world_def)
qed

end
