(* ===== verification/Buyer.thy ===== *)
theory Buyer
  imports ExampleSeller
begin

text \<open>
  The buyer of \<open>examples/seller-server/buyer-sim.ts\<close>: it asks for the resource, signs the ERC-3009
  authorization that the answer 402 asks for, and asks again with the proof. viem's account is the
  parameter \<open>bu_sign\<close>, and \<open>bu_invalid\<close> the error it throws for a recipient that is not a string; the random
  nonce and the clock are arguments. At the end the three programs are put together: buyer, example
  seller and facilitator.
\<close>

section \<open>BigInt\<close>

text \<open>\<open>BigInt(s)\<close> of any string: white space around it, a sign before decimal digits, and the prefixes of the other bases.\<close>

definition in_base :: "nat \<Rightarrow> string \<Rightarrow> int option" where
  "in_base b ds =
     (if ds \<noteq> [] \<and> list_all (\<lambda>c. is_hex c \<and> hex_value c < b) ds
      then Some (foldl (\<lambda>acc c. acc * int b + int (hex_value c)) 0 ds) else None)"

definition string_bigint :: "string \<Rightarrow> int option" where
  "string_bigint s =
     (let t = js_trim s; p = take 2 t; ds = drop 2 t in
      if t = [] then Some 0
      else if decimal t then Some (bigint_of t)
      else if take 1 t = ''-'' \<and> decimal (drop 1 t) then Some (- bigint_of (drop 1 t))
      else if take 1 t = ''+'' \<and> decimal (drop 1 t) then Some (bigint_of (drop 1 t))
      else if p = ''0x'' \<or> p = ''0X'' then in_base 16 ds
      else if p = ''0o'' \<or> p = ''0O'' then in_base 8 ds
      else if p = ''0b'' \<or> p = ''0B'' then in_base 2 ds
      else None)"

definition json_bigint :: "json option \<Rightarrow> exn + int" where
  "json_bigint v =
     (case v of
        None \<Rightarrow> Inl (JsError ''TypeError'' ''Cannot convert undefined to a BigInt'')
      | Some JNull \<Rightarrow> Inl (JsError ''TypeError'' ''Cannot convert null to a BigInt'')
      | Some (JBool b) \<Rightarrow> Inr (if b then 1 else 0)
      | Some (JNum n) \<Rightarrow> Inr n
      | Some j \<Rightarrow>
          (case string_bigint (js_String j) of
             Some n \<Rightarrow> Inr n
           | None \<Rightarrow> Inl (JsError ''SyntaxError'' (''Cannot convert '' @ js_String j @ '' to a BigInt''))))"

section \<open>The authorization\<close>

record buyer_env =
  bu_seller :: string
  bu_address :: string
  bu_sign :: "eip712_domain \<Rightarrow> transfer_message \<Rightarrow> exn + string"
  bu_invalid :: "json option \<Rightarrow> exn"

definition USDC_DOMAIN :: eip712_domain where
  "USDC_DOMAIN = \<lparr>dm_name = ''USD Coin'', dm_version = ''2'', dm_chainId = 8453,
     dm_verifyingContract = ''0x833589fCD6eDb6E08f4c7C32D4f71b54bdA02913''\<rparr>"

definition buyer_message :: "buyer_env \<Rightarrow> string \<Rightarrow> int \<Rightarrow> int \<Rightarrow> string \<Rightarrow> transfer_message" where
  "buyer_message B recipient amount now nonce =
     \<lparr>tm_from = bu_address B, tm_to = recipient, tm_value = amount, tm_validAfter = 0,
      tm_validBefore = now div 1000 + 300, tm_nonce = nonce\<rparr>"

definition buyer_authorize :: "buyer_env \<Rightarrow> json \<Rightarrow> int \<Rightarrow> string \<Rightarrow> exn + (transfer_message \<times> string)" where
  "buyer_authorize B requirement now nonce =
     (case js_get requirement ''recipient'' of
        Inl e \<Rightarrow> Inl e
      | Inr recipient \<Rightarrow>
     (case json_bigint (json_get requirement ''requiredAmount'') of
        Inl e \<Rightarrow> Inl e
      | Inr amount \<Rightarrow>
     (case recipient of
        Some (JStr to_address) \<Rightarrow>
          (let m = buyer_message B to_address amount now nonce in
           case bu_sign B USDC_DOMAIN m of Inl e \<Rightarrow> Inl e | Inr signature \<Rightarrow> Inr (m, signature))
      | _ \<Rightarrow> Inl (bu_invalid B recipient))))"

text \<open>\<open>{ ...requirement, payload }\<close> with \<open>{ ...authorization, value, validAfter, validBefore }\<close>.\<close>

definition authorization_json :: "transfer_message \<Rightarrow> json" where
  "authorization_json m = JObj
     [(''from'', JStr (tm_from m)), (''to'', JStr (tm_to m)), (''value'', JStr (int_str (tm_value m))),
      (''validAfter'', JNum (tm_validAfter m)), (''validBefore'', JNum (tm_validBefore m)), (''nonce'', JStr (tm_nonce m))]"

definition proof_json :: "json \<Rightarrow> transfer_message \<Rightarrow> string \<Rightarrow> json" where
  "proof_json requirement m signature = JObj (AList.update ''payload''
     (JObj [(''signature'', JStr signature), (''authorization'', authorization_json m)]) (members requirement))"

section \<open>The run\<close>

datatype buyer_end = NotAsked int | Granted json "json option" | Refused int json

definition buyer_get :: "string \<Rightarrow> (string \<times> string) list \<Rightarrow> api_request" where
  "buyer_get url headers = \<lparr>ar_method = ''GET'', ar_url = url, ar_headers = headers, ar_body = None\<rparr>"

text \<open>\<open>s.replace(p, q)\<close> for strings: the first occurrence.\<close>

fun replace_first :: "string \<Rightarrow> string \<Rightarrow> string \<Rightarrow> string" where
  "replace_first p q [] = (if p = [] then q else [])"
| "replace_first p q (c # cs) = (if startsWith (c # cs) p then q @ drop (length p) (c # cs) else c # replace_first p q cs)"

definition buyer_run :: "'x network \<Rightarrow> buyer_env \<Rightarrow> int \<Rightarrow> string \<Rightarrow> ('x client_world, exn, buyer_end) prog" where
  "buyer_run F B now nonce =
     seq (exchange F (buyer_get (bu_seller B @ ''/premium/data'') [])) (\<lambda>probe.
     if ha_status probe \<noteq> 402 then ret (NotAsked (ha_status probe))
     else
       seq (of_sum (ha_json probe)) (\<lambda>requirement.
       seq (of_sum (buyer_authorize B requirement now nonce)) (\<lambda>signed.
       seq (exchange F (buyer_get (bu_seller B @ ''/premium/data'')
              [(''x-payment-proof'', js_stringify (proof_json requirement (fst signed) (snd signed)))])) (\<lambda>response.
       seq (of_sum (ha_json response)) (\<lambda>result.
       if ha_status response = 200 then
         seq (of_sum (js_get result ''receiptId'')) (\<lambda>receiptId.
         seq (exchange F (buyer_get (replace_first '':3001'' '':3000'' (bu_seller B) @ ''/receipts/'' @ template_of receiptId) []))
           (\<lambda>receipt.
         if answer_ok receipt then seq (of_sum (ha_json receipt)) (\<lambda>r. ret (Granted result (Some r)))
         else ret (Granted result None)))
       else ret (Refused (ha_status response) result))))))"

text \<open>The code of the process: an exception and an answer other than 402 end it with 1.\<close>

definition exit_code :: "exn + buyer_end \<Rightarrow> int" where
  "exit_code r = (case r of Inl _ \<Rightarrow> 1 | Inr (NotAsked _) \<Rightarrow> 1 | Inr _ \<Rightarrow> 0)"

section \<open>What the buyer signs\<close>

lemma js_trim_decimal:
  assumes "decimal s"
  shows "js_trim s = s"
proof -
  have none: "\<not> is_space c" if "is_digit c" for c
    using that by (auto simp: is_space_def is_digit_def Let_def)
  have "dropWhile is_space xs = xs" if "list_all is_digit xs" for xs
    using that none by (cases xs) auto
  then show ?thesis using assms by (simp add: js_trim_def decimal_def list_all_rev)
qed

lemma json_bigint_decimal: "decimal s \<Longrightarrow> json_bigint (Some (JStr s)) = Inr (bigint_of s)"
  by (auto simp: json_bigint_def string_bigint_def js_trim_decimal Let_def decimal_def)

lemma decimal_int_str: "0 \<le> i \<Longrightarrow> decimal (int_str i)"
  by (simp add: int_str_def nat_digits_decimal)

text \<open>The request the proof for a requirement of the example seller stands for.\<close>

definition proven_request :: "payment_requirement \<Rightarrow> transfer_message \<Rightarrow> string \<Rightarrow> verify_request" where
  "proven_request p m signature =
     \<lparr>vr_version = ''1'', vr_scheme = ''exact'', vr_network = ''base-mainnet'', vr_asset = ''USDC'',
      vr_invoiceId = rq_invoiceId p, vr_requiredAmount = rq_requiredAmount p, vr_recipient = rq_seller p,
      vr_payload = \<lparr>vp_signature = signature, vp_authorization =
        \<lparr>au_from = tm_from m, au_to = tm_to m, au_value = int_str (tm_value m), au_validAfter = tm_validAfter m,
         au_validBefore = tm_validBefore m, au_nonce = tm_nonce m\<rparr>\<rparr>\<rparr>"

definition requirement_ok :: "payment_requirement \<Rightarrow> bool" where
  "requirement_ok p \<longleftrightarrow> decimal (rq_requiredAmount p) \<and> hex0x 40 (rq_seller p) \<and>
     rq_invoiceId p \<noteq> [] \<and> length (rq_invoiceId p) \<le> 255"

lemma buyer_authorize_requirement:
  assumes "decimal (rq_requiredAmount p)"
    and "buyer_authorize B (createPaymentRequirement p) now nonce = Inr (m, signature)"
  shows "m = buyer_message B (rq_seller p) (bigint_of (rq_requiredAmount p)) now nonce \<and> bu_sign B USDC_DOMAIN m = Inr signature"
  using assms json_bigint_decimal [OF assms(1)]
  by (auto simp: buyer_authorize_def createPaymentRequirement_def js_get_def Let_def split: sum.splits)

lemma requirement_fields:
  "json_get (createPaymentRequirement p) ''version'' = Some (JStr ''1'')"
  "json_get (createPaymentRequirement p) ''scheme'' = Some (JStr ''exact'')"
  "json_get (createPaymentRequirement p) ''network'' = Some (JStr ''base-mainnet'')"
  "json_get (createPaymentRequirement p) ''asset'' = Some (JStr ''USDC'')"
  "json_get (createPaymentRequirement p) ''invoiceId'' = Some (JStr (rq_invoiceId p))"
  "json_get (createPaymentRequirement p) ''requiredAmount'' = Some (JStr (rq_requiredAmount p))"
  "json_get (createPaymentRequirement p) ''recipient'' = Some (JStr (rq_seller p))"
  by (simp_all add: createPaymentRequirement_def)

lemma proof_fields:
  "map_of (AList.update ''payload'' v (members (createPaymentRequirement p))) k =
     (if k = ''payload'' then Some v else json_get (createPaymentRequirement p) k)"
  by (auto simp: update_conv createPaymentRequirement_def members_def)

lemma proof_parses:
  assumes "requirement_ok p" "hex0x 40 (tm_from m)" "hex0x 64 (tm_nonce m)" "hex0x 130 signature" "tm_to m = rq_seller p"
    and "0 \<le> tm_value m" "0 \<le> tm_validAfter m" "0 < tm_validBefore m"
  shows "parseVerifyRequest (proof_json (createPaymentRequirement p) m signature) = Inr (proven_request p m signature)"
proof -
  have "AuthorizationSchema (Some (authorization_json m)) = Inr (vp_authorization (vr_payload (proven_request p m signature)))"
    using assms by (auto simp: AuthorizationSchema_def authorization_json_def proven_request_def authorization.defs decimal_int_str requirement_ok_def)
  then have "VerifyPayloadSchema (Some (JObj [(''signature'', JStr signature), (''authorization'', authorization_json m)])) =
      Inr (vr_payload (proven_request p m signature))"
    using assms by (auto simp: VerifyPayloadSchema_def proven_request_def verify_payload.defs)
  then have "VerifyRequestSchema (Some (proof_json (createPaymentRequirement p) m signature)) = Inr (proven_request p m signature)"
    using assms unfolding VerifyRequestSchema_def proof_json_def
    by (simp add: proof_fields requirement_fields proven_request_def verify_request.defs requirement_ok_def)
  then show ?thesis by (simp add: parseVerifyRequest_def)
qed


lemma getNetworkByName_base:
  "getNetworkByName (registry_load (DEFAULT_NETWORKS env)) ''base-mainnet'' = Some (hd (DEFAULT_NETWORKS env))"
  by (simp add: getNetworkByName_def registry_load_def load_step_def DEFAULT_NETWORKS_def)

lemma default_usdc:
  "List.find (\<lambda>a. as_symbol a = toUpperCase ''USDC'') (nc_assets (hd (DEFAULT_NETWORKS env))) = Some usdc_on_base"
  "nc_chainId (hd (DEFAULT_NETWORKS env)) = 8453"
proof -
  have "toUpperCase ''USDC'' = ''USDC''" by code_simp
  then show "List.find (\<lambda>a. as_symbol a = toUpperCase ''USDC'') (nc_assets (hd (DEFAULT_NETWORKS env))) = Some usdc_on_base"
    "nc_chainId (hd (DEFAULT_NETWORKS env)) = 8453"
    by (simp_all add: usdc_on_base_def base_config_def DEFAULT_NETWORKS_def USDC_def)
qed

text \<open>C23. Buyer, example seller and facilitator agree on the protocol up to the verification: for a requirement with a
  decimal amount, an address and an invoice of at most 255 characters, the proof of the buyer is a
  request the parser accepts, it pays exactly the amount asked to the address asked for within the
  next 300 seconds, it passes every check of the verify service before the nonce is claimed, and
  its signature is over the typed data whose signer \<open>verifyErc3009Signature\<close> recovers.
\<close>

theorem buyer_proof_accepted:
  assumes "requirement_ok p" and "hex0x 40 (bu_address B)" and "hex0x 64 nonce" and "0 \<le> now"
    and "buyer_authorize B (createPaymentRequirement p) now nonce = Inr (m, signature)" and "hex0x 130 signature"
    and "\<And>message. bu_sign B USDC_DOMAIN message = Inr signature \<Longrightarrow> recover USDC_DOMAIN message signature = Inr (bu_address B)"
    and "ve_registry E = registry_load (DEFAULT_NETWORKS env)"
  shows "\<exists>r. parseVerifyRequest (proof_json (createPaymentRequirement p) m signature) = Inr r \<and>
    (let auth = vp_authorization (vr_payload r) in
     au_from auth = bu_address B \<and> au_to auth = rq_seller p \<and> bigint_of (au_value auth) = bigint_of (rq_requiredAmount p) \<and>
     au_validBefore auth = now div 1000 + 300 \<and> vr_invoiceId r = rq_invoiceId p \<and>
     admissible E r now (hd (DEFAULT_NETWORKS env)) usdc_on_base \<and>
     verifyErc3009Signature recover auth (vp_signature (vr_payload r)) (as_address usdc_on_base) (nc_chainId (hd (DEFAULT_NETWORKS env)))
       (case as_eip712Version usdc_on_base of Some v \<Rightarrow> v | None \<Rightarrow> ''2'') = Inr (bu_address B))"
proof -
  have amount: "decimal (rq_requiredAmount p)" using assms(1) by (simp add: requirement_ok_def)
  note m = buyer_authorize_requirement [OF amount assms(5)]
  have nonneg: "0 \<le> bigint_of (rq_requiredAmount p)" by (rule bigint_of_nonneg [OF amount])
  have parse: "parseVerifyRequest (proof_json (createPaymentRequirement p) m signature) = Inr (proven_request p m signature)"
    using proof_parses [OF assms(1), of m signature] assms(2-4,6) m nonneg by (simp add: buyer_message_def)
  have "recover USDC_DOMAIN m signature = Inr (bu_address B)" using assms(7) m by blast
  moreover have "admissible E (proven_request p m signature) now (hd (DEFAULT_NETWORKS env)) usdc_on_base"
    using m nonneg assms(4,8) by (simp add: admissible_def proven_request_def buyer_message_def getNetworkByName_base default_usdc)
  moreover have "(case as_eip712Version usdc_on_base of Some v \<Rightarrow> v | None \<Rightarrow> ''2'') = ''2''"
    "as_address usdc_on_base = ''0x833589fCD6eDb6E08f4c7C32D4f71b54bdA02913''"
    by (simp_all add: usdc_on_base_def base_config_def DEFAULT_NETWORKS_def USDC_def)
  ultimately show ?thesis
    using m nonneg unfolding parse
    by (simp add: proven_request_def buyer_message_def verifyErc3009Signature_def USDC_DOMAIN_def default_usdc)
qed

definition sample_buyer :: buyer_env where
  "sample_buyer = \<lparr>bu_seller = ''http://localhost:3001'', bu_address = ''0x'' @ replicate 40 (CHR ''a''),
     bu_sign = (\<lambda>d m. Inr (''0x'' @ replicate 130 (CHR ''c''))), bu_invalid = (\<lambda>v. JsError ''InvalidAddressError'' ''Address is invalid.'')\<rparr>"

definition sample_requirement :: payment_requirement where
  "sample_requirement = premium_requirement ''0xd8dA6BF26964aF9D7eEd9e03E53415D37aA96045'' ''GET'' ''/premium/data'' 5"

definition sample_nonce :: string where
  "sample_nonce = ''0x'' @ replicate 64 (CHR ''d'')"

lemma sample_requirement_ok: "requirement_ok sample_requirement"
  by code_simp

lemma buyer_proof_accepted_witness:
  "\<exists>m signature r. buyer_authorize sample_buyer (createPaymentRequirement sample_requirement) 1000000 sample_nonce = Inr (m, signature) \<and>
     parseVerifyRequest (proof_json (createPaymentRequirement sample_requirement) m signature) = Inr r \<and>
     admissible sample_env r 1000000 (hd (DEFAULT_NETWORKS Map.empty)) usdc_on_base"
proof -
  have hex: "hex0x 40 (bu_address sample_buyer)" "hex0x 64 sample_nonce" "hex0x 130 (''0x'' @ replicate 130 (CHR ''c''))"
    by code_simp+
  have dec: "decimal (rq_requiredAmount sample_requirement)" using sample_requirement_ok by (simp add: requirement_ok_def)
  let ?m = "buyer_message sample_buyer (rq_seller sample_requirement) (bigint_of (rq_requiredAmount sample_requirement)) 1000000 sample_nonce"
  have auth: "buyer_authorize sample_buyer (createPaymentRequirement sample_requirement) 1000000 sample_nonce =
      Inr (?m, ''0x'' @ replicate 130 (CHR ''c''))"
    using json_bigint_decimal [OF dec]
    by (simp add: buyer_authorize_def createPaymentRequirement_def js_get_def Let_def sample_buyer_def)
  have reg: "ve_registry sample_env = registry_load (DEFAULT_NETWORKS Map.empty)" by (simp add: sample_env_def)
  show ?thesis
    using buyer_proof_accepted [OF sample_requirement_ok hex(1,2) _ auth hex(3) _ reg, of "\<lambda>d m s. Inr (bu_address sample_buyer)"] auth
    by (auto simp: Let_def)
qed

section \<open>Buyer, seller and facilitator\<close>

text \<open>
  The example server as a network for the buyer, on the state of the facilitator's side: \<open>url\<close> is where it
  listens, \<open>base\<close> where it reaches the facilitator. A rejected promise that nobody handles ends the server, which the buyer
  sees as a failed request. Other hosts are reached through \<open>F\<close>.
\<close>

definition seller_network ::
  "'x network \<Rightarrow> string \<Rightarrow> string \<Rightarrow> string \<Rightarrow> ('x client_world \<Rightarrow> int) \<Rightarrow> ('x client_world \<Rightarrow> string) \<Rightarrow> 'x client_world network" where
  "seller_network F base url seller now ts rq w =
     (if ar_method rq = ''GET'' \<and> ar_url rq = url @ ''/premium/data'' then
        (case premium_route F base seller (map_of (ar_headers rq) ''x-payment-proof'') (now w) (ts w) w of
           (Served p, w') \<Rightarrow>
             (Inr \<lparr>ha_status = (case reply_status p of Some s \<Rightarrow> int s | None \<Rightarrow> 500), ha_json = Inr (reply_body p)\<rparr>, w')
         | (Unhandled e, w') \<Rightarrow> (Inl (JsError ''TypeError'' ''fetch failed''), w'))
      else if ar_method rq = ''GET'' \<and> ar_url rq = url @ ''/health'' then
        (Inr \<lparr>ha_status = 200, ha_json = Inr (JObj [(''status'', JStr ''ok''), (''seller'', JStr seller)])\<rparr>, w)
      else if startsWith (ar_url rq) url then
        (Inr \<lparr>ha_status = 404, ha_json = Inl (JsError ''SyntaxError'' ''Unexpected token < in JSON'')\<rparr>, w)
      else exchange F rq w)"

lemma seller_never_serves:
  assumes "seller_network (facilitator E base) base url seller now ts (buyer_get (url @ ''/premium/data'') hs) w = (x, w')"
  shows "unpaid (cw_net w) (cw_net w') \<and> (\<forall>a. x = Inr a \<longrightarrow> ha_status a = 402)"
  using assms premium_never [of E base seller "map_of hs ''x-payment-proof''" "now w" "ts w" w]
  by (auto simp: seller_network_def buyer_get_def split: prod.splits seller_answer.splits)

text \<open>C24. The demonstration of the repository does not work end to end: with this buyer, this seller and this
  facilitator the buyer is never granted the data, whatever the state of the three, and no
  settlement or transfer is made; the requests of the buyer are refused with 402 or fail.
\<close>

theorem buyer_never_granted:
  assumes "buyer_run (seller_network (facilitator E base) base (bu_seller B) seller now ts) B t nonce w = (r, w')"
  shows "(\<forall>result receipt. r \<noteq> Inr (Granted result receipt)) \<and> (\<forall>status. r \<noteq> Inr (NotAsked status)) \<and>
    unpaid (cw_net (cw_net w)) (cw_net (cw_net w'))"
proof -
  let ?S = "seller_network (facilitator E base) base (bu_seller B) seller now ts"
  have step: "unpaid (cw_net (cw_net v)) (cw_net (cw_net v')) \<and> (\<forall>a. x = Inr a \<longrightarrow> ha_status a = 402)"
    if "exchange ?S (buyer_get (bu_seller B @ ''/premium/data'') hs) v = (x, v')" for hs v x v'
    using that seller_never_serves by (auto simp: exchange_def split: prod.splits)
  obtain x w1 where first: "exchange ?S (buyer_get (bu_seller B @ ''/premium/data'') []) w = (x, w1)" by fastforce
  note s1 = step [OF first]
  have cont: "exchange ?S (buyer_get (bu_seller B @ ''/premium/data'') hs) w1 = (y, w2) \<Longrightarrow>
      unpaid (cw_net (cw_net w)) (cw_net (cw_net w2)) \<and> (\<forall>a. y = Inr a \<longrightarrow> ha_status a = 402)" for hs y w2
    using s1 step unpaid.rel_trans by blast
  from assms show ?thesis
    using s1 cont unfolding buyer_run_def seq_def first
    by (auto simp: of_sum_def ret_def split: sum.splits prod.splits if_splits)
qed

lemma buyer_never_granted_witness:
  "\<exists>r w'. buyer_run (seller_network (facilitator sample_facilitator ''http://localhost:3000'') ''http://localhost:3000''
       (bu_seller sample_buyer) ''0xd8dA6BF26964aF9D7eEd9e03E53415D37aA96045'' (\<lambda>w. 5) (\<lambda>w. ''now''))
       sample_buyer 1000000 sample_nonce \<lparr>cw_net = \<lparr>cw_net = sample_world, cw_log = []\<rparr>, cw_log = []\<rparr> = (r, w') \<and>
     (\<forall>result receipt. r \<noteq> Inr (Granted result receipt)) \<and> submitted (cw_net (cw_net w')) = []"
proof -
  obtain r w' where run: "buyer_run (seller_network (facilitator sample_facilitator ''http://localhost:3000'') ''http://localhost:3000''
       (bu_seller sample_buyer) ''0xd8dA6BF26964aF9D7eEd9e03E53415D37aA96045'' (\<lambda>w. 5) (\<lambda>w. ''now''))
       sample_buyer 1000000 sample_nonce \<lparr>cw_net = \<lparr>cw_net = sample_world, cw_log = []\<rparr>, cw_log = []\<rparr> = (r, w')" by fastforce
  show ?thesis using buyer_never_granted [OF run] run by (auto simp: unpaid_def sample_world_def empty_world_def)
qed

end
