(* ===== verification/Operator.thy ===== *)
theory Operator
  imports Interop
begin

text \<open>
  The operator's and the agents' endpoints: \<open>routes/health.route.ts\<close>, \<open>routes/supported.route.ts\<close>,
  \<open>routes/metrics.route.ts\<close> and \<open>routes/mcp.route.ts\<close>. A reply is what the handler sends, before
  Fastify writes it. The class of the network registry has no method \<open>getAll\<close> and no field
  \<open>loadedAt\<close>, which two of the routes use: they are parameters, \<open>None\<close> when the class lacks them.
\<close>

section \<open>Health\<close>

datatype check_status = CheckOk | CheckDegraded | CheckFail

definition status_name :: "check_status \<Rightarrow> string" where
  "status_name s = (case s of CheckOk \<Rightarrow> ''ok'' | CheckDegraded \<Rightarrow> ''degraded'' | CheckFail \<Rightarrow> ''fail'')"

record health_check =
  hc_status :: check_status
  hc_latencyMs :: "int option"
  hc_detail :: "string option"

definition checkPostgres :: "exn + unit \<Rightarrow> int \<Rightarrow> health_check" where
  "checkPostgres answer latency =
     (case answer of
        Inr _ \<Rightarrow> \<lparr>hc_status = CheckOk, hc_latencyMs = Some latency, hc_detail = None\<rparr>
      | Inl err \<Rightarrow> \<lparr>hc_status = CheckFail, hc_latencyMs = Some latency, hc_detail = Some (exn_message err)\<rparr>)"

definition checkRedis :: "exn + string \<Rightarrow> int \<Rightarrow> health_check" where
  "checkRedis pong latency =
     (case pong of
        Inr p \<Rightarrow> \<lparr>hc_status = (if p = ''PONG'' then CheckOk else CheckDegraded), hc_latencyMs = Some latency, hc_detail = None\<rparr>
      | Inl err \<Rightarrow> \<lparr>hc_status = CheckFail, hc_latencyMs = Some latency, hc_detail = Some (exn_message err)\<rparr>)"

text \<open>The call of a method that is not there.\<close>

definition not_a_function :: exn where
  "not_a_function = JsError ''TypeError'' ''networkRegistry.getAll is not a function''"

record listed_asset =
  la_symbol :: string
  la_address :: string
  la_decimals :: int
  la_minAmount :: "string option"
  la_maxAmount :: "string option"

record listed_network =
  ln_chainId :: int
  ln_name :: string
  ln_nativeCurrency :: "string option"
  ln_blockExplorer :: "string option"
  ln_assets :: "listed_asset list"

definition checkRegistry :: "listed_network list option \<Rightarrow> exn + health_check" where
  "checkRegistry getAll =
     (case getAll of
        None \<Rightarrow> Inl not_a_function
      | Some [] \<Rightarrow> Inr \<lparr>hc_status = CheckDegraded, hc_latencyMs = None, hc_detail = Some ''No active networks in registry''\<rparr>
      | Some ns \<Rightarrow> Inr \<lparr>hc_status = CheckOk, hc_latencyMs = None,
          hc_detail = Some (int_str (int (length ns)) @ '' network(s) active'')\<rparr>)"

definition check_json :: "health_check \<Rightarrow> json" where
  "check_json c = JObj ([(''status'', JStr (status_name (hc_status c)))] @
     (case hc_latencyMs c of Some l \<Rightarrow> [(''latencyMs'', JNum l)] | None \<Rightarrow> []) @ opt_str ''detail'' (hc_detail c))"

definition health_overall :: "health_check \<Rightarrow> health_check \<Rightarrow> health_check \<Rightarrow> check_status" where
  "health_overall postgres redis registry =
     (if hc_status postgres = CheckFail \<or> hc_status redis = CheckFail then CheckFail
      else if CheckDegraded \<in> hc_status ` {postgres, redis, registry} then CheckDegraded else CheckOk)"

definition health_route ::
  "exn + unit \<Rightarrow> exn + string \<Rightarrow> listed_network list option \<Rightarrow> int \<Rightarrow> string \<Rightarrow> int \<Rightarrow> ('w, exn, reply) prog" where
  "health_route answer pong getAll latency version clock =
     (let postgres = checkPostgres answer latency; redis = checkRedis pong latency in
      seq (of_sum (checkRegistry getAll)) (\<lambda>registry.
      seq (iso clock) (\<lambda>now.
      ret (mk_reply (if hc_status postgres = CheckFail \<or> hc_status redis = CheckFail then 503 else 200)
        (JObj [(''status'', JStr (status_name (health_overall postgres redis registry))), (''version'', JStr version),
           (''checks'', JObj [(''postgres'', check_json postgres), (''redis'', check_json redis), (''registry'', check_json registry)]),
           (''timestamp'', JStr now)])))))"

text \<open>
  With a registry that lists its networks, the reply is 503 exactly when one of the two stores fails;
  with the registry as it is, whatever the state of the stores, the check itself throws.
\<close>

theorem health_exact:
  "(health_route answer pong (Some ns) latency version clock w = (Inr p, w') \<longrightarrow>
      w' = w \<and> (reply_status p = Some 503 \<longleftrightarrow> (\<exists>e. answer = Inl e) \<or> (\<exists>e. pong = Inl e)) \<and>
      (reply_status p = Some 503 \<or> reply_status p = Some 200)) \<and>
   health_route answer pong None latency version clock w = (Inl not_a_function, w)"
  by (auto simp: health_route_def run_simps checkPostgres_def checkRedis_def checkRegistry_def Let_def
      split: sum.splits list.splits if_splits)

text \<open>The states in the order of their severity.\<close>

primrec severity :: "check_status \<Rightarrow> nat" where
  "severity CheckOk = 0"
| "severity CheckDegraded = 1"
| "severity CheckFail = 2"

lemma severity_inj: "severity s = severity t \<Longrightarrow> s = t"
  by (cases s; cases t) simp_all

instantiation check_status :: linorder
begin

definition less_eq_check_status :: "check_status \<Rightarrow> check_status \<Rightarrow> bool" where
  "less_eq_check_status s t \<longleftrightarrow> severity s \<le> severity t"

definition less_check_status :: "check_status \<Rightarrow> check_status \<Rightarrow> bool" where
  "less_check_status s t \<longleftrightarrow> severity s < severity t"

instance
  by standard (auto simp: less_eq_check_status_def less_check_status_def intro: severity_inj)

end

text \<open>The state reported is the worst of the three: the registry alone never makes the service fail.\<close>

theorem health_worst:
  assumes "checkRegistry getAll = Inr registry"
  shows "health_overall (checkPostgres answer l) (checkRedis pong l) registry =
    Max {hc_status (checkPostgres answer l), hc_status (checkRedis pong l), hc_status registry}"
proof -
  have "hc_status registry \<noteq> CheckFail" using assms by (auto simp: checkRegistry_def split: option.splits list.splits)
  then show ?thesis
    by (cases "hc_status (checkPostgres answer l)"; cases "hc_status (checkRedis pong l)"; cases "hc_status registry")
       (simp_all add: health_overall_def max_def less_eq_check_status_def)
qed

section \<open>Supported\<close>

definition listed_json :: "listed_network \<Rightarrow> json" where
  "listed_json n = JObj ([(''chainId'', JNum (ln_chainId n)), (''name'', JStr (ln_name n))] @
     opt_str ''nativeCurrency'' (ln_nativeCurrency n) @ opt_str ''blockExplorer'' (ln_blockExplorer n) @
     [(''assets'', JArr (map (\<lambda>a. JObj [(''symbol'', JStr (la_symbol a)), (''address'', JStr (la_address a)),
        (''decimals'', JNum (la_decimals a)),
        (''limits'', JObj (opt_str ''minAmount'' (la_minAmount a) @ opt_str ''maxAmount'' (la_maxAmount a)))]) (ln_assets n)))])"

definition X402_VERSIONS :: "string list" where
  "X402_VERSIONS = [''1'']"

definition X402_SCHEMES :: "string list" where
  "X402_SCHEMES = [''exact'']"

definition X402_EXTENSIONS :: "string list" where
  "X402_EXTENSIONS = [''receipts'', ''referral'', ''fee_engine'']"

definition str_array :: "string list \<Rightarrow> json" where
  "str_array xs = JArr (map JStr xs)"

definition supported_route :: "listed_network list option \<Rightarrow> int option \<Rightarrow> ('w, exn, reply) prog" where
  "supported_route getAll loadedAt =
     (case getAll of
        None \<Rightarrow> throw not_a_function
      | Some found \<Rightarrow>
          seq (iso_opt loadedAt) (\<lambda>loaded.
          ret (mk_reply 200 (JObj
            [(''versions'', str_array X402_VERSIONS), (''networks'', JArr (map listed_json found)),
             (''schemes'', str_array X402_SCHEMES), (''extensions'', str_array X402_EXTENSIONS),
             (''settlementOptions'', JObj [(''idempotent'', JBool True), (''receiptAvailable'', JBool True),
                (''confirmations'', JNum 1), (''feeEngine'', JBool True)]),
             (''registryLoadedAt'', null_or_str loaded)]))))"

text \<open>
  What is announced is what the parser takes: a well-formed request has one of the announced versions
  and schemes.
\<close>

theorem supported_parses:
  assumes "parseVerifyRequest raw = Inr r"
  shows "vr_version r \<in> set X402_VERSIONS \<and> vr_scheme r \<in> set X402_SCHEMES"
  using assms VerifyRequestSchema_wf [of "Some raw" r]
  by (auto simp: parseVerifyRequest_def X402_VERSIONS_def X402_SCHEMES_def wf_request_def split: sum.splits)

section \<open>Metrics\<close>

definition metrics_route :: "string \<Rightarrow> string option \<Rightarrow> exn + string \<Rightarrow> ('w, exn, reply) prog" where
  "metrics_route configured auth metrics =
     (let header = (case auth of Some h \<Rightarrow> h | None \<Rightarrow> '''');
          token = (if startsWith header ''Bearer '' then drop 7 header else '''') in
      if configured \<noteq> '''' \<and> token \<noteq> configured then
        ret (mk_reply 401 (JObj [(''error'', JObj [(''code'', JStr ''unauthorized''), (''message'', JStr ''Invalid metrics token'')])]))
      else
        (case metrics of
           Inr m \<Rightarrow> ret (mk_reply 200 (JStr m))
         | Inl e \<Rightarrow> ret (mk_reply 500 (JStr ''# metrics collection error''))))"

theorem metrics_guarded:
  assumes "configured \<noteq> ''''" "auth \<noteq> Some (''Bearer '' @ configured)"
  shows "\<exists>p. metrics_route configured auth metrics w = (Inr p, w) \<and> reply_status p = Some 401"
proof -
  have "\<not> (startsWith h ''Bearer '' \<and> drop 7 h = configured)" if "auth = Some h" for h
    using that assms(2) bearer_iff [of "Some h" configured] by (auto simp: extractBearerToken_def)
  then show ?thesis using assms(1) by (cases auth) (auto simp: metrics_route_def ret_def Let_def)
qed

section \<open>The manifest for agents\<close>

record mcp_property =
  mp_name :: string
  mp_type :: string
  mp_format :: "string option"
  mp_description :: "string option"
  mp_example :: "json option"

record mcp_tool =
  mt_name :: string
  mt_description :: string
  mt_required :: "string list option"
  mt_properties :: "mcp_property list"
  mt_path :: string
  mt_method :: string

definition mcp_prop :: "string \<Rightarrow> string \<Rightarrow> string option \<Rightarrow> json option \<Rightarrow> mcp_property" where
  "mcp_prop n t d e = \<lparr>mp_name = n, mp_type = t, mp_format = None, mp_description = d, mp_example = e\<rparr>"

definition verify_tool :: mcp_tool where
  "verify_tool = \<lparr>mt_name = ''verify_payment'',
     mt_description = ''Verify an x402 payment proof from a buyer. Call this before granting access to a paid resource.'',
     mt_required = Some [''x402Version'', ''scheme'', ''network'', ''payload'', ''requiredAmount'', ''payTo'', ''asset'', ''expiresAt''],
     mt_properties =
       [mcp_prop ''x402Version'' ''integer'' (Some ''x402 protocol version (use 1)'') (Some (JNum 1)),
        mcp_prop ''scheme'' ''string'' (Some ''Payment scheme'') (Some (JStr ''exact'')),
        mcp_prop ''network'' ''string'' (Some ''Blockchain network identifier'') (Some (JStr ''base-mainnet'')),
        mcp_prop ''payload'' ''object'' (Some ''Signed payment authorization payload'') None,
        mcp_prop ''requiredAmount'' ''string'' (Some ''Required amount in smallest unit'') (Some (JStr ''1000000'')),
        mcp_prop ''payTo'' ''string'' (Some ''Recipient wallet address'') None,
        mcp_prop ''asset'' ''string'' (Some ''ERC-20 token contract address'') None,
        (mcp_prop ''expiresAt'' ''string'' None None)\<lparr>mp_format := Some ''date-time''\<rparr>],
     mt_path = ''/verify'', mt_method = ''POST''\<rparr>"

definition settle_tool :: mcp_tool where
  "settle_tool = \<lparr>mt_name = ''settle_payment'',
     mt_description = ''Settle a verified payment on-chain. Returns a tx hash and receipt ID once confirmed.'',
     mt_required = Some [''requestId''],
     mt_properties = [mcp_prop ''requestId'' ''string'' (Some ''The requestId returned by verify_payment'') None],
     mt_path = ''/settle'', mt_method = ''POST''\<rparr>"

definition receipt_tool :: mcp_tool where
  "receipt_tool = \<lparr>mt_name = ''get_receipt'', mt_description = ''Retrieve an audit receipt for a settled payment.'',
     mt_required = Some [''receiptId''],
     mt_properties = [mcp_prop ''receiptId'' ''string'' (Some ''Receipt ID returned by settle_payment'') None],
     mt_path = ''/receipts/{receiptId}'', mt_method = ''GET''\<rparr>"

definition supported_tool :: mcp_tool where
  "supported_tool = \<lparr>mt_name = ''check_supported'',
     mt_description = ''Check which networks, assets, and schemes are supported by this facilitator.'',
     mt_required = None, mt_properties = [], mt_path = ''/supported'', mt_method = ''GET''\<rparr>"

definition property_json :: "mcp_property \<Rightarrow> string \<times> json" where
  "property_json p = (mp_name p, JObj ([(''type'', JStr (mp_type p))] @ opt_str ''format'' (mp_format p) @
     opt_str ''description'' (mp_description p) @ (case mp_example p of Some e \<Rightarrow> [(''example'', e)] | None \<Rightarrow> [])))"

definition tool_json :: "string \<Rightarrow> mcp_tool \<Rightarrow> json" where
  "tool_json baseUrl t = JObj
     [(''name'', JStr (mt_name t)), (''description'', JStr (mt_description t)),
      (''input_schema'', JObj ([(''type'', JStr ''object'')] @
         (case mt_required t of Some r \<Rightarrow> [(''required'', str_array r)] | None \<Rightarrow> []) @
         [(''properties'', JObj (map property_json (mt_properties t)))])),
      (''endpoint'', JStr (baseUrl @ mt_path t)), (''method'', JStr (mt_method t))]"

definition mcp_tools :: "mcp_tool list" where
  "mcp_tools = [verify_tool, settle_tool, receipt_tool, supported_tool]"

definition mcp_manifest :: "string \<Rightarrow> string \<Rightarrow> json" where
  "mcp_manifest protocol hostname = (let baseUrl = protocol @ ''://'' @ hostname in JObj
     [(''schema_version'', JStr ''1.0''), (''name'', JStr ''facilitatorx402''),
      (''description'', JStr (''x402 payment facilitator '' @ [CHR 0xE2, CHR 0x80, CHR 0x94] @
         '' verify and settle crypto micro-payments'')),
      (''version'', JStr ''1.1.0''), (''tools'', JArr (map (tool_json baseUrl) mcp_tools)),
      (''resources'', JArr [JObj [(''name'', JStr ''openapi_spec''), (''description'', JStr ''Full OpenAPI 3.1 specification''),
         (''uri'', JStr (baseUrl @ ''/docs/json''))]]),
      (''auth'', JObj [(''type'', JStr ''bearer''), (''description'', JStr (''API key from POST /sellers/register. '' @
         ''Public endpoints (health, supported, verify, settle) do not require auth.''))])])"

text \<open>Arguments for a tool: an object with no other keys than the tool describes.\<close>

definition tool_arguments :: "mcp_tool \<Rightarrow> json \<Rightarrow> bool" where
  "tool_arguments t v = (case v of JObj kvs \<Rightarrow> list_all (\<lambda>(k, _). k \<in> mp_name ` set (mt_properties t)) kvs | _ \<Rightarrow> False)"

lemma tool_arguments_missing:
  assumes "tool_arguments t v" "k \<notin> mp_name ` set (mt_properties t)"
  shows "\<exists>kvs. v = JObj kvs \<and> map_of kvs k = None"
  using assms by (cases v) (auto simp: tool_arguments_def list_all_iff map_of_eq_None_iff)

lemma verify_arguments: "tool_arguments verify_tool v \<Longrightarrow> json_get v ''version'' = None"
  using tool_arguments_missing [of verify_tool v "''version''"] by (auto simp: verify_tool_def mcp_prop_def)

lemma settle_arguments: "tool_arguments settle_tool v \<Longrightarrow> json_get v ''verificationId'' = None"
  using tool_arguments_missing [of settle_tool v "''verificationId''"] by (auto simp: settle_tool_def mcp_prop_def)

text \<open>The manifest describes two payment tools that cannot work: whatever arguments an agent gives, as long
  as they are among those the tool describes, the schema of \<open>/verify\<close> refuses the payment for its missing
  version and that of \<open>/settle\<close> the request for its missing \<open>verificationId\<close>; no handler runs.
\<close>

theorem mcp_tools_refused:
  assumes "tool_arguments verify_tool v" "tool_arguments settle_tool s"
  shows "verify_tool \<in> set mcp_tools \<and> settle_tool \<in> set mcp_tools \<and>
    (\<exists>m. verifyEndpoint A V v rid now clock uid late' w = (Inl (ValidationError m), w)) \<and>
    (\<exists>m. settleEndpoint A S issueText s sid rcid now' clock' late w = (Inl (ValidationError m), w))"
  using no_version_refused [OF verify_arguments [OF assms(1)]] no_verificationId_refused [OF settle_arguments [OF assms(2)]]
  by (auto simp: mcp_tools_def throw_def)

definition sample_arguments :: json where
  "sample_arguments = JObj [(''requestId'', JStr ''r1'')]"

lemma mcp_tools_refused_witness:
  "\<exists>m. verifyEndpoint (fa_validation sample_facilitator) sample_env (JObj [(''x402Version'', JNum 1), (''scheme'', JStr ''exact'')])
      ''r1'' 0 0 ''u'' 0 empty_world = (Inl (ValidationError m), empty_world)"
proof -
  have v: "tool_arguments verify_tool (JObj [(''x402Version'', JNum 1), (''scheme'', JStr ''exact'')])"
    by (simp add: tool_arguments_def verify_tool_def mcp_prop_def)
  have s: "tool_arguments settle_tool sample_arguments"
    by (simp add: tool_arguments_def settle_tool_def mcp_prop_def sample_arguments_def)
  show ?thesis
    using mcp_tools_refused [OF v s, of "fa_validation sample_facilitator" sample_env "''r1''" 0 0 "''u''" 0 empty_world] by blast
qed

end
