(* ===== verification/Scripts.thy ===== *)
theory Scripts
  imports Operator
begin

text \<open>
  Two of the deployment scripts: \<open>scripts/health-check.ts\<close>, which asks \<open>/health\<close> of the running service, and
  \<open>scripts/db-check.ts\<close>, which checks the database URL and the connection. What they print is a list of
  lines, how they end an exit code.
\<close>

section \<open>The health check of the container\<close>

text \<open>An exception, an aborted request included, ends in \<open>process.exit(1)\<close>.\<close>

definition check :: "fetched \<Rightarrow> int" where
  "check x =
     (case x of
        Inl _ \<Rightarrow> 1
      | Inr res \<Rightarrow>
          if \<not> answer_ok res then 1
          else
            (case ha_json res of
               Inl _ \<Rightarrow> 1
             | Inr body \<Rightarrow>
                 (case js_get body ''status'' of
                    Inl _ \<Rightarrow> 1
                  | Inr s \<Rightarrow> if s = Some (JStr ''down'') then 1 else 0)))"

definition health_url :: "int \<Rightarrow> string" where
  "health_url port = ''http://localhost:'' @ int_str port @ ''/health''"

text \<open>The answer of the health route as it leaves the server: an error goes through the error handler.\<close>

definition health_answer ::
  "exn + unit \<Rightarrow> exn + string \<Rightarrow> listed_network list option \<Rightarrow> int \<Rightarrow> string \<Rightarrow> int \<Rightarrow> fetched" where
  "health_answer answer pong getAll latency version clock =
     fst (answer_of (health_route answer pong getAll latency version clock empty_world))"

lemma health_answer_listed:
  assumes "toISOString clock = Some t"
  shows "\<exists>kvs. health_answer answer pong (Some ns) latency version clock =
    Inr \<lparr>ha_status = (if isl answer \<or> isl pong then 503 else 200), ha_json = Inr (JObj kvs)\<rparr> \<and>
    (\<exists>s. map_of kvs ''status'' = Some (JStr (status_name s)))"
proof -
  obtain registry where "checkRegistry (Some ns) = Inr registry" by (cases ns) (auto simp: checkRegistry_def)
  then show ?thesis
    using assms
    by (cases answer; cases pong)
       (auto simp: health_answer_def health_route_def answer_of_def seq_def of_sum_def iso_def ret_def mk_reply_def Let_def
         checkPostgres_def checkRedis_def)
qed

lemma health_answer_thrown: "\<exists>j. health_answer answer pong None latency version clock = Inr \<lparr>ha_status = 500, ha_json = j\<rparr>"
  by (auto simp: health_answer_def health_route_def checkRegistry_def answer_of_def seq_def of_sum_def throw_def not_a_function_def
      errorHandler_def Let_def)

text \<open>With a registry that can list its networks the script ends with 0 exactly when both stores answer (a degraded
  service is healthy). With the registry of the repository it ends with 1 whatever the stores do: a
  container checked by it is never healthy.
\<close>

theorem health_check_exact:
  assumes "valid_time clock"
  shows "(check (health_answer answer pong (Some ns) latency version clock) = 0 \<longleftrightarrow>
      (\<exists>x. answer = Inr x) \<and> (\<exists>p. pong = Inr p)) \<and>
    check (health_answer answer pong None latency version clock) = 1"
proof
  obtain t where t: "toISOString clock = Some t" using assms toISOString_Some_iff by blast
  have "status_name s \<noteq> ''down''" for s by (cases s) (simp_all add: status_name_def)
  then show "check (health_answer answer pong (Some ns) latency version clock) = 0 \<longleftrightarrow>
      (\<exists>x. answer = Inr x) \<and> (\<exists>p. pong = Inr p)"
    using health_answer_listed [OF t, of answer pong ns latency version]
    by (cases answer; cases pong) (auto simp: check_def answer_ok_def js_get_def)
  show "check (health_answer answer pong None latency version clock) = 1"
    using health_answer_thrown [of answer pong latency version clock] by (auto simp: check_def answer_ok_def)
qed


lemma health_check_exact_witness:
  "check (health_answer (Inr ()) (Inr ''PONG'') (Some []) 3 ''1.0.0'' 0) = 0 \<and>
   check (health_answer (Inr ()) (Inr ''PONG'') None 3 ''1.0.0'' 0) = 1"
proof -
  have v: "valid_time 0" by (simp add: valid_time_def)
  show ?thesis using health_check_exact [OF v, of "Inr ()" "Inr ''PONG''" "[]" 3 "''1.0.0''"] by simp
qed

section \<open>The check of the database\<close>

text \<open>\<open>url.replace(/:([^@]+)@/, ':***@')\<close>\<close>

fun mask_password :: "string \<Rightarrow> string" where
  "mask_password [] = []"
| "mask_password (c # cs) =
     (let a = takeWhile (\<lambda>x. x \<noteq> CHR ''@'') cs; r = dropWhile (\<lambda>x. x \<noteq> CHR ''@'') cs in
      if c = CHR '':'' \<and> a \<noteq> [] \<and> r \<noteq> [] then '':***'' @ r else c # mask_password cs)"

definition postgres_url :: "string \<Rightarrow> bool" where
  "postgres_url url = (startsWith url ''postgresql://'' \<or> startsWith url ''postgres://'')"

text \<open>\<open>process.exit(1)\<close> ends the script at once; \<open>shown\<close> is how the console prints the error.\<close>

definition db_check :: "string option \<Rightarrow> exn + unit \<Rightarrow> (exn \<Rightarrow> string) \<Rightarrow> string list \<times> int" where
  "db_check DATABASE_URL answer shown =
     (let url = (case DATABASE_URL of Some u \<Rightarrow> u | None \<Rightarrow> '''') in
      if \<not> postgres_url url then
        ([''FATAL: DATABASE_URL must be a PostgreSQL connection string.'', ''  Got: '' @ take 30 url @ ''...'',
          ''  SQLite is not supported in facilitatorx402.''], 1)
      else
        (case answer of
           Inl err \<Rightarrow> ([''FATAL: Cannot connect to PostgreSQL: '' @ shown err], 1)
         | Inr _ \<Rightarrow> ([[CHR 0xE2, CHR 0x9C, CHR 0x93] @ '' PostgreSQL connection OK'', ''  URL: '' @ mask_password url], 0)))"

lemma mask_password_prefix:
  "CHR '':'' \<notin> set s \<Longrightarrow> CHR ''@'' \<notin> set t \<Longrightarrow> t \<noteq> [] \<Longrightarrow>
     mask_password (s @ '':'' @ t @ ''@'' @ host) = s @ '':***@'' @ host"
proof (induction s)
  case Nil
  then have all: "\<And>x. x \<in> set t \<Longrightarrow> x \<noteq> CHR ''@''" by metis
  have "takeWhile (\<lambda>x. x \<noteq> CHR ''@'') (t @ ''@'' @ host) = t" "dropWhile (\<lambda>x. x \<noteq> CHR ''@'') (t @ ''@'' @ host) = ''@'' @ host"
    using takeWhile_append2 [of t "\<lambda>x. x \<noteq> CHR ''@''"] dropWhile_append2 [of t "\<lambda>x. x \<noteq> CHR ''@''"] all by simp_all
  then show ?case using Nil by (simp add: Let_def)
qed (auto simp: Let_def)


text \<open>The database check ends with 0 exactly when the URL has a PostgreSQL scheme and the query is answered. It then
  prints the URL without its user and password, when they hold no \<open>@\<close>. But an URL with another scheme is printed
  up to its thirtieth character as it is, a password included.
\<close>

theorem db_check_exact:
  "(snd (db_check (Some url) answer shown) = 0 \<longleftrightarrow> postgres_url url \<and> (\<exists>x. answer = Inr x)) \<and>
   (scheme \<in> {''postgresql'', ''postgres''} \<longrightarrow> CHR ''@'' \<notin> set secret \<longrightarrow> answer = Inr () \<longrightarrow>
      fst (db_check (Some (scheme @ ''://'' @ secret @ ''@'' @ host)) answer shown) =
        [[CHR 0xE2, CHR 0x9C, CHR 0x93] @ '' PostgreSQL connection OK'', ''  URL: '' @ scheme @ '':***@'' @ host]) \<and>
   (\<not> postgres_url url \<longrightarrow> length url \<le> 30 \<longrightarrow> ''  Got: '' @ url @ ''...'' \<in> set (fst (db_check (Some url) answer shown)))"
proof (intro conjI impI)
  show "snd (db_check (Some url) answer shown) = 0 \<longleftrightarrow> postgres_url url \<and> (\<exists>x. answer = Inr x)"
    by (auto simp: db_check_def Let_def split: sum.splits)
next
  assume a: "scheme \<in> {''postgresql'', ''postgres''}" "CHR ''@'' \<notin> set secret" "answer = Inr ()"
  have "postgres_url (scheme @ ''://'' @ secret @ ''@'' @ host)" using a(1) by (auto simp: postgres_url_def startsWith_def)
  moreover have "mask_password (scheme @ '':'' @ (''//'' @ secret) @ ''@'' @ host) = scheme @ '':***@'' @ host"
    using a by (intro mask_password_prefix) auto
  ultimately show "fst (db_check (Some (scheme @ ''://'' @ secret @ ''@'' @ host)) answer shown) =
      [[CHR 0xE2, CHR 0x9C, CHR 0x93] @ '' PostgreSQL connection OK'', ''  URL: '' @ scheme @ '':***@'' @ host]"
    using a(3) by (simp add: db_check_def)
next
  assume "\<not> postgres_url url" "length url \<le> 30"
  then show "''  Got: '' @ url @ ''...'' \<in> set (fst (db_check (Some url) answer shown))" by (simp add: db_check_def)
qed

lemma db_check_exact_witness:
  "snd (db_check (Some ''mysql://root:secret@db/pay'') (Inr ()) (\<lambda>e. '''')) \<noteq> 0 \<and>
   ''  Got: mysql://root:secret@db/pay...'' \<in> set (fst (db_check (Some ''mysql://root:secret@db/pay'') (Inr ()) (\<lambda>e. '''')))"
proof -
  have "\<not> postgres_url ''mysql://root:secret@db/pay''" by code_simp
  then show ?thesis
    using db_check_exact [of "''mysql://root:secret@db/pay''" "Inr ()" "\<lambda>e. ''''" "''postgres''" "''u:p''" "''h''"] by simp
qed

end
