(* ===== verification/Spec2Isabelle.thy ===== *)
theory Spec2Isabelle
  imports Verify ClaimRace ConfirmWorker SettlePayment VerifyPayment RpcBreaker NetworkRegistry Sellers RateLimit DeviceAuth Interop PubSub KeyProvider Billing Config UseCases Bootstrap Buyer Scripts
begin

section \<open>The program\<close>

text \<open>
  facilitatorx402 is an x402 payment facilitator in TypeScript (Node, Fastify, Prisma on PostgreSQL, Redis, viem).
  A buyer signs an ERC-3009 authorization for a stablecoin transfer. A seller hands it to the facilitator,
  which checks it (\<open>POST /verify\<close>), submits the transfer to the chain (\<open>POST /settle\<close>), keeps a receipt
  (\<open>GET /receipts/:id\<close>) and notifies the seller by webhook or event stream. Around this core are the sellers' accounts, an
  operator's interface, two client SDKs, an example seller and buyer, and deployment scripts. The repository holds
  two generations of the payment services: those the routes call (\<open>verify.service.ts\<close>, \<open>settle.service.ts\<close>)
  and older use cases (\<open>verify-payment.ts\<close>, \<open>settle-payment.ts\<close>, \<open>*.usecase.ts\<close>) that write
  columns the schema no longer has. Both are modelled, each over its own state. Paths below are relative to
  the directory of the repository.
\<close>

section \<open>How it is modelled\<close>

text \<open>
  An asynchronous function is a \<^emph>\<open>program\<close> (\<open>Prelude\<close>): a function from the external state to a thrown error (\<open>Inl\<close>)
  or a value (\<open>Inr\<close>) and the next state. \<open>seq\<close> is one \<open>await\<close>; \<open>try_catch\<close>, \<open>finally_do\<close>, \<open>ignore_errors\<close> and
  \<open>both\<close> are \<open>try/catch\<close>, \<open>finally\<close>, \<open>.catch(() => {})\<close> and \<open>Promise.all\<close>. The collection \<open>run_simps\<close> says what it means for
  such a program to end in a result, and the locale \<open>step_relation\<close> how a relation between the states before
  and after composes; every frame and monotonicity property of a service is an interpretation of it.

  The state of the current services is the record \<open>world\<close> (\<open>Domain\<close>): the Redis keyspace, one list of rows per table of
  \<open>prisma/schema.prisma\<close>, and the log of the transfers submitted. Interfaces to code that is not in the repository are
  locales with the laws the code relies on: \<open>redis_store\<close>, \<open>prisma_table\<close> and \<open>transactional\<close> (\<open>Externals\<close>), \<open>counter_store\<close>
  (\<open>RateLimit\<close>), \<open>job_queue\<close> (\<open>Webhooks\<close>), \<open>gcm\<close> (\<open>WebhookSecret\<close>). The contracts of the services extend them
  (\<open>verify_service\<close>, \<open>settle_service\<close>, \<open>verify_payment\<close>, \<open>settle_payment\<close>, \<open>confirm_worker\<close>, \<open>seller_tables\<close>), and \<open>retrying\<close> is
  the contract the two SDK clients share. Redis is interpreted by the key-value mock of the repository's tests, a table
  by a list of rows with the unique constraints of the schema. viem, \<open>fetch\<close>, SHA-256, HMAC, AES, the clock,
  random bytes and identifiers are parameters or arguments. A function that is imported from a file
  which does not export it is a parameter as well, and each is a finding of the manifest.
\<close>

section \<open>Theories\<close>

text \<open>
  Basis. \<open>Prelude\<close>: programs, JavaScript strings, numbers and dates, JSON values, replies. \<open>Errors\<close>: \<open>src/http/errors.ts\<close>,
  \<open>error-handler.ts\<close>, \<open>plugins/input-validation.ts\<close>. \<open>Externals\<close>, \<open>Domain\<close>, \<open>V1Domain\<close>: stores, rows and
  states. \<open>Http\<close>: bearer tokens and \<open>safe-compare.ts\<close>. \<open>Json\<close>: \<open>JSON.parse\<close>, \<open>JSON.stringify\<close> and Base64, with their round trips.

  Verification. \<open>X402Parser\<close>: the Zod schemas of \<open>src/protocol\<close>; what they accept is exactly what is well formed.
  \<open>AntiReplay\<close> and \<open>ClaimRace\<close>: the claims on nonce and signature, and their interleaving, one Redis command at a
  time, as a step relation with the invariant that at most one request is past the claim. \<open>NetworkRegistry\<close>: \<open>network-registry.ts\<close> and
  \<open>signature-verifier.ts\<close>. \<open>Verify\<close>: \<open>verify.service.ts\<close>; an accepted payment passed every check, claims were fresh, and
  nothing with its nonce or signature is accepted later. \<open>VerifyPayment\<close>: \<open>verify-payment.ts\<close>, with its rollback.

  Settlement. \<open>OnChain\<close>: \<open>on-chain.ts\<close>, signature splitting and failover. \<open>FeeEngine\<close>: \<open>fee-engine.ts\<close> and \<open>referral-service.ts\<close>;
  no unit of the amount is lost or made. \<open>Settle\<close>: \<open>settle.service.ts\<close>; what a confirmation means, idempotence, and the race
  between its check and its lock. \<open>SettlePayment\<close>: \<open>settle-payment.ts\<close>. \<open>UseCases\<close>: \<open>settle-payment.usecase.ts\<close>,
  \<open>verify-payment.usecase.ts\<close> and \<open>x402-validator.ts\<close>. \<open>ConfirmWorker\<close>: \<open>confirm-settlement.worker.ts\<close> with the attempts of its queue.
  \<open>CircuitBreaker\<close> and \<open>RpcBreaker\<close>: \<open>circuit-breaker.ts\<close>, \<open>rpc-client.ts\<close>, \<open>rpc-circuit-breaker.ts\<close>, \<open>rpc-failover.ts\<close>, with an
  invariant for any number of calls in flight.

  Routes. \<open>PaymentRoutes\<close>: \<open>verify.route.ts\<close> and \<open>settle.route.ts\<close>, and what the two do to one payment. \<open>Receipts\<close>:
  \<open>receipts.route.ts\<close>, \<open>receipt-service.ts\<close>, \<open>audit-logger.ts\<close>. \<open>Sellers\<close>: API keys, \<open>seller.service.ts\<close>, the authentication hooks,
  \<open>sellers.route.ts\<close>. \<open>DeviceAuth\<close>: \<open>device-auth.route.ts\<close>, any interleaving of its handlers as an inductive predicate. \<open>RateLimit\<close>:
  \<open>rate-limit.ts\<close>. \<open>Admin\<close>, \<open>Billing\<close>, \<open>Dashboard\<close>, \<open>Operator\<close>: \<open>admin.route.ts\<close>, \<open>billing.ts\<close>, \<open>dashboard.ts\<close>, and the health, supported,
  metrics and agent manifest routes. \<open>PubSub\<close>: \<open>settlement-pubsub.ts\<close> and \<open>sse.route.ts\<close>; the hub refines a set of
  subscriptions.

  Delivery and keys. \<open>Webhooks\<close>: the SSRF guard, dispatch, signatures, queue and workers. \<open>WebhookSecret\<close>: \<open>webhook-secret.ts\<close>.
  \<open>KeyProvider\<close>: \<open>key-provider.ts\<close>. \<open>Config\<close>: \<open>config.ts\<close> and \<open>secrets.ts\<close>. \<open>Bootstrap\<close>: \<open>src/index.ts\<close> and \<open>prisma/seed.ts\<close>.

  Clients. \<open>Retrying\<close>: a repeated request. \<open>SdkClient\<close>, \<open>X402Client\<close>: the published SDK in \<open>sdk/src\<close>. \<open>AgentClient\<close>:
  \<open>src/sdk/client\<close>. \<open>Interop\<close>: these clients against the modelled routes. \<open>ExampleSeller\<close>, \<open>Buyer\<close>: \<open>examples/seller-server\<close>, up to a run of
  buyer, seller and facilitator together. \<open>Scripts\<close>: \<open>scripts/health-check.ts\<close> and \<open>scripts/db-check.ts\<close>.
\<close>

section \<open>What the properties say\<close>

text \<open>
  The properties are numbered; the number stands in the text before each. For the payment core an acceptance or a confirmation
  implies everything it should (safety, by splitting a run into its stages), errors leave the stores as
  stated, and replays and double settlements are excluded, or, where the code allows them, exhibited on two runs.
  Concurrency is explicit steps: the claim race, the check before the lock, the hub of the event streams, the device
  flow, the breaker with calls in flight. Round trips cover receipts, published updates, secrets and keys; equivalences the
  SSRF ranges and the webhook signatures; the hub is a refinement of an abstract specification. Several
  properties state a defect of the code as it is: the settle service transfers from the payer to the payer, two concurrent
  settlements submit twice, no published client can pay, polling a confirmed receipt times out, and the example
  buyer is never granted the data. The findings of the manifest point to them.
  Every property with a hypothesis is followed by a witness at a concrete input.
\<close>

section \<open>Bounds and termination\<close>

text \<open>
  Amounts are \<open>bigint\<close>s in the code, so integers here; basis points, times and counters are numbers the code keeps integral
  and far below \<open>2 ^ 53\<close>, integers too. No operation of the modelled code wraps around. Every function is
  total. \<open>sdk_request\<close> and \<open>agent_request\<close> recurse over their attempts, and the retries left are the measure. \<open>poll_rounds\<close> and
  \<open>run_attempts\<close> recurse over the rounds the code itself counts, \<open>try_rpcs\<close> and \<open>poll_receipt\<close> over lists of endpoints and answers.
  The only fuel is that of \<open>parse_value\<close>, one more than the length of the text; the round trip of \<open>Json\<close> shows that this is
  enough for every text \<open>js_stringify\<close> writes. Loops of the code that do not end by themselves, event streams and queues,
  are inductive relations over their steps.
\<close>

section \<open>Not modelled\<close>

text \<open>
  Logging, Prometheus metrics and latencies, which no modelled decision reads. The JSON schemas given to Fastify for
  documentation and for filtering replies: a reply here is what the handler sends. \<open>src/http/app.ts\<close>, which only configures plugins,
  imports six empty files and is imported by nothing; \<open>openapi.ts\<close>, the type declarations of
  \<open>x402-types.ts\<close> and the SDKs, and files that hold only \<open>export {}\<close>. The construction of the Prisma, Redis and logger objects.
  \<open>scripts/benchmark.ts\<close>, whose percentiles are computed in floating point, and \<open>scripts/migrate.ts\<close>, which calls one command.
  Foreign keys and \<open>updatedAt\<close> columns of the schema. Floating-point results (a percentage and a volume with
  decimals) are parameters. Texts are sequences of bytes and the JSON numbers of the model are integers: the Zod schemas refuse
  others wherever a number is used.
\<close>

end
